theory Spec2Isabelle
  imports Complex_Main "HOL-Library.Sublist"
begin

section \<open>The JavaScript runtime, as far as the program uses it\<close>

subsection \<open>Strings\<close>

text \<open>
  A JavaScript string is modelled as a \<^typ>\<open>string\<close>: a list of code units, here the
  code units below 256. The empty string is the only falsy string.
\<close>

definition truthy :: "string \<Rightarrow> bool" where
  "truthy s = (s \<noteq> [])"

text \<open>
  The white space of \<^verbatim>\<open>String.prototype.trim\<close> and of the pattern class \<^verbatim>\<open>\s\<close>:
  tab, line feed, vertical tab, form feed, carriage return, space and the no-break space.
\<close>

definition isWhiteSpace :: "char \<Rightarrow> bool" where
  "isWhiteSpace c = (c \<in> {CHR 0x09, CHR 0x0A, CHR 0x0B, CHR 0x0C, CHR 0x0D, CHR 0x20, CHR 0xA0})"

text \<open>
  The pattern classes \<^verbatim>\<open>\d\<close> (the digits 0 to 9) and \<^verbatim>\<open>\w\<close> (letters, digits and
  the underscore), by character code.
\<close>

definition charCode :: "char \<Rightarrow> nat" where
  "charCode c = of_char c"

definition isDigit :: "char \<Rightarrow> bool" where
  "isDigit c = (48 \<le> charCode c \<and> charCode c \<le> 57)"

definition isWordChar :: "char \<Rightarrow> bool" where
  "isWordChar c = ((97 \<le> charCode c \<and> charCode c \<le> 122) \<or> (65 \<le> charCode c \<and> charCode c \<le> 90)
      \<or> isDigit c \<or> c = CHR ''_'')"

definition trim :: "string \<Rightarrow> string" where
  "trim s = rev (dropWhile isWhiteSpace (rev (dropWhile isWhiteSpace s)))"

text \<open>\<^verbatim>\<open>s.split(d)\<close> for a one-character separator: never the empty array.\<close>

fun split :: "char \<Rightarrow> string \<Rightarrow> string list" where
  "split d [] = [[]]"
| "split d (c # cs) =
     (if c = d then [] # split d cs
      else (case split d cs of [] \<Rightarrow> [[c]] | l # ls \<Rightarrow> (c # l) # ls))"

text \<open>\<^verbatim>\<open>xs.join(sep)\<close>.\<close>

fun join :: "string \<Rightarrow> string list \<Rightarrow> string" where
  "join sep [] = []"
| "join sep [x] = x"
| "join sep (x # y # ys) = x @ sep @ join sep (y # ys)"

text \<open>\<^verbatim>\<open>s.includes(sub)\<close>: \<^verbatim>\<open>sub\<close> occurs at some position of \<^verbatim>\<open>s\<close>.\<close>

fun strIncludes :: "string \<Rightarrow> string \<Rightarrow> bool" where
  "strIncludes [] sub = (sub = [])"
| "strIncludes (c # cs) sub = (prefix sub (c # cs) \<or> strIncludes cs sub)"

text \<open>
  \<^verbatim>\<open>s.match(/LIT\s*(C+)/)\<close> for a literal \<^verbatim>\<open>LIT\<close> and a character class \<^verbatim>\<open>C\<close> disjoint
  from \<^verbatim>\<open>\s\<close>: the result is the first capture group of the leftmost match, or \<open>None\<close>
  for \<^verbatim>\<open>null\<close>. At one position the pattern matches iff the literal is there and the
  first character after the white space that follows it is in the class; both
  quantifiers are greedy, and since no character is in both classes, backtracking
  finds no other match at that position.
\<close>

definition matchHere :: "string \<Rightarrow> (char \<Rightarrow> bool) \<Rightarrow> string \<Rightarrow> string option" where
  "matchHere lit cls s =
     (if prefix lit s then
        (let g = takeWhile cls (dropWhile isWhiteSpace (drop (length lit) s))
         in if g = [] then None else Some g)
      else None)"

fun matchFirst :: "string \<Rightarrow> (char \<Rightarrow> bool) \<Rightarrow> string \<Rightarrow> string option" where
  "matchFirst lit cls [] = matchHere lit cls []"
| "matchFirst lit cls (c # cs) =
     (case matchHere lit cls (c # cs) of
        Some g \<Rightarrow> Some g
      | None \<Rightarrow> matchFirst lit cls cs)"

subsection \<open>Numbers\<close>

text \<open>
  A JavaScript number is an IEEE 754 double: \<open>NaN\<close>, one of the two infinities, or a
  finite double, which is modelled by the rational it denotes. Every operation below
  that can leave the doubles rounds its exact result with \<open>toDouble\<close>. The negative zero
  is identified with zero: the program never divides by a zero it computed, and prints
  a number only after \<^verbatim>\<open>Math.abs\<close>, so it cannot tell the two apart.
\<close>

datatype jsnum = NaN | Fin rat | PInf | NInf

text \<open>
  The number of digits of a positive integer in base \<open>b\<close>, and with it the integer
  logarithm of a positive rational \<open>x\<close>: the \<open>e\<close> for which \<open>x\<close> is at least \<open>b\<close> to the
  power \<open>e\<close> and below \<open>b\<close> to the power \<open>e + 1\<close>.
\<close>

function digitCount :: "int \<Rightarrow> int \<Rightarrow> int" where
  "digitCount b x = (if 0 < x \<and> 1 < b then digitCount b (x div b) + 1 else 0)"
  by pat_completeness auto
termination
  by (relation "measure (\<lambda>(b, x). nat x)") (auto intro: int_div_less_self)

declare digitCount.simps [simp del]

definition ilog :: "int \<Rightarrow> rat \<Rightarrow> int" where
  "ilog b x =
     (case quotient_of x of
        (n, d) \<Rightarrow>
          (let e0 = digitCount b n - digitCount b d
           in if of_int b powi e0 \<le> x then e0 else e0 - 1))"

text \<open>The nearest integer, a tie to the even one.\<close>

definition roundHalfEven :: "rat \<Rightarrow> int" where
  "roundHalfEven x =
     (let f = \<lfloor>x\<rfloor>; d = x - of_int f
      in if d < 1 / 2 then f
         else if 1 / 2 < d then f + 1
         else if even f then f else f + 1)"

text \<open>
  The double nearest a rational, a tie to the even significand (the rounding of every
  arithmetic operation and of every conversion from text). A double is an integer of
  at most 53 bits times a power of two; for a number below 2 to the power -1022 that
  power stays at -1074 (the subnormal numbers), and a result that rounds to 2 to the
  power 1024 or more is an infinity.
\<close>

definition toDouble :: "rat \<Rightarrow> jsnum" where
  "toDouble x =
     (if x = 0 then Fin 0
      else
        (let a = \<bar>x\<bar>;
             e = max (ilog 2 a) (- 1022);
             q = 2 powi (e - 52);
             n = roundHalfEven (a / q)
         in if 1023 < e \<or> (e = 1023 \<and> 2 ^ 53 \<le> n) then (if x < 0 then NInf else PInf)
            else Fin (if x < 0 then - (of_int n * q) else of_int n * q)))"

fun jgt :: "jsnum \<Rightarrow> jsnum \<Rightarrow> bool" where
  "jgt NaN _ = False"
| "jgt _ NaN = False"
| "jgt (Fin a) (Fin b) = (a > b)"
| "jgt PInf PInf = False"
| "jgt PInf _ = True"
| "jgt _ PInf = False"
| "jgt NInf _ = False"
| "jgt _ NInf = True"

definition jlt :: "jsnum \<Rightarrow> jsnum \<Rightarrow> bool" where
  "jlt a b = jgt b a"

fun jneg :: "jsnum \<Rightarrow> jsnum" where
  "jneg NaN = NaN"
| "jneg (Fin a) = Fin (- a)"
| "jneg PInf = NInf"
| "jneg NInf = PInf"

fun jadd :: "jsnum \<Rightarrow> jsnum \<Rightarrow> jsnum" where
  "jadd NaN _ = NaN"
| "jadd _ NaN = NaN"
| "jadd (Fin a) (Fin b) = toDouble (a + b)"
| "jadd PInf NInf = NaN"
| "jadd NInf PInf = NaN"
| "jadd PInf _ = PInf"
| "jadd NInf _ = NInf"
| "jadd _ PInf = PInf"
| "jadd _ NInf = NInf"

definition jsub :: "jsnum \<Rightarrow> jsnum \<Rightarrow> jsnum" where
  "jsub a b = jadd a (jneg b)"

text \<open>The sign of a number that is not \<open>NaN\<close>: \<open>-1\<close>, \<open>0\<close> or \<open>1\<close>.\<close>

fun jsign :: "jsnum \<Rightarrow> int" where
  "jsign NaN = 0"
| "jsign (Fin a) = (if a < 0 then - 1 else if a = 0 then 0 else 1)"
| "jsign PInf = 1"
| "jsign NInf = - 1"

definition infOfSign :: "int \<Rightarrow> jsnum" where
  "infOfSign s = (if s < 0 then NInf else PInf)"

text \<open>
  Multiplication and division as IEEE 754 has them: the exact result rounded; zero
  times infinity, zero by zero and infinity by infinity are \<open>NaN\<close>; a non-zero number
  by zero is an infinity (the zero of the model is the positive one).
\<close>

fun jmul :: "jsnum \<Rightarrow> jsnum \<Rightarrow> jsnum" where
  "jmul NaN _ = NaN"
| "jmul _ NaN = NaN"
| "jmul (Fin a) (Fin b) = toDouble (a * b)"
| "jmul a b = (if jsign a * jsign b = 0 then NaN else infOfSign (jsign a * jsign b))"

fun jdiv :: "jsnum \<Rightarrow> jsnum \<Rightarrow> jsnum" where
  "jdiv NaN _ = NaN"
| "jdiv _ NaN = NaN"
| "jdiv (Fin a) (Fin b) =
     (if b = 0 then (if a = 0 then NaN else infOfSign (jsign (Fin a))) else toDouble (a / b))"
| "jdiv (Fin a) _ = Fin 0"
| "jdiv a (Fin b) = infOfSign (jsign a * (if b < 0 then - 1 else 1))"
| "jdiv _ _ = NaN"

text \<open>
  \<^verbatim>\<open>Math.abs\<close>, and \<^verbatim>\<open>Math.round\<close>, which rounds a tie towards plus infinity. Both are
  exact: the negation of a double is a double, and so is the integer nearest a double.
\<close>

fun jabs :: "jsnum \<Rightarrow> jsnum" where
  "jabs NaN = NaN"
| "jabs (Fin a) = Fin \<bar>a\<bar>"
| "jabs _ = PInf"

fun jround :: "jsnum \<Rightarrow> jsnum" where
  "jround (Fin a) = Fin (of_int \<lfloor>a + 1 / 2\<rfloor>)"
| "jround x = x"

text \<open>\<^verbatim>\<open>x || 0\<close> on a number: \<open>NaN\<close> and zero are falsy.\<close>

definition orZero :: "jsnum \<Rightarrow> jsnum" where
  "orZero x = (if x = NaN \<or> x = Fin 0 then Fin 0 else x)"

text \<open>The decimal digits of a natural number, and of a non-negative integer.\<close>

definition digitChar :: "nat \<Rightarrow> char" where
  "digitChar n = ''0123456789'' ! n"

fun showNat :: "nat \<Rightarrow> string" where
  "showNat n =
     (if n < 10 then [digitChar n]
      else showNat (n div 10) @ [digitChar (n mod 10)])"

function showDigits :: "int \<Rightarrow> string" where
  "showDigits n =
     (if n < 10 then [digitChar (nat n)]
      else showDigits (n div 10) @ [digitChar (nat (n mod 10))])"
  by pat_completeness auto
termination
  by (relation "measure nat") auto

declare showDigits.simps [simp del]

text \<open>
  The string of a number in a template literal (\<^verbatim>\<open>Number::toString\<close>, radix 10). For a
  positive double \<open>v\<close> it takes the least number \<open>k\<close> of digits for which there is an
  integer \<open>s\<close> of \<open>k\<close> digits and an \<open>n\<close> such that \<open>s\<close> times 10 to the power \<open>n - k\<close>
  rounds to \<open>v\<close>, and of these the \<open>s\<close> nearest \<open>v\<close>, the even one of two. \<open>shortest\<close>
  searches \<open>k\<close> from 1 upwards; at each \<open>k\<close> only the two multiples of that power of 10
  around \<open>v\<close> can qualify. Seventeen digits always identify a double, so the bound of
  the search is never reached.
\<close>

fun shortest :: "nat \<Rightarrow> int \<Rightarrow> rat \<Rightarrow> int \<Rightarrow> int \<times> int" where
  "shortest 0 k v n0 = (\<lfloor>v / (10 powi (n0 - k))\<rfloor>, n0)"
| "shortest (Suc fuel) k v n0 =
     (let u = 10 powi (n0 - k);
          lo = \<lfloor>v / u\<rfloor>;
          hi = lo + 1;
          okLo = (toDouble (of_int lo * u) = Fin v);
          okHi = (toDouble (of_int hi * u) = Fin v);
          hiPair = (if hi = 10 ^ nat k then (10 ^ nat (k - 1), n0 + 1) else (hi, n0))
      in if okLo \<and> okHi then
           (if v - of_int lo * u < of_int hi * u - v then (lo, n0)
            else if of_int hi * u - v < v - of_int lo * u then hiPair
            else if even lo then (lo, n0) else hiPair)
         else if okLo then (lo, n0)
         else if okHi then hiPair
         else shortest fuel (k + 1) v n0)"

text \<open>
  The digits \<open>ds\<close> of \<open>s\<close> laid out for the position \<open>n\<close> of the decimal point: an integer
  padded with zeros, a decimal fraction, or, from 10 to the power 21 on and below 10
  to the power -6, the exponent notation.
\<close>

definition formatDigits :: "string \<Rightarrow> int \<Rightarrow> string" where
  "formatDigits ds n =
     (let k = int (length ds)
      in if k \<le> n \<and> n \<le> 21 then ds @ replicate (nat (n - k)) CHR ''0''
         else if 0 < n \<and> n \<le> 21 then take (nat n) ds @ ''.'' @ drop (nat n) ds
         else if - 6 < n \<and> n \<le> 0 then ''0.'' @ replicate (nat (- n)) CHR ''0'' @ ds
         else
           (let e = n - 1;
                ex = (if e < 0 then ''-'' else ''+'') @ showDigits \<bar>e\<bar>
            in if k = 1 then ds @ ''e'' @ ex
               else take 1 ds @ ''.'' @ drop 1 ds @ ''e'' @ ex))"

definition positiveToString :: "rat \<Rightarrow> string" where
  "positiveToString v =
     (case shortest 20 1 v (ilog 10 v + 1) of
        (s, n) \<Rightarrow> formatDigits (showDigits s) n)"

fun numToString :: "jsnum \<Rightarrow> string" where
  "numToString NaN = ''NaN''"
| "numToString PInf = ''Infinity''"
| "numToString NInf = ''-Infinity''"
| "numToString (Fin a) =
     (if a = 0 then ''0''
      else if a < 0 then ''-'' @ positiveToString (- a)
      else positiveToString a)"

text \<open>The value of a digit in a radix up to 16, if it is one.\<close>

definition digitValue :: "nat \<Rightarrow> char \<Rightarrow> nat option" where
  "digitValue radix c =
     (let v = (if 48 \<le> charCode c \<and> charCode c \<le> 57 then Some (charCode c - 48)
               else if 97 \<le> charCode c \<and> charCode c \<le> 102 then Some (charCode c - 87)
               else if 65 \<le> charCode c \<and> charCode c \<le> 70 then Some (charCode c - 55)
               else None)
      in case v of None \<Rightarrow> None | Some n \<Rightarrow> (if n < radix then Some n else None))"

definition isRadixDigit :: "nat \<Rightarrow> char \<Rightarrow> bool" where
  "isRadixDigit radix c = (digitValue radix c \<noteq> None)"

fun digitsValue :: "nat \<Rightarrow> nat \<Rightarrow> string \<Rightarrow> nat" where
  "digitsValue radix acc [] = acc"
| "digitsValue radix acc (c # cs) =
     digitsValue radix (acc * radix + (case digitValue radix c of Some n \<Rightarrow> n | None \<Rightarrow> 0)) cs"

text \<open>
  \<^verbatim>\<open>parseInt(s, radix)\<close> for a radix that is absent (\<open>None\<close>) or between 2 and 16:
  leading white space is skipped, a sign is read, \<^verbatim>\<open>0x\<close> selects radix 16 when the
  radix is absent or 16, and the longest run of digits is the value, rounded to the
  nearest double (so an integer above 2 to the power 53 may change, and one of 310
  digits is an infinity); with no digit the result is \<open>NaN\<close>. The language allows an implementation
  to read only the first twenty significant digits in radix 10; the model reads all.
\<close>

definition parseIntRadix :: "nat option \<Rightarrow> string \<Rightarrow> jsnum" where
  "parseIntRadix radix input =
     (let s = dropWhile isWhiteSpace input;
          neg = prefix ''-'' s;
          s1 = (if prefix ''-'' s \<or> prefix ''+'' s then tl s else s);
          hex = ((radix = None \<or> radix = Some 16) \<and> (prefix ''0x'' s1 \<or> prefix ''0X'' s1));
          r = (if hex then 16 else (case radix of None \<Rightarrow> 10 | Some n \<Rightarrow> n));
          s2 = (if hex then drop 2 s1 else s1);
          z = takeWhile (isRadixDigit r) s2
      in if z = [] then NaN
         else toDouble (of_int ((if neg then - 1 else 1) * int (digitsValue r 0 z))))"

definition parseInt :: "string \<Rightarrow> jsnum" where
  "parseInt s = parseIntRadix None s"

text \<open>
  \<^verbatim>\<open>parseFloat(s)\<close>: leading white space is skipped and the longest prefix that is a
  decimal literal is the value, rounded to the nearest double: a sign, then
  \<^verbatim>\<open>Infinity\<close> or digits with an optional fraction, then an optional exponent, which
  counts only when it has a digit.
\<close>

definition exponentPart :: "string \<Rightarrow> int" where
  "exponentPart s =
     (if prefix ''e'' s \<or> prefix ''E'' s then
        (let t = tl s;
             eneg = prefix ''-'' t;
             t1 = (if prefix ''-'' t \<or> prefix ''+'' t then tl t else t);
             ds = takeWhile isDigit t1
         in if ds = [] then 0 else (if eneg then - 1 else 1) * int (digitsValue 10 0 ds))
      else 0)"

definition scale10 :: "rat \<Rightarrow> int \<Rightarrow> rat" where
  "scale10 m e = (if e < 0 then m / 10 ^ nat (- e) else m * 10 ^ nat e)"

definition parseFloat :: "string \<Rightarrow> jsnum" where
  "parseFloat input =
     (let s = dropWhile isWhiteSpace input;
          neg = prefix ''-'' s;
          s1 = (if prefix ''-'' s \<or> prefix ''+'' s then tl s else s)
      in if prefix ''Infinity'' s1 then (if neg then NInf else PInf)
         else
           (let ip = takeWhile isDigit s1;
                r1 = dropWhile isDigit s1;
                fp = (if prefix ''.'' r1 then takeWhile isDigit (tl r1) else []);
                r2 = (if prefix ''.'' r1 then dropWhile isDigit (tl r1) else r1)
            in if ip = [] \<and> fp = [] then NaN
               else
                 (let m = of_nat (digitsValue 10 0 ip)
                          + of_nat (digitsValue 10 0 fp) / 10 ^ length fp
                  in toDouble ((if neg then - 1 else 1) * scale10 m (exponentPart r2)))))"

section \<open>The data model (types.ts)\<close>

record GroundingSource =
  title :: string
  uri :: string

text \<open>A map source is a grounding source with an optional address.\<close>

record MapSource = GroundingSource +
  address :: "string option"

record Confidence =
  score :: jsnum
  label :: string

record AnalysisResult =
  content :: string
  confidence :: Confidence
  language :: string
  sources :: "GroundingSource list"

record DoctorSearchResult =
  content :: string
  mapSources :: "MapSource list"

record Vitals =
  temp :: string
  hr :: string
  bpSys :: string
  bpDia :: string
  spo2 :: string

text \<open>The vitals snapshot of a history item is optional.\<close>

record HistoryItem =
  id :: string
  symptoms :: string
  timestamp :: int
  result :: AnalysisResult
  vitals :: "Vitals option"

datatype severity = normal | warning | critical

record LocalAnalysis =
  condition :: string
  severity :: severity
  message :: string

datatype direction = up | down | stable

record TrendInsight =
  metric :: string
  change :: string
  direction :: direction
  message :: string

section \<open>The remote model\<close>

text \<open>
  What the program reads of a response: its text, which may be absent, and the
  grounding chunks of its first candidate, which may be absent too. A chunk is a web
  reference, a maps reference, both or neither, and each field of a reference may be
  absent.
\<close>

datatype webRef = WebRef (webUri: "string option") (webTitle: "string option")

datatype mapsRef = MapsRef (mapsUri: "string option") (mapsTitle: "string option")
  (mapsAddress: "string option")

record groundingChunk =
  web :: "webRef option"
  maps :: "mapsRef option"

record GenerateContentResponse =
  responseText :: "string option"
  groundingChunks :: "groundingChunk list option"

text \<open>
  What the program sends. A prompt is a template literal; the model keeps the values
  interpolated into it, in the order of the template, and not its fixed wording.
\<close>

datatype prompt =
    AnalysisPrompt bool string string string
  | MapsPrompt string jsnum jsnum string
  | FallbackPrompt string jsnum jsnum string

datatype part = InlineData string string | TextPart prompt

datatype tool = googleSearch | googleMaps

record GenerateContentParameters =
  model :: string
  contents :: "part list"
  systemInstruction :: "string option"
  tools :: "tool list"
  temperature :: "jsnum option"
  latLng :: "(jsnum \<times> jsnum) option"

text \<open>A thrown value is an error with its message.\<close>

datatype jsError = Error string

text \<open>
  The remote model is outside the program: a call takes the request and the state of
  the outside world, and either throws or answers. The world records every request
  issued, in order, so that the number of calls a function makes can be read off.
\<close>

type_synonym 'w remote =
  "GenerateContentParameters \<Rightarrow> 'w \<Rightarrow> (jsError + GenerateContentResponse) \<times> 'w"

record 'w world =
  calls :: "GenerateContentParameters list"
  outside :: 'w

definition generateContent ::
  "'w remote \<Rightarrow> GenerateContentParameters \<Rightarrow> 'w world
    \<Rightarrow> (jsError + GenerateContentResponse) \<times> 'w world" where
  "generateContent gen req w =
     (case gen req (outside w) of
        (r, o') \<Rightarrow> (r, \<lparr>calls = calls w @ [req], outside = o'\<rparr>))"

section \<open>services/geminiService.ts\<close>

subsection \<open>analyzeSymptoms\<close>

record ImageState =
  imageData :: string
  mimeType :: string

text \<open>The labelled block of the vitals that are present (lines 15 to 26).\<close>

definition vitalsContext :: "Vitals option \<Rightarrow> string" where
  "vitalsContext vit =
     (case vit of
        None \<Rightarrow> []
      | Some v \<Rightarrow>
          (let parts =
                 (if truthy (temp v) then [''Temperature: '' @ temp v @ [CHR 0xB0] @ ''F''] else [])
               @ (if truthy (hr v) then [''Heart Rate: '' @ hr v @ '' bpm''] else [])
               @ (if truthy (bpSys v) \<and> truthy (bpDia v)
                  then [''Blood Pressure: '' @ bpSys v @ ''/'' @ bpDia v @ '' mmHg''] else [])
               @ (if truthy (spo2 v) then [''Oxygen Saturation: '' @ spo2 v @ ''%''] else [])
           in if length parts > 0
              then ''\<newline>PATIENT VITALS:\<newline>'' @ join ''\<newline>'' parts @ ''\<newline>''
              else []))"

text \<open>\<^verbatim>\<open>response.text || fallback\<close>: an absent or empty text gives the fallback.\<close>

definition textOr :: "string option \<Rightarrow> string \<Rightarrow> string" where
  "textOr t fallback = (case t of None \<Rightarrow> fallback | Some s \<Rightarrow> (if truthy s then s else fallback))"

definition truthyField :: "string option \<Rightarrow> bool" where
  "truthyField f = (case f of None \<Rightarrow> False | Some s \<Rightarrow> truthy s)"

text \<open>The two patterns of lines 99 and 100.\<close>

definition scoreMatch :: "string \<Rightarrow> string option" where
  "scoreMatch firstLine = matchFirst ''CONFIDENCE_SCORE:'' isDigit firstLine"

definition labelMatch :: "string \<Rightarrow> string option" where
  "labelMatch firstLine = matchFirst ''CONFIDENCE_LABEL:'' isWordChar firstLine"

text \<open>
  The parsing of the metadata line (lines 90 to 116). \<^verbatim>\<open>lines[0]\<close> of an empty array
  is \<^verbatim>\<open>undefined\<close>, whose \<^verbatim>\<open>trim\<close> throws a TypeError; the two \<^verbatim>\<open>match\<close> calls are
  inside a \<^verbatim>\<open>try\<close> of their own and do not throw.
\<close>

definition parseMetadata :: "string \<Rightarrow> jsError + (Confidence \<times> string)" where
  "parseMetadata fullText =
     (let lines = split CHR 0x0A fullText
      in case lines of
           [] \<Rightarrow> Inl (Error ''TypeError'')
         | l0 # _ \<Rightarrow>
             (let firstLine = trim l0
              in if strIncludes firstLine ''CONFIDENCE_SCORE:'' then
                   (case (scoreMatch firstLine, labelMatch firstLine) of
                      (Some s, Some l) \<Rightarrow>
                         Inr (\<lparr>score = parseIntRadix (Some 10) s, label = l\<rparr>,
                              trim (join ''\<newline>'' (drop 1 lines)))
                    | _ \<Rightarrow> Inr (\<lparr>score = Fin 0, label = ''Low''\<rparr>, fullText))
                 else Inr (\<lparr>score = Fin 0, label = ''Low''\<rparr>, fullText)))"

text \<open>Lines 88 to 116: from the text of the response to the confidence and the content.\<close>

definition unableText :: string where
  "unableText = ''Unable to generate analysis. Please try again.''"

definition parseText :: "string option \<Rightarrow> jsError + (Confidence \<times> string)" where
  "parseText t = parseMetadata (textOr t unableText)"

text \<open>
  The callback of the loop over the grounding chunks (lines 122 to 129): a chunk gives
  a source when it has a web reference with a URI and a title, both non-empty.
\<close>

definition webSourceOfChunk :: "groundingChunk \<Rightarrow> GroundingSource list" where
  "webSourceOfChunk chunk =
     (case web chunk of
        Some (WebRef (Some u) (Some t)) \<Rightarrow>
          (if truthy u \<and> truthy t then [\<lparr>title = t, uri = u\<rparr>] else [])
      | _ \<Rightarrow> [])"

definition webSources :: "GenerateContentResponse \<Rightarrow> GroundingSource list" where
  "webSources response =
     (case groundingChunks response of
        None \<Rightarrow> []
      | Some chunks \<Rightarrow> concat (map webSourceOfChunk chunks))"

definition analysisRequest ::
  "string \<Rightarrow> ImageState option \<Rightarrow> Vitals option \<Rightarrow> string \<Rightarrow> GenerateContentParameters" where
  "analysisRequest symptomText img vit lang =
     (let modelName = (if img \<noteq> None then ''gemini-2.5-flash'' else ''gemini-3-flash-preview'');
          prompt = AnalysisPrompt (img \<noteq> None) symptomText (vitalsContext vit) lang;
          requestParts =
            (case img of
               Some i \<Rightarrow> [InlineData (imageData i) (mimeType i)]
             | None \<Rightarrow> []) @ [TextPart prompt]
      in \<lparr>model = modelName, contents = requestParts, systemInstruction = Some lang,
          tools = [googleSearch], temperature = Some (toDouble (2 / 10)), latLng = None\<rparr>)"

definition analysisFailed :: jsError where
  "analysisFailed =
     Error ''Failed to analyze symptoms. Please check your connection or try a different image.''"

definition analyzeSymptoms ::
  "'w remote \<Rightarrow> string \<Rightarrow> ImageState option \<Rightarrow> Vitals option \<Rightarrow> string \<Rightarrow> 'w world
    \<Rightarrow> (jsError + AnalysisResult) \<times> 'w world" where
  "analyzeSymptoms gen symptomText img vit lang w =
     (case generateContent gen (analysisRequest symptomText img vit lang) w of
        (Inl e, w') \<Rightarrow> (Inl analysisFailed, w')
      | (Inr response, w') \<Rightarrow>
          (case parseText (responseText response) of
             Inl e \<Rightarrow> (Inl analysisFailed, w')
           | Inr (conf, body) \<Rightarrow>
               (Inr \<lparr>AnalysisResult.content = body, confidence = conf, language = lang,
                     sources = webSources response\<rparr>, w')))"

subsection \<open>findNearbyDoctors\<close>

text \<open>
  The callback of the loop of \<^verbatim>\<open>processResponse\<close> (lines 153 to 168): the maps
  reference of a chunk when it has a URI and a title, else its web reference with the
  empty address, else nothing.
\<close>

definition webAsMapSource :: "groundingChunk \<Rightarrow> MapSource list" where
  "webAsMapSource chunk =
     (case web chunk of
        Some (WebRef (Some u) (Some t)) \<Rightarrow>
          (if truthy u \<and> truthy t then [\<lparr>title = t, uri = u, address = Some []\<rparr>] else [])
      | _ \<Rightarrow> [])"

definition mapSourceOfChunk :: "groundingChunk \<Rightarrow> MapSource list" where
  "mapSourceOfChunk chunk =
     (case maps chunk of
        Some (MapsRef (Some u) (Some t) a) \<Rightarrow>
          (if truthy u \<and> truthy t then [\<lparr>title = t, uri = u, address = a\<rparr>]
           else webAsMapSource chunk)
      | _ \<Rightarrow> webAsMapSource chunk)"

definition processResponse :: "GenerateContentResponse \<Rightarrow> string \<Rightarrow> DoctorSearchResult" where
  "processResponse response defaultTitle =
     \<lparr>DoctorSearchResult.content = textOr (responseText response) defaultTitle,
      mapSources =
        (case groundingChunks response of
           None \<Rightarrow> []
         | Some chunks \<Rightarrow> concat (map mapSourceOfChunk chunks))\<rparr>"

definition mapsRequest :: "string \<Rightarrow> jsnum \<Rightarrow> jsnum \<Rightarrow> string \<Rightarrow> GenerateContentParameters" where
  "mapsRequest medicalContext lat lng lang =
     \<lparr>model = ''gemini-2.5-flash'',
      contents = [TextPart (MapsPrompt medicalContext lat lng lang)],
      systemInstruction = None, tools = [googleMaps], temperature = None,
      latLng = Some (lat, lng)\<rparr>"

definition fallbackRequest :: "string \<Rightarrow> jsnum \<Rightarrow> jsnum \<Rightarrow> string \<Rightarrow> GenerateContentParameters" where
  "fallbackRequest medicalContext lat lng lang =
     \<lparr>model = ''gemini-3-flash-preview'',
      contents = [TextPart (FallbackPrompt (take 100 medicalContext) lat lng lang)],
      systemInstruction = None, tools = [googleSearch], temperature = None,
      latLng = None\<rparr>"

definition lookupFailed :: jsError where
  "lookupFailed = Error ''Failed to locate nearby doctors.''"

text \<open>The second attempt (lines 205 to 224).\<close>

definition attempt2 ::
  "'w remote \<Rightarrow> string \<Rightarrow> jsnum \<Rightarrow> jsnum \<Rightarrow> string \<Rightarrow> 'w world
    \<Rightarrow> (jsError + DoctorSearchResult) \<times> 'w world" where
  "attempt2 gen medicalContext lat lng lang w =
     (case generateContent gen (fallbackRequest medicalContext lat lng lang) w of
        (Inl e, w') \<Rightarrow> (Inl lookupFailed, w')
      | (Inr response, w') \<Rightarrow> (Inr (processResponse response ''Search Results''), w'))"

text \<open>
  The first attempt (lines 173 to 203) returns when it found map sources; when it
  found none, or when the call threw, the second attempt runs.
\<close>

definition findNearbyDoctors ::
  "'w remote \<Rightarrow> string \<Rightarrow> jsnum \<Rightarrow> jsnum \<Rightarrow> string \<Rightarrow> 'w world
    \<Rightarrow> (jsError + DoctorSearchResult) \<times> 'w world" where
  "findNearbyDoctors gen medicalContext lat lng lang w =
     (case generateContent gen (mapsRequest medicalContext lat lng lang) w of
        (Inl e, w') \<Rightarrow> attempt2 gen medicalContext lat lng lang w'
      | (Inr response, w') \<Rightarrow>
          (let res = processResponse response ''Maps Search Results''
           in if length (mapSources res) > 0 then (Inr res, w')
              else attempt2 gen medicalContext lat lng lang w'))"

section \<open>App.tsx\<close>

subsection \<open>The local analysis of the vitals\<close>

text \<open>
  Each check appends at most one alert to the alerts collected so far. The literal
  \<^verbatim>\<open>100.4\<close> of the source is the double nearest that decimal.
\<close>

definition feverCheck :: "Vitals \<Rightarrow> LocalAnalysis list \<Rightarrow> LocalAnalysis list" where
  "feverCheck v alerts =
     (if truthy (temp v) then
        (let t = parseFloat (temp v)
         in if jgt t (Fin 103) then
              alerts @ [\<lparr>condition = ''High Fever'', severity = critical,
                         LocalAnalysis.message = ''Medical attention recommended immediately.''\<rparr>]
            else if jgt t (toDouble (1004 / 10)) then
              alerts @ [\<lparr>condition = ''Fever'', severity = warning,
                         LocalAnalysis.message = ''Monitor temperature closely.''\<rparr>]
            else if jlt t (Fin 95) then
              alerts @ [\<lparr>condition = ''Hypothermia Risk'', severity = critical,
                         LocalAnalysis.message = ''Body temperature is dangerously low.''\<rparr>]
            else
              alerts @ [\<lparr>condition = ''Temperature'', severity = normal,
                         LocalAnalysis.message = ''Within normal range.''\<rparr>])
      else alerts)"

definition heartRateCheck :: "Vitals \<Rightarrow> LocalAnalysis list \<Rightarrow> LocalAnalysis list" where
  "heartRateCheck v alerts =
     (if truthy (hr v) then
        (let h = parseInt (hr v)
         in if jgt h (Fin 120) then
              alerts @ [\<lparr>condition = ''Tachycardia'', severity = critical,
                         LocalAnalysis.message = ''Heart rate is significantly high.''\<rparr>]
            else if jgt h (Fin 100) then
              alerts @ [\<lparr>condition = ''Elevated HR'', severity = warning,
                         LocalAnalysis.message = ''Heart rate is above normal.''\<rparr>]
            else if jlt h (Fin 50) then
              alerts @ [\<lparr>condition = ''Bradycardia'', severity = warning,
                         LocalAnalysis.message = ''Heart rate is lower than normal.''\<rparr>]
            else
              alerts @ [\<lparr>condition = ''Heart Rate'', severity = normal,
                         LocalAnalysis.message = ''Normal resting heart rate.''\<rparr>])
      else alerts)"

definition bloodPressureCheck :: "Vitals \<Rightarrow> LocalAnalysis list \<Rightarrow> LocalAnalysis list" where
  "bloodPressureCheck v alerts =
     (if truthy (bpSys v) \<and> truthy (bpDia v) then
        (let sys = parseInt (bpSys v);
             dia = parseInt (bpDia v)
         in if jgt sys (Fin 180) \<or> jgt dia (Fin 120) then
              alerts @ [\<lparr>condition = ''Hypertensive Crisis'', severity = critical,
                         LocalAnalysis.message = ''Seek emergency care immediately.''\<rparr>]
            else if jgt sys (Fin 140) \<or> jgt dia (Fin 90) then
              alerts @ [\<lparr>condition = ''High BP'', severity = warning,
                         LocalAnalysis.message = ''Stage 2 Hypertension range.''\<rparr>]
            else if jgt sys (Fin 130) \<or> jgt dia (Fin 80) then
              alerts @ [\<lparr>condition = ''Elevated BP'', severity = warning,
                         LocalAnalysis.message = ''Stage 1 Hypertension range.''\<rparr>]
            else
              alerts @ [\<lparr>condition = ''Blood Pressure'', severity = normal,
                         LocalAnalysis.message = ''Normal healthy range.''\<rparr>])
      else alerts)"

definition spo2Check :: "Vitals \<Rightarrow> LocalAnalysis list \<Rightarrow> LocalAnalysis list" where
  "spo2Check v alerts =
     (if truthy (spo2 v) then
        (let s = parseInt (spo2 v)
         in if jlt s (Fin 90) then
              alerts @ [\<lparr>condition = ''Hypoxia Risk'', severity = critical,
                         LocalAnalysis.message = ''Oxygen levels are dangerously low.''\<rparr>]
            else if jlt s (Fin 95) then
              alerts @ [\<lparr>condition = ''Low Oxygen'', severity = warning,
                         LocalAnalysis.message = ''Oxygen saturation is below optimal.''\<rparr>]
            else
              alerts @ [\<lparr>condition = ''Oxygen Level'', severity = normal,
                         LocalAnalysis.message = ''Normal saturation.''\<rparr>])
      else alerts)"

text \<open>
  The effect that runs on every change of the vitals (lines 120 to 160 of the
  component): the alerts it passes to \<^verbatim>\<open>setLocalAnalysis\<close>.
\<close>

definition localAnalysisOf :: "Vitals \<Rightarrow> LocalAnalysis list" where
  "localAnalysisOf v =
     spo2Check v (bloodPressureCheck v (heartRateCheck v (feverCheck v [])))"

subsection \<open>calculateTrends\<close>

text \<open>
  The three callbacks over history items: \<^verbatim>\<open>h => h.vitals\<close>, \<^verbatim>\<open>h => h.vitals?.hr\<close>
  and the heart rate that the sum reads, \<^verbatim>\<open>parseInt(curr.vitals?.hr || '0') || 0\<close>.
\<close>

definition hasVitals :: "HistoryItem \<Rightarrow> bool" where
  "hasVitals h = (vitals h \<noteq> None)"

definition hasHr :: "HistoryItem \<Rightarrow> bool" where
  "hasHr h = (case vitals h of None \<Rightarrow> False | Some v \<Rightarrow> truthy (hr v))"

definition hrOf :: "HistoryItem \<Rightarrow> jsnum" where
  "hrOf h =
     orZero (parseInt (case vitals h of
                         None \<Rightarrow> ''0''
                       | Some v \<Rightarrow> (if truthy (hr v) then hr v else ''0'')))"

text \<open>The average of line 172: the sum of the heart rates by the number of items that have one.\<close>

definition avgHROf :: "HistoryItem list \<Rightarrow> jsnum" where
  "avgHROf recentHistory =
     jdiv (foldl (\<lambda>acc h. jadd acc (hrOf h)) (Fin 0) recentHistory)
          (Fin (of_nat (length (filter hasHr recentHistory))))"

text \<open>The block \<^verbatim>\<open>Heart Rate Trend\<close> (lines 169 to 189): it appends at most one insight.\<close>

definition heartRateTrend ::
  "Vitals \<Rightarrow> HistoryItem list \<Rightarrow> TrendInsight list \<Rightarrow> TrendInsight list" where
  "heartRateTrend currentVitals recentHistory insights =
     (if truthy (hr currentVitals) then
        (let currentHR = parseInt (hr currentVitals);
             avgHR = avgHROf recentHistory
         in if jgt avgHR (Fin 0) then
              (let diff = jsub currentHR avgHR;
                   percentChange = jmul (jdiv diff avgHR) (Fin 100)
               in if jgt (jabs percentChange) (Fin 10) then
                    insights @
                    [\<lparr>metric = ''Heart Rate'',
                      change = numToString (jabs (jround percentChange)) @ ''%'',
                      direction = (if jgt percentChange (Fin 0) then up else down),
                      message =
                        (if jgt percentChange (Fin 0)
                         then ''Significant increase compared to your recent average. Monitor for fatigue.''
                         else ''Lower than your recent average.'')\<rparr>]
                  else insights)
            else insights)
      else insights)"

definition calculateTrends :: "Vitals \<Rightarrow> HistoryItem list \<Rightarrow> TrendInsight list" where
  "calculateTrends currentVitals historyData =
     (let insights = [];
          recentHistory = take 5 (filter hasVitals historyData)
      in if length recentHistory = 0 then insights
         else heartRateTrend currentVitals recentHistory insights)"

subsection \<open>handleAnalyze\<close>

text \<open>
  The state of the component that \<^verbatim>\<open>handleAnalyze\<close> reads and writes; \<open>savedHistory\<close>
  is the item \<^verbatim>\<open>healthlens_history\<close> of the local storage (absent is \<open>None\<close>), whose
  JSON text is identified with the list it encodes.
\<close>

record AppState =
  symptomsInput :: string
  isAnalyzing :: bool
  currentResult :: "AnalysisResult option"
  errorMessage :: "string option"
  history :: "HistoryItem list"
  selectedLanguage :: string
  selectedImage :: "ImageState option"
  vitalsInput :: Vitals
  trendInsights :: "TrendInsight list"
  savedHistory :: "HistoryItem list option"

text \<open>\<^verbatim>\<open>Object.values(vitals).some(v => v)\<close>.\<close>

definition someVital :: "Vitals \<Rightarrow> bool" where
  "someVital v = (truthy (temp v) \<or> truthy (hr v) \<or> truthy (bpSys v) \<or> truthy (bpDia v)
                  \<or> truthy (spo2 v))"

text \<open>The guard of the handler and of the button: there is nothing to analyse.\<close>

definition nothingEntered :: "AppState \<Rightarrow> bool" where
  "nothingEntered st = (\<not> truthy (trim (symptomsInput st)) \<and> selectedImage st = None
                        \<and> \<not> someVital (vitalsInput st))"

text \<open>
  The history item of a successful analysis (lines 290 to 296 of the component); its
  identifier and its timestamp come from the environment.
\<close>

definition newHistoryItem :: "AppState \<Rightarrow> string \<Rightarrow> int \<Rightarrow> AnalysisResult \<Rightarrow> HistoryItem" where
  "newHistoryItem st uuid now data =
     \<lparr>id = uuid,
      symptoms = (if truthy (symptomsInput st) then symptomsInput st
                  else if selectedImage st \<noteq> None then ''[Image Scan Analysis]''
                  else ''[Vitals Analysis]''),
      timestamp = now,
      result = data,
      vitals = Some (vitalsInput st)\<rparr>"

text \<open>\<^verbatim>\<open>[newHistoryItem, ...history].slice(0, 10)\<close>.\<close>

definition updatedHistory :: "HistoryItem \<Rightarrow> HistoryItem list \<Rightarrow> HistoryItem list" where
  "updatedHistory item hist = take 10 (item # hist)"

text \<open>
  One submission, from the click to the end of the \<^verbatim>\<open>finally\<close> block, as one
  transition of the state and the world. The handler reads the state it closed over,
  which is the state at the click. \<^verbatim>\<open>checkOutbreaks\<close> writes only the outbreak alert,
  which is not part of this state.
\<close>

definition handleAnalyze ::
  "'w remote \<Rightarrow> string \<Rightarrow> int \<Rightarrow> AppState \<times> 'w world \<Rightarrow> AppState \<times> 'w world" where
  "handleAnalyze gen uuid now sw =
     (case sw of (st, w) \<Rightarrow>
        if nothingEntered st then (st, w)
        else
          (let st1 = st\<lparr>isAnalyzing := True, errorMessage := None, currentResult := None,
                        trendInsights := []\<rparr>;
               trends = calculateTrends (vitalsInput st) (history st);
               st2 = st1\<lparr>trendInsights := trends\<rparr>
           in case analyzeSymptoms gen (symptomsInput st) (selectedImage st)
                     (Some (vitalsInput st)) (selectedLanguage st) w of
                (Inl (Error msg), w') \<Rightarrow>
                  (st2\<lparr>errorMessage := Some (if truthy msg then msg else ''Something went wrong.''),
                       isAnalyzing := False\<rparr>, w')
              | (Inr data, w') \<Rightarrow>
                  (let item = newHistoryItem st uuid now data;
                       updated = updatedHistory item (history st)
                   in (st2\<lparr>currentResult := Some data, history := updated,
                            savedHistory := Some updated, isAnalyzing := False\<rparr>, w'))))"

definition clearHistory :: "AppState \<Rightarrow> AppState" where
  "clearHistory st = st\<lparr>history := [], savedHistory := None\<rparr>"

text \<open>The call of the handler to the service, with the state it closed over.\<close>

abbreviation analysisCall ::
  "'w remote \<Rightarrow> AppState \<Rightarrow> 'w world \<Rightarrow> (jsError + AnalysisResult) \<times> 'w world" where
  "analysisCall gen st w \<equiv>
     analyzeSymptoms gen (symptomsInput st) (selectedImage st) (Some (vitalsInput st))
       (selectedLanguage st) w"

section \<open>The metadata line and the confidence buckets\<close>

text \<open>
  The first line that the system instruction asks the remote model for (lines 35 and
  36 of the service): \<^verbatim>\<open>CONFIDENCE_SCORE: [0-100] | CONFIDENCE_LABEL: [High/Medium/Low]\<close>,
  for given digits and a given word.
\<close>

definition metadataLine :: "string \<Rightarrow> string \<Rightarrow> string" where
  "metadataLine ds word = ''CONFIDENCE_SCORE: '' @ ds @ '' | CONFIDENCE_LABEL: '' @ word"

text \<open>
  The invariant as the specification words it, for comparison with the code: the label
  is High iff the score is 80 to 100, Medium iff 50 to 79, Low iff 0 to 49.
\<close>

definition spec_bucketsAgree :: "Confidence \<Rightarrow> bool" where
  "spec_bucketsAgree c =
     (case score c of
        Fin r \<Rightarrow> (label c = ''High'' \<and> 80 \<le> r \<and> r \<le> 100)
               \<or> (label c = ''Medium'' \<and> 50 \<le> r \<and> r \<le> 79)
               \<or> (label c = ''Low'' \<and> 0 \<le> r \<and> r \<le> 49)
      | _ \<Rightarrow> False)"

section \<open>The trend analysis in the words of the specification\<close>

text \<open>
  For comparison with \<open>calculateTrends\<close>. The recent items are the first five of the
  history that carry vitals (the history is kept newest first). The heart rates are
  those of the recent items that have the field: the number the text of the field
  parses to, and 0 when it parses to none. The mean is their sum, accumulated from 0 in
  the order of the items, by their count; the percent change of a current value is its
  difference from the mean, by the mean, times 100. Each operation is the one of double
  arithmetic, so each result is rounded.
\<close>

definition spec_recent :: "HistoryItem list \<Rightarrow> HistoryItem list" where
  "spec_recent hist = take 5 (filter (\<lambda>h. vitals h \<noteq> None) hist)"

definition spec_heartRates :: "HistoryItem list \<Rightarrow> jsnum list" where
  "spec_heartRates items =
     concat (map (\<lambda>h. case vitals h of
                         None \<Rightarrow> []
                       | Some v \<Rightarrow> (if hr v = [] then [] else [orZero (parseInt (hr v))]))
                 items)"

definition spec_mean :: "jsnum list \<Rightarrow> jsnum" where
  "spec_mean xs = jdiv (foldl jadd (Fin 0) xs) (Fin (of_nat (length xs)))"

definition spec_percent :: "jsnum \<Rightarrow> jsnum \<Rightarrow> jsnum" where
  "spec_percent c m = jmul (jdiv (jsub c m) m) (Fin 100)"

text \<open>A negative number that lies halfway between two integers.\<close>

definition negativeTie :: "jsnum \<Rightarrow> bool" where
  "negativeTie x = (case x of Fin a \<Rightarrow> a < 0 \<and> of_int \<lfloor>a + 1 / 2\<rfloor> = a + 1 / 2 | _ \<Rightarrow> False)"

section \<open>Sample data\<close>

text \<open>
  A remote model that answers from a script: each call takes the next answer, and
  throws when the script is used up.
\<close>

fun scripted :: "(jsError + GenerateContentResponse) list remote" where
  "scripted req [] = (Inl (Error ''network''), [])"
| "scripted req (a # as) = (a, as)"

definition freshWorld :: "'w \<Rightarrow> 'w world" where
  "freshWorld x = \<lparr>calls = [], outside = x\<rparr>"

definition textResponse :: "string \<Rightarrow> GenerateContentResponse" where
  "textResponse t = \<lparr>responseText = Some t, groundingChunks = None\<rparr>"

definition hrOnly :: "string \<Rightarrow> Vitals" where
  "hrOnly h = \<lparr>temp = [], hr = h, bpSys = [], bpDia = [], spo2 = []\<rparr>"

definition noVitals :: Vitals where
  "noVitals = hrOnly []"

definition sampleResult :: AnalysisResult where
  "sampleResult =
     \<lparr>AnalysisResult.content = ''Rest.'', confidence = \<lparr>score = Fin 72, label = ''Medium''\<rparr>,
      language = ''English'', sources = []\<rparr>"

definition sampleItem :: "nat \<Rightarrow> string \<Rightarrow> HistoryItem" where
  "sampleItem n h =
     \<lparr>id = showNat n, symptoms = ''cough'', timestamp = int n, result = sampleResult,
      vitals = Some (hrOnly h)\<rparr>"

definition sampleState :: "string \<Rightarrow> Vitals \<Rightarrow> HistoryItem list \<Rightarrow> AppState" where
  "sampleState s v hist =
     \<lparr>symptomsInput = s, isAnalyzing = False, currentResult = None, errorMessage = None,
      history = hist, selectedLanguage = ''English'', selectedImage = None,
      vitalsInput = v, trendInsights = [], savedHistory = Some hist\<rparr>"

definition tenItems :: "HistoryItem list" where
  "tenItems = map (\<lambda>n. sampleItem n ''70'') [10, 9, 8, 7, 6, 5, 4, 3, 2, 1]"

definition fiveItems :: "HistoryItem list" where
  "fiveItems = map (\<lambda>n. sampleItem n ''70'') [5, 4, 3, 2, 1]"

definition mediumAnswer :: "(jsError + GenerateContentResponse) list" where
  "mediumAnswer =
     [Inr (textResponse ''CONFIDENCE_SCORE: 72 | CONFIDENCE_LABEL: Medium\<newline>Rest.'')]"

definition noTextResponse :: GenerateContentResponse where
  "noTextResponse = \<lparr>responseText = None, groundingChunks = None\<rparr>"

definition mapsResponse :: GenerateContentResponse where
  "mapsResponse =
     \<lparr>responseText = Some ''Clinics near you'',
      groundingChunks =
        Some [\<lparr>web = None,
               maps = Some (MapsRef (Some ''https://maps.example/1'') (Some ''City Clinic'')
                              (Some ''1 Main St''))\<rparr>]\<rparr>"

section \<open>Properties of the rounding to doubles\<close>

lemma digitCount_pos: "0 < x \<Longrightarrow> 1 < b \<Longrightarrow> 1 \<le> digitCount b x"
proof (induction b x rule: digitCount.induct)
  case (1 b x)
  show ?case
  proof (cases "0 < x div b")
    case True
    with 1 have "1 \<le> digitCount b (x div b)"
      by simp
    with 1 show ?thesis
      by (subst digitCount.simps) simp
  next
    case False
    then have "digitCount b (x div b) = 0"
      by (subst digitCount.simps) simp
    with 1 show ?thesis
      by (subst digitCount.simps) simp
  qed
qed

lemma digitCount_bounds:
  "0 < x \<Longrightarrow> 1 < b \<Longrightarrow>
     b ^ nat (digitCount b x - 1) \<le> x \<and> x < b ^ nat (digitCount b x)"
proof (induction b x rule: digitCount.induct)
  case (1 b x)
  have dc: "digitCount b x = digitCount b (x div b) + 1"
    using 1(2,3) by (subst digitCount.simps) simp
  show ?case
  proof (cases "0 < x div b")
    case False
    with 1(2,3) have small: "x < b"
      using pos_imp_zdiv_pos_iff [of b x] by simp
    from False have "digitCount b (x div b) = 0"
      by (subst digitCount.simps) simp
    with dc small 1(2) show ?thesis
      by simp
  next
    case True
    let ?d = "digitCount b (x div b)"
    from 1(1) [OF _ True 1(3)] 1(2,3)
    have ih: "b ^ nat (?d - 1) \<le> x div b" "x div b < b ^ nat ?d"
      by simp_all
    have dp: "1 \<le> ?d"
      by (rule digitCount_pos [OF True 1(3)])
    have e: "x = b * (x div b) + x mod b"
      by simp
    have m: "0 \<le> x mod b" "x mod b < b"
      using 1(3) by simp_all
    have n1: "nat ?d = Suc (nat (?d - 1))"
      using dp by simp
    have "b ^ nat ?d = b * b ^ nat (?d - 1)"
      by (simp add: n1)
    also have "\<dots> \<le> b * (x div b)"
      using ih(1) 1(3) by (simp add: mult_left_mono)
    also have "\<dots> \<le> x"
      using e m by linarith
    finally have lo: "b ^ nat ?d \<le> x" .
    have "x div b + 1 \<le> b ^ nat ?d"
      using ih(2) by simp
    then have "b * (x div b + 1) \<le> b * b ^ nat ?d"
      using 1(3) by (simp add: mult_left_mono)
    moreover have "x < b * (x div b + 1)"
      using e m by (simp only: distrib_left mult_1_right)
    ultimately have hi: "x < b ^ nat (?d + 1)"
      using dp by (simp add: nat_add_distrib)
    show ?thesis
      unfolding dc using lo hi by simp
  qed
qed


lemma quotient_of_pos:
  assumes "0 < x" and "quotient_of x = (n, d)"
  shows "0 < n" and "0 < d" and "x = of_int n / of_int d"
proof -
  show d: "0 < d"
    using assms(2) by (rule quotient_of_denom_pos)
  show x: "x = of_int n / of_int d"
    using assms(2) by (rule quotient_of_div)
  show "0 < n"
    using assms(1) d unfolding x by (simp add: zero_less_divide_iff)
qed

lemma powi_mono: "1 \<le> (b :: rat) \<Longrightarrow> i \<le> j \<Longrightarrow> b powi i \<le> b powi j"
  by (rule power_int_increasing)

lemma powi_strict_mono: "1 < (b :: rat) \<Longrightarrow> i < j \<Longrightarrow> b powi i < b powi j"
  by (rule power_int_strict_increasing)

text \<open>The integer logarithm is the exponent of the power of the base just below.\<close>

lemma ilog_bounds:
  assumes "0 < x" and "1 < b"
  shows "of_int b powi (ilog b x) \<le> x" and "x < of_int b powi (ilog b x + 1)"
proof -
  obtain n d where q: "quotient_of x = (n, d)"
    by (cases "quotient_of x")
  note p = quotient_of_pos [OF assms(1) q]
  let ?B = "of_int b :: rat"
  let ?ln = "digitCount b n" and ?ld = "digitCount b d"
  let ?e0 = "?ln - ?ld"
  have B: "1 < ?B" "0 < ?B"
    using assms(2) by simp_all
  note bn = digitCount_bounds [OF p(1) assms(2)] and bd = digitCount_bounds [OF p(2) assms(2)]
  have pn: "1 \<le> ?ln" and pd: "1 \<le> ?ld"
    using digitCount_pos p assms(2) by simp_all
  have nlo: "?B powi (?ln - 1) \<le> of_int n"
  proof -
    have "(of_int (b ^ nat (?ln - 1)) :: rat) \<le> of_int n"
      using bn by (simp only: of_int_le_iff)
    then show ?thesis
      using pn by (simp add: power_int_def)
  qed
  have nhi: "of_int n < ?B powi ?ln"
  proof -
    have "(of_int n :: rat) < of_int (b ^ nat ?ln)"
      using bn by (simp only: of_int_less_iff)
    then show ?thesis
      using pn by (simp add: power_int_def)
  qed
  have dlo: "?B powi (?ld - 1) \<le> of_int d"
  proof -
    have "(of_int (b ^ nat (?ld - 1)) :: rat) \<le> of_int d"
      using bd by (simp only: of_int_le_iff)
    then show ?thesis
      using pd by (simp add: power_int_def)
  qed
  have dhi: "of_int d < ?B powi ?ld"
  proof -
    have "(of_int d :: rat) < of_int (b ^ nat ?ld)"
      using bd by (simp only: of_int_less_iff)
    then show ?thesis
      using pd by (simp add: power_int_def)
  qed
  have dpos: "(0 :: rat) < of_int d"
    using p(2) by simp
  have lower: "?B powi (?e0 - 1) < x"
  proof -
    have "?B powi (?e0 - 1) * of_int d < ?B powi (?e0 - 1) * ?B powi ?ld"
      using dhi B by (simp add: mult_strict_left_mono)
    also have "\<dots> = ?B powi (?ln - 1)"
      using B by (simp flip: power_int_add)
    also have "\<dots> \<le> of_int n"
      by (rule nlo)
    finally show ?thesis
      unfolding p(3) using dpos by (simp add: pos_less_divide_eq)
  qed
  have upper: "x < ?B powi (?e0 + 1)"
  proof -
    have "of_int n < ?B powi ?ln"
      by (rule nhi)
    also have "\<dots> = ?B powi (?e0 + 1) * ?B powi (?ld - 1)"
      using B by (simp flip: power_int_add)
    also have "\<dots> \<le> ?B powi (?e0 + 1) * of_int d"
      using dlo B by (simp add: mult_left_mono)
    finally show ?thesis
      unfolding p(3) using dpos by (simp add: pos_divide_less_eq)
  qed
  have il: "ilog b x = (if ?B powi ?e0 \<le> x then ?e0 else ?e0 - 1)"
    by (simp add: ilog_def q Let_def)
  show "?B powi (ilog b x) \<le> x"
    using lower by (simp add: il)
  show "x < ?B powi (ilog b x + 1)"
    using upper by (auto simp: il)
qed

lemma ilog_unique:
  assumes "1 < b" and "of_int b powi k \<le> x" and "x < of_int b powi (k + 1)"
  shows "ilog b x = k"
proof -
  let ?B = "of_int b :: rat"
  have B: "1 < ?B"
    using assms(1) by simp
  have "0 < ?B powi k"
    using B by simp
  with assms(2) have x: "0 < x"
    by simp
  note i = ilog_bounds [OF x assms(1)]
  have "?B powi (ilog b x) < ?B powi (k + 1)"
    using i(1) assms(3) by simp
  then have a: "ilog b x < k + 1"
    using B powi_mono [of ?B "k + 1" "ilog b x"] by (cases "ilog b x < k + 1") auto
  have "?B powi k < ?B powi (ilog b x + 1)"
    using i(2) assms(2) by simp
  then have "k < ilog b x + 1"
    using B powi_mono [of ?B "ilog b x + 1" k] by (cases "k < ilog b x + 1") auto
  with a show ?thesis
    by simp
qed


lemma roundHalfEven_of_int [simp]: "roundHalfEven (of_int n) = n"
  by (simp add: roundHalfEven_def)

lemma roundHalfEven_range: "\<lfloor>x\<rfloor> \<le> roundHalfEven x \<and> roundHalfEven x \<le> \<lfloor>x\<rfloor> + 1"
  by (simp add: roundHalfEven_def Let_def)

lemma roundHalfEven_ge: "of_int k \<le> x \<Longrightarrow> k \<le> roundHalfEven x"
proof -
  assume "of_int k \<le> x"
  then have "k \<le> \<lfloor>x\<rfloor>"
    by (simp add: le_floor_iff)
  with roundHalfEven_range [of x] show ?thesis
    by linarith
qed

lemma roundHalfEven_le: "x \<le> of_int k \<Longrightarrow> roundHalfEven x \<le> k"
proof (cases "x = of_int k")
  case True
  then show ?thesis
    by simp
next
  case False
  assume "x \<le> of_int k"
  with False have "x < of_int k"
    by simp
  then have "\<lfloor>x\<rfloor> < k"
    by (simp add: floor_less_iff)
  with roundHalfEven_range [of x] show ?thesis
    by linarith
qed

lemma toDouble_minus: "toDouble (- x) = (case toDouble x of Fin y \<Rightarrow> Fin (- y) | PInf \<Rightarrow> NInf
    | NInf \<Rightarrow> PInf | NaN \<Rightarrow> NaN)"
  by (cases "x = 0"; cases "x < 0") (auto simp: toDouble_def Let_def)

text \<open>What the rounding of a positive number is made of.\<close>

lemma toDouble_pos_parts:
  assumes "0 < x"
  obtains e n where "e = max (ilog 2 x) (- 1022)" and "n = roundHalfEven (x / 2 powi (e - 52))"
    and "0 \<le> n" and "n \<le> 2 ^ 53"
    and "toDouble x = (if 1023 < e \<or> (e = 1023 \<and> 2 ^ 53 \<le> n) then PInf
                       else Fin (of_int n * 2 powi (e - 52)))"
proof -
  define e where "e = max (ilog 2 x) (- 1022)"
  define q :: rat where "q = 2 powi (e - 52)"
  define n where "n = roundHalfEven (x / q)"
  have q: "0 < q"
    by (simp add: q_def)
  have "0 \<le> x / q"
    using assms q by simp
  then have n0: "0 \<le> n"
    unfolding n_def using roundHalfEven_ge [of 0 "x / q"] by simp
  have "x < 2 powi (ilog 2 x + 1)"
    using ilog_bounds(2) [OF assms, of 2] by simp
  also have "\<dots> \<le> 2 powi (e + 1)"
    by (rule powi_mono) (simp_all add: e_def)
  also have "\<dots> = 2 ^ 53 * q"
    unfolding q_def using power_int_add [of "2 :: rat" 53 "e - 52"] by (simp add: add.commute)
  finally have "x / q \<le> of_int (2 ^ 53)"
    using q by (simp add: pos_divide_le_eq)
  then have n1: "n \<le> 2 ^ 53"
    unfolding n_def by (rule roundHalfEven_le)
  have "toDouble x = (if 1023 < e \<or> (e = 1023 \<and> 2 ^ 53 \<le> n) then PInf
                       else Fin (of_int n * 2 powi (e - 52)))"
  proof -
    have nx: "(x < 0) = False" "(x = 0) = False" "\<bar>x\<bar> = x"
      using assms by simp_all
    show ?thesis
      unfolding toDouble_def Let_def e_def n_def q_def by (simp only: nx if_False)
  qed
  with n0 n1 show thesis
    by (intro that [of e n]) (simp_all add: e_def n_def q_def)
qed

lemma powi_le_cancel: "(2 :: rat) powi a \<le> 2 powi b \<Longrightarrow> a \<le> b"
  by (rule ccontr) (use powi_strict_mono [of 2 b a] in \<open>simp add: not_le\<close>)

lemma powi_less_cancel: "(2 :: rat) powi a < 2 powi b \<Longrightarrow> a < b"
  by (rule ccontr) (use powi_mono [of 2 b a] in \<open>simp add: not_less\<close>)

lemma powi_nat: "0 \<le> k \<Longrightarrow> (2 :: rat) powi k = of_int (2 ^ nat k)"
  by (simp add: power_int_def)

lemma toDouble_exact_pos:
  assumes y: "y = of_int m * 2 powi k" and m: "0 < m" "m \<le> 2 ^ 53"
    and k: "- 1074 \<le> k" "k \<le> 971" "k = 971 \<longrightarrow> m < 2 ^ 53"
  shows "toDouble y = Fin y"
proof -
  have pos: "0 < y"
    using y m by simp
  define L where "L = ilog 2 y"
  have lo: "2 powi L \<le> y" and hi: "y < 2 powi (L + 1)"
    using ilog_bounds [OF pos, of 2] by (simp_all add: L_def)
  from pos obtain e n where e: "e = max L (- 1022)"
    and n: "n = roundHalfEven (y / 2 powi (e - 52))"
    and t: "toDouble y = (if 1023 < e \<or> (e = 1023 \<and> 2 ^ 53 \<le> n) then PInf
                       else Fin (of_int n * 2 powi (e - 52)))"
    unfolding L_def by (rule toDouble_pos_parts)
  have ylt: "y < 2 powi 1024"
  proof (cases "k = 971")
    case True
    with k have "of_int m < (2 :: rat) ^ 53"
      using of_int_less_iff [of m "2 ^ 53", where ?'a = rat] by simp
    then have "of_int m * 2 powi k < (2 :: rat) powi 53 * 2 powi k"
      by (intro mult_strict_right_mono) simp_all
    also have "\<dots> = 2 powi 1024"
      using True power_int_add [of "2 :: rat" 53 971] by simp
    finally show ?thesis
      using y by simp
  next
    case False
    with k have k2: "k + 53 \<le> 1023"
      by simp
    have "of_int m \<le> (2 :: rat) ^ 53"
      using m of_int_le_iff [of m "2 ^ 53", where ?'a = rat] by simp
    then have "of_int m * 2 powi k \<le> (2 :: rat) powi 53 * 2 powi k"
      by (intro mult_right_mono) simp_all
    also have "\<dots> = 2 powi (k + 53)"
      using power_int_add [of "2 :: rat" 53 k] by (simp add: add.commute)
    also have "\<dots> < 2 powi 1024"
      by (rule powi_strict_mono) (use k2 in simp_all)
    finally show ?thesis
      using y by simp
  qed
  from lo ylt have "(2 :: rat) powi L < 2 powi 1024"
    by (rule le_less_trans)
  then have L: "L < 1024"
    by (rule powi_less_cancel)
  then have e1: "e \<le> 1023"
    using e by simp
  have int: "\<exists>j. y / 2 powi (e - 52) = of_int j"
  proof (cases "e - 52 \<le> k")
    case True
    have "y / 2 powi (e - 52) = of_int m * (2 powi k / 2 powi (e - 52))"
      using y by simp
    also have "2 powi k / 2 powi (e - 52) = (2 :: rat) powi (k - (e - 52))"
      using power_int_diff [of "2 :: rat" k "e - 52"] by simp
    also have "\<dots> = of_int (2 ^ nat (k - (e - 52)))"
      using True by (intro powi_nat) simp
    finally have "y / 2 powi (e - 52) = of_int (m * 2 ^ nat (k - (e - 52)))"
      by simp
    then show ?thesis
      by blast
  next
    case False
    with k e have eL: "e = L" and kL: "k + 53 \<le> L"
      by (auto simp: max_def split: if_splits)
    have "(2 :: rat) powi (k + 53) \<le> 2 powi L"
      by (rule powi_mono) (use kL in simp_all)
    also note lo
    finally have "(2 :: rat) powi 53 * 2 powi k \<le> of_int m * 2 powi k"
      using y power_int_add [of "2 :: rat" 53 k] by (simp add: add.commute)
    then have "(2 :: rat) powi 53 \<le> of_int m"
      by (simp add: mult_le_cancel_right)
    then have "(2 :: int) ^ 53 \<le> m"
      using of_int_le_iff [of "2 ^ 53" m, where ?'a = rat] by simp
    with m have m53: "m = 2 ^ 53"
      by simp
    then have y2: "y = 2 powi (k + 53)"
      using y power_int_add [of "2 :: rat" 53 k] by (simp add: add.commute)
    with lo have "L \<le> k + 53"
      using powi_le_cancel [of L "k + 53"] by simp
    with kL have "L = k + 53"
      by simp
    with eL y2 have "y / 2 powi (e - 52) = 2 powi (k + 53) / 2 powi (k + 1)"
      by (simp add: add.commute)
    also have "\<dots> = (2 :: rat) powi ((k + 53) - (k + 1))"
      using power_int_diff [of "2 :: rat" "k + 53" "k + 1"] by simp
    also have "\<dots> = of_int (2 ^ 52)"
      by simp
    finally show ?thesis
      by blast
  qed
  then obtain j where j: "y / 2 powi (e - 52) = of_int j"
    by blast
  then have nj: "n = j"
    using n by simp
  have yj: "y = of_int j * 2 powi (e - 52)"
    using j by (simp add: field_simps)
  have "\<not> (e = 1023 \<and> 2 ^ 53 \<le> n)"
  proof
    assume a: "e = 1023 \<and> 2 ^ 53 \<le> n"
    then have "(2 :: rat) ^ 53 \<le> of_int j"
      using nj of_int_le_iff [of "2 ^ 53" j, where ?'a = rat] by simp
    then have "(2 :: rat) powi 53 * 2 powi 971 \<le> of_int j * 2 powi 971"
      by (intro mult_right_mono) simp_all
    moreover have "(2 :: rat) powi 53 * 2 powi 971 = 2 powi 1024"
      using power_int_add [of "2 :: rat" 53 971] by simp
    ultimately have "2 powi 1024 \<le> y"
      using yj a by simp
    with ylt show False
      by simp
  qed
  with e1 t have "toDouble y = Fin (of_int n * 2 powi (e - 52))"
    by (simp only: if_False not_less [symmetric] simp_thms split: if_splits) 
  with nj yj show ?thesis
    by simp
qed



lemma toDouble_zero [simp]: "toDouble 0 = Fin 0"
  by (simp add: toDouble_def)

text \<open>
  The rounding of a positive number is plus infinity or a double that is not negative;
  a double is a number that rounds to itself.
\<close>

lemma toDouble_pos_cases:
  assumes "0 < x"
  shows "toDouble x = PInf \<or> (\<exists>y. toDouble x = Fin y \<and> 0 \<le> y \<and> toDouble y = Fin y)"
proof -
  from assms obtain e n where e: "e = max (ilog 2 x) (- 1022)"
    and n: "0 \<le> n" "n \<le> 2 ^ 53"
    and t: "toDouble x = (if 1023 < e \<or> (e = 1023 \<and> 2 ^ 53 \<le> n) then PInf
                       else Fin (of_int n * 2 powi (e - 52)))"
    by (rule toDouble_pos_parts)
  show ?thesis
  proof (cases "1023 < e \<or> (e = 1023 \<and> 2 ^ 53 \<le> n)")
    case True
    with t show ?thesis
      by simp
  next
    case False
    define y :: rat where "y = of_int n * 2 powi (e - 52)"
    from False t have f: "toDouble x = Fin y"
      by (simp add: y_def)
    have y0: "0 \<le> y"
      using n by (simp add: y_def)
    have "toDouble y = Fin y"
    proof (cases "n = 0")
      case True
      then show ?thesis
        by (simp add: y_def)
    next
      case nz: False
      show ?thesis
        using n nz False e by (intro toDouble_exact_pos [of y n "e - 52"]) (auto simp: y_def)
    qed
    with f y0 show ?thesis
      by blast
  qed
qed

lemma toDouble_cases:
  "toDouble x = PInf \<and> 0 < x \<or> toDouble x = NInf \<and> x < 0
   \<or> (\<exists>y. toDouble x = Fin y \<and> toDouble y = Fin y \<and> (0 < y \<longrightarrow> 0 < x) \<and> (y < 0 \<longrightarrow> x < 0))"
proof -
  consider "x = 0" | "0 < x" | "x < 0"
    by linarith
  then show ?thesis
  proof cases
    case 1
    then show ?thesis
      by simp
  next
    case 2
    with toDouble_pos_cases [OF 2] show ?thesis
      by auto
  next
    case 3
    then have p: "0 < - x"
      by simp
    from toDouble_pos_cases [OF p] show ?thesis
    proof
      assume "toDouble (- x) = PInf"
      then have "toDouble x = NInf"
        using toDouble_minus [of x] by (simp split: jsnum.splits)
      with 3 show ?thesis
        by simp
    next
      assume "\<exists>y. toDouble (- x) = Fin y \<and> 0 \<le> y \<and> toDouble y = Fin y"
      then obtain y where y: "toDouble (- x) = Fin y" "0 \<le> y" "toDouble y = Fin y"
        by blast
      have a: "toDouble x = Fin (- y)"
        using y(1) toDouble_minus [of x] by (simp split: jsnum.splits)
      have b: "toDouble (- y) = Fin (- y)"
        using y(3) toDouble_minus [of y] by simp
      from a b y(2) 3 show ?thesis
        by auto
    qed
  qed
qed

lemma toDouble_idem: "toDouble x = Fin y \<Longrightarrow> toDouble y = Fin y"
  using toDouble_cases [of x] by auto

text \<open>The integers up to 2 to the power 53 are doubles.\<close>

lemma toDouble_of_int:
  assumes "\<bar>n\<bar> \<le> 2 ^ 53"
  shows "toDouble (of_int n) = Fin (of_int n)"
proof -
  have pos: "toDouble (of_int m) = Fin (of_int m)" if "0 < m" "m \<le> 2 ^ 53" for m
    using that by (intro toDouble_exact_pos [of "of_int m" m 0]) simp_all
  consider "n = 0" | "0 < n" | "n < 0"
    by linarith
  then show ?thesis
  proof cases
    case 1
    then show ?thesis
      by simp
  next
    case 2
    with assms show ?thesis
      by (intro pos) simp_all
  next
    case 3
    with assms have "toDouble (of_int (- n)) = Fin (of_int (- n))"
      by (intro pos) simp_all
    then show ?thesis
      using toDouble_minus [of "of_int n"] by (simp split: jsnum.splits)
  qed
qed

lemma toDouble_of_nat: "n \<le> 2 ^ 53 \<Longrightarrow> toDouble (of_nat n) = Fin (of_nat n)"
  using toDouble_of_int [of "int n"] by simp

text \<open>The rounding of a number does not fall below a normal power of two below it.\<close>

lemma toDouble_ge_pow:
  assumes "2 powi k \<le> x" and "- 1022 \<le> k"
  shows "toDouble x = PInf \<or> (\<exists>y. toDouble x = Fin y \<and> 2 powi k \<le> y)"
proof -
  have "(0 :: rat) < 2 powi k"
    by simp
  then have pos: "0 < x"
    using assms(1) by (rule less_le_trans)
  define L where "L = ilog 2 x"
  have lo: "2 powi L \<le> x" and hi: "x < 2 powi (L + 1)"
    using ilog_bounds [OF pos, of 2] by (simp_all add: L_def)
  from assms(1) hi have "(2 :: rat) powi k < 2 powi (L + 1)"
    by (rule le_less_trans)
  then have "k < L + 1"
    by (rule powi_less_cancel)
  then have kL: "k \<le> L"
    by simp
  from pos obtain e n where e: "e = max L (- 1022)"
    and n: "n = roundHalfEven (x / 2 powi (e - 52))"
    and t: "toDouble x = (if 1023 < e \<or> (e = 1023 \<and> 2 ^ 53 \<le> n) then PInf
                       else Fin (of_int n * 2 powi (e - 52)))"
    unfolding L_def by (rule toDouble_pos_parts)
  have eL: "e = L"
    using e kL assms(2) by simp
  have "(2 :: rat) powi 52 * 2 powi (L - 52) = 2 powi L"
    using power_int_add [of "2 :: rat" 52 "L - 52"] by simp
  with lo have "of_int (2 ^ 52) \<le> x / 2 powi (L - 52)"
    by (simp add: pos_le_divide_eq)
  then have n52: "2 ^ 52 \<le> n"
    unfolding n eL by (rule roundHalfEven_ge)
  show ?thesis
  proof (cases "1023 < e \<or> (e = 1023 \<and> 2 ^ 53 \<le> n)")
    case True
    with t show ?thesis
      by simp
  next
    case False
    with t have f: "toDouble x = Fin (of_int n * 2 powi (L - 52))"
      by (simp add: eL)
    have "(2 :: rat) powi k \<le> 2 powi L"
      by (rule powi_mono) (use kL in simp_all)
    also have "\<dots> = 2 powi 52 * 2 powi (L - 52)"
      using power_int_add [of "2 :: rat" 52 "L - 52"] by simp
    also have "\<dots> \<le> of_int n * 2 powi (L - 52)"
    proof (rule mult_right_mono)
      have "(of_int (2 ^ 52) :: rat) \<le> of_int n"
        using n52 by (simp only: of_int_le_iff)
      then show "(2 :: rat) powi 52 \<le> of_int n"
        by simp
    qed simp
    finally show ?thesis
      using f by blast
  qed
qed

section \<open>Properties of the handler\<close>

lemma handleAnalyze_success:
  assumes "\<not> nothingEntered st" and "analysisCall gen st w = (Inr data, w')"
  shows "handleAnalyze gen uuid now (st, w) =
           (st\<lparr>isAnalyzing := False, errorMessage := None, currentResult := Some data,
               trendInsights := calculateTrends (vitalsInput st) (history st),
               history := updatedHistory (newHistoryItem st uuid now data) (history st),
               savedHistory := Some (updatedHistory (newHistoryItem st uuid now data) (history st))\<rparr>,
            w')"
  using assms by (simp add: handleAnalyze_def Let_def)

lemma handleAnalyze_failure:
  assumes "\<not> nothingEntered st" and "analysisCall gen st w = (Inl (Error msg), w')"
  shows "handleAnalyze gen uuid now (st, w) =
           (st\<lparr>isAnalyzing := False,
               errorMessage := Some (if truthy msg then msg else ''Something went wrong.''),
               currentResult := None,
               trendInsights := calculateTrends (vitalsInput st) (history st)\<rparr>,
            w')"
  using assms by (simp add: handleAnalyze_def Let_def)

lemma updatedHistory_Cons: "updatedHistory item hist = item # take 9 hist"
  by (simp add: updatedHistory_def take_Cons')

lemma take9_butlast: "length hist = 10 \<Longrightarrow> take 9 hist = butlast hist"
  by (simp add: butlast_conv_take)

text \<open>
  C8. After an append by a successful submission the history is the new item followed
  by the first nine items of the history before, so it has at most ten items, in the
  order they had, and it is what the local storage holds. When the history before had
  ten items, the new one has exactly ten: the new item first, then the history before
  without its last, oldest item. When the history before was ordered by time, newest
  first, and the new item is no older than its items, the new history is so ordered.
\<close>

theorem history_append_bounded:
  assumes "\<not> nothingEntered st" and "analysisCall gen st w = (Inr data, w')"
  shows "(let st' = fst (handleAnalyze gen uuid now (st, w));
              item = newHistoryItem st uuid now data
          in history st' = item # take 9 (history st)
             \<and> length (history st') \<le> 10
             \<and> savedHistory st' = Some (history st')
             \<and> (length (history st) = 10 \<longrightarrow>
                   length (history st') = 10 \<and> history st' = item # butlast (history st)
                   \<and> (distinct (item # history st) \<longrightarrow> last (history st) \<notin> set (history st')))
             \<and> (sorted (rev (map timestamp (history st)))
                  \<and> (\<forall>h \<in> set (history st). timestamp h \<le> now)
                  \<longrightarrow> sorted (rev (map timestamp (history st')))))"
proof -
  let ?item = "newHistoryItem st uuid now data"
  let ?st' = "fst (handleAnalyze gen uuid now (st, w))"
  have h: "history ?st' = ?item # take 9 (history st)"
    using handleAnalyze_success [OF assms] by (simp add: updatedHistory_Cons)
  have s: "savedHistory ?st' = Some (history ?st')"
    using handleAnalyze_success [OF assms] by simp
  have len: "length (history ?st') \<le> 10"
    using h by simp
  have ten: "length (history st) = 10 \<Longrightarrow>
               length (history ?st') = 10 \<and> history ?st' = ?item # butlast (history st)"
    using h by (simp add: take9_butlast)
  have gone: "last (history st) \<notin> set (history ?st')"
    if a: "length (history st) = 10" and d: "distinct (?item # history st)"
  proof -
    have ne: "history st \<noteq> []"
      using a by auto
    then have "history st = butlast (history st) @ [last (history st)]"
      by simp
    with d have "distinct (?item # butlast (history st) @ [last (history st)])"
      by simp
    then have "last (history st) \<notin> set (?item # butlast (history st))"
      by auto
    with ten [OF a] show ?thesis
      by simp
  qed
  have ts: "timestamp ?item = now"
    by (simp add: newHistoryItem_def)
  have ord: "sorted (rev (map timestamp (history ?st')))"
    if a: "sorted (rev (map timestamp (history st)))"
      and b: "\<forall>h \<in> set (history st). timestamp h \<le> now"
  proof -
    have "sorted (rev (map timestamp (take 9 (history st))))"
      using a by (metis sorted_wrt_take sorted_wrt_rev sorted_wrt_map take_map)
    moreover have "\<forall>x \<in> set (map timestamp (take 9 (history st))). x \<le> now"
      using b by (auto dest: in_set_takeD)
    ultimately show ?thesis
      using h ts by (simp add: sorted_append)
  qed
  show ?thesis
    unfolding Let_def using h s len ten gone ord by blast
qed

theorem history_append_bounded_witness:
  "length (history (fst (handleAnalyze scripted ''11'' 11
      (sampleState ''cough'' (hrOnly ''85'') tenItems, freshWorld mediumAnswer)))) = 10
   \<and> map HistoryItem.id (history (fst (handleAnalyze scripted ''11'' 11
      (sampleState ''cough'' (hrOnly ''85'') tenItems, freshWorld mediumAnswer))))
     = [''11'', ''10'', ''9'', ''8'', ''7'', ''6'', ''5'', ''4'', ''3'', ''2'']"
proof -
  let ?st = "sampleState ''cough'' (hrOnly ''85'') tenItems"
  let ?w = "freshWorld mediumAnswer"
  have g: "\<not> nothingEntered ?st"
    by code_simp
  have "fst (analysisCall scripted ?st ?w) = Inr sampleResult"
    by code_simp
  then have a: "analysisCall scripted ?st ?w = (Inr sampleResult, snd (analysisCall scripted ?st ?w))"
    by (metis prod.collapse)
  have l: "length (history ?st) = 10"
    by code_simp
  have m: "map HistoryItem.id (newHistoryItem ?st ''11'' 11 sampleResult # butlast (history ?st))
           = [''11'', ''10'', ''9'', ''8'', ''7'', ''6'', ''5'', ''4'', ''3'', ''2'']"
    by code_simp
  note t = history_append_bounded [OF g a, of "''11''" 11, unfolded Let_def]
  from t l have e: "history (fst (handleAnalyze scripted ''11'' 11 (?st, ?w)))
                    = newHistoryItem ?st ''11'' 11 sampleResult # butlast (history ?st)"
    by blast
  from t l have n: "length (history (fst (handleAnalyze scripted ''11'' 11 (?st, ?w)))) = 10"
    by blast
  from e m n show ?thesis
    by metis
qed

lemma handleAnalyze_trends:
  assumes "\<not> nothingEntered st"
  shows "trendInsights (fst (handleAnalyze gen uuid now (st, w)))
         = calculateTrends (vitalsInput st) (history st)"
proof (cases "analysisCall gen st w")
  case (Pair r w')
  show ?thesis
  proof (cases r)
    case (Inl e)
    then obtain msg where "r = Inl (Error msg)"
      by (cases e) simp
    with Pair have "analysisCall gen st w = (Inl (Error msg), w')"
      by simp
    from handleAnalyze_failure [OF assms this] show ?thesis
      by simp
  next
    case (Inr data)
    with Pair have "analysisCall gen st w = (Inr data, w')"
      by simp
    from handleAnalyze_success [OF assms this] show ?thesis
      by simp
  qed
qed

lemma calculateTrends_recent:
  "calculateTrends cv hist = calculateTrends cv (take 5 (filter hasVitals hist))"
proof -
  have "\<forall>h \<in> set (take 5 (filter hasVitals hist)). hasVitals h"
    by (auto dest: in_set_takeD)
  then have "filter hasVitals (take 5 (filter hasVitals hist)) = take 5 (filter hasVitals hist)"
    by (simp only: filter_id_conv)
  then have "take 5 (filter hasVitals (take 5 (filter hasVitals hist))) = take 5 (filter hasVitals hist)"
    by simp
  then show ?thesis
    by (simp only: calculateTrends_def Let_def)
qed

lemma hasVitals_newHistoryItem: "hasVitals (newHistoryItem st uuid now data)"
  by (simp add: hasVitals_def newHistoryItem_def)

text \<open>
  C9. On every submission that passes the guard, whether the analysis then succeeds
  or fails, the trend insights shown are those of the vitals entered and the history
  before the submission. On success the new history is the new item put before that
  history and cut to ten, and the new item, whose identifier is fresh, is not among
  the items the trends were computed from.
\<close>

theorem trends_from_prior_history:
  assumes "\<not> nothingEntered st"
  shows "trendInsights (fst (handleAnalyze gen uuid now (st, w)))
           = calculateTrends (vitalsInput st) (history st)
         \<and> (\<forall>data w'. analysisCall gen st w = (Inr data, w') \<longrightarrow>
               history (fst (handleAnalyze gen uuid now (st, w)))
                 = take 10 (newHistoryItem st uuid now data # history st)
               \<and> (uuid \<notin> HistoryItem.id ` set (history st) \<longrightarrow>
                    newHistoryItem st uuid now data \<notin> set (history st)))"
proof (intro conjI allI impI)
  show "trendInsights (fst (handleAnalyze gen uuid now (st, w)))
          = calculateTrends (vitalsInput st) (history st)"
    by (rule handleAnalyze_trends [OF assms])
next
  fix data w'
  assume "analysisCall gen st w = (Inr data, w')"
  from handleAnalyze_success [OF assms this]
  show "history (fst (handleAnalyze gen uuid now (st, w)))
          = take 10 (newHistoryItem st uuid now data # history st)"
    by (simp add: updatedHistory_def)
next
  fix data
  assume fresh: "uuid \<notin> HistoryItem.id ` set (history st)"
  show "newHistoryItem st uuid now data \<notin> set (history st)"
  proof
    assume "newHistoryItem st uuid now data \<in> set (history st)"
    then have "HistoryItem.id (newHistoryItem st uuid now data) \<in> HistoryItem.id ` set (history st)"
      by (rule imageI)
    with fresh show False
      by (simp add: newHistoryItem_def)
  qed
qed

theorem trends_from_prior_history_witness:
  "trendInsights (fst (handleAnalyze scripted ''2'' 2
      (sampleState ''cough'' (hrOnly ''85'') [sampleItem 1 ''70''], freshWorld mediumAnswer)))
     = [\<lparr>metric = ''Heart Rate'', change = ''21%'', direction = up,
         message = ''Significant increase compared to your recent average. Monitor for fatigue.''\<rparr>]
   \<and> map HistoryItem.id (history (fst (handleAnalyze scripted ''2'' 2
      (sampleState ''cough'' (hrOnly ''85'') [sampleItem 1 ''70''], freshWorld mediumAnswer))))
     = [''2'', ''1'']
   \<and> newHistoryItem (sampleState ''cough'' (hrOnly ''85'') [sampleItem 1 ''70'']) ''2'' 2 sampleResult
       \<notin> set [sampleItem 1 ''70'']
   \<and> calculateTrends (hrOnly ''85'')
        (newHistoryItem (sampleState ''cough'' (hrOnly ''85'') [sampleItem 1 ''70'']) ''2'' 2 sampleResult
         # [sampleItem 1 ''70'']) = []"
proof -
  let ?st = "sampleState ''cough'' (hrOnly ''85'') [sampleItem 1 ''70'']"
  let ?w = "freshWorld mediumAnswer"
  let ?item = "newHistoryItem ?st ''2'' 2 sampleResult"
  have g: "\<not> nothingEntered ?st"
    by code_simp
  have "fst (analysisCall scripted ?st ?w) = Inr sampleResult"
    by code_simp
  then have a: "analysisCall scripted ?st ?w = (Inr sampleResult, snd (analysisCall scripted ?st ?w))"
    by (metis prod.collapse)
  have f: "''2'' \<notin> HistoryItem.id ` set (history ?st)"
    by code_simp
  have v: "vitalsInput ?st = hrOnly ''85''" and h: "history ?st = [sampleItem 1 ''70'']"
    by (simp_all add: sampleState_def)
  have c: "calculateTrends (hrOnly ''85'') [sampleItem 1 ''70'']
           = [\<lparr>metric = ''Heart Rate'', change = ''21%'', direction = up,
               message = ''Significant increase compared to your recent average. Monitor for fatigue.''\<rparr>]"
    by code_simp
  have m: "map HistoryItem.id (take 10 (?item # [sampleItem 1 ''70''])) = [''2'', ''1'']"
    by code_simp
  have d: "calculateTrends (hrOnly ''85'') (?item # [sampleItem 1 ''70'']) = []"
    by code_simp
  note t = trends_from_prior_history [OF g, of scripted "''2''" 2 ?w]
  note t1 = t [THEN conjunct1]
  note t2 = t [THEN conjunct2, rule_format, OF a]
  have 1: "trendInsights (fst (handleAnalyze scripted ''2'' 2 (?st, ?w)))
     = [\<lparr>metric = ''Heart Rate'', change = ''21%'', direction = up,
         message = ''Significant increase compared to your recent average. Monitor for fatigue.''\<rparr>]"
    using t1 by (simp only: v h c)
  have 2: "history (fst (handleAnalyze scripted ''2'' 2 (?st, ?w)))
                        = take 10 (?item # [sampleItem 1 ''70''])"
    using t2 [THEN conjunct1] by (simp only: h)
  have 3: "?item \<notin> set [sampleItem 1 ''70'']"
    using t2 [THEN conjunct2, rule_format, OF f] unfolding h .
  from 2 m have 4: "map HistoryItem.id (history (fst (handleAnalyze scripted ''2'' 2 (?st, ?w))))
                    = [''2'', ''1'']"
    by (simp only:)
  show ?thesis
    by (intro conjI) (rule 1 4 3 d)+
qed

text \<open>
  C10. The item a successful submission creates carries the vitals entered, as an
  object, also when every field of them is empty, so the filter of the trend
  analysis keeps it. When every item of the history before carries vitals, so does
  every item of the history after: the filter then removes nothing, and the trends
  are computed from the first five items of the history.
\<close>

theorem created_items_carry_vitals:
  assumes "\<not> nothingEntered st" and "analysisCall gen st w = (Inr data, w')"
  shows "(let st' = fst (handleAnalyze gen uuid now (st, w));
              item = newHistoryItem st uuid now data
          in hd (history st') = item
             \<and> vitals item = Some (vitalsInput st)
             \<and> hasVitals item
             \<and> ((\<forall>h \<in> set (history st). hasVitals h) \<longrightarrow>
                   (\<forall>h \<in> set (history st'). hasVitals h)
                   \<and> filter hasVitals (history st') = history st'
                   \<and> (\<forall>cv. calculateTrends cv (history st')
                              = calculateTrends cv (take 5 (history st')))))"
proof -
  let ?item = "newHistoryItem st uuid now data"
  let ?st' = "fst (handleAnalyze gen uuid now (st, w))"
  have h: "history ?st' = ?item # take 9 (history st)"
    using handleAnalyze_success [OF assms] by (simp add: updatedHistory_Cons)
  have v: "vitals ?item = Some (vitalsInput st)"
    by (simp add: newHistoryItem_def)
  have inv: "\<forall>h \<in> set (history ?st'). hasVitals h"
    if "\<forall>h \<in> set (history st). hasVitals h"
    using that h hasVitals_newHistoryItem by (auto dest: in_set_takeD)
  have fil: "filter hasVitals (history ?st') = history ?st'"
    if "\<forall>h \<in> set (history st). hasVitals h"
    using inv [OF that] by (simp add: filter_id_conv)
  have tr: "calculateTrends cv (history ?st') = calculateTrends cv (take 5 (history ?st'))"
    if "\<forall>h \<in> set (history st). hasVitals h" for cv
    using calculateTrends_recent [of cv "history ?st'"] fil [OF that] by simp
  show ?thesis
    unfolding Let_def using h v hasVitals_newHistoryItem inv fil tr by simp
qed

theorem created_items_carry_vitals_witness:
  "vitals (hd (history (fst (handleAnalyze scripted ''2'' 2
      (sampleState ''cough'' noVitals [sampleItem 1 ''70''], freshWorld mediumAnswer)))))
     = Some \<lparr>temp = [], hr = [], bpSys = [], bpDia = [], spo2 = []\<rparr>
   \<and> filter hasVitals (history (fst (handleAnalyze scripted ''2'' 2
        (sampleState ''cough'' noVitals [sampleItem 1 ''70''], freshWorld mediumAnswer))))
      = history (fst (handleAnalyze scripted ''2'' 2
        (sampleState ''cough'' noVitals [sampleItem 1 ''70''], freshWorld mediumAnswer)))"
proof -
  let ?st = "sampleState ''cough'' noVitals [sampleItem 1 ''70'']"
  let ?w = "freshWorld mediumAnswer"
  have g: "\<not> nothingEntered ?st"
    by code_simp
  have "fst (analysisCall scripted ?st ?w) = Inr sampleResult"
    by code_simp
  then have a: "analysisCall scripted ?st ?w = (Inr sampleResult, snd (analysisCall scripted ?st ?w))"
    by (metis prod.collapse)
  have p: "\<forall>h \<in> set (history ?st). hasVitals h"
    by code_simp
  have v: "Some (vitalsInput ?st) = Some \<lparr>temp = [], hr = [], bpSys = [], bpDia = [], spo2 = []\<rparr>"
    by code_simp
  note t = created_items_carry_vitals [OF g a, of "''2''" 2, unfolded Let_def]
  have 1: "vitals (hd (history (fst (handleAnalyze scripted ''2'' 2 (?st, ?w)))))
                    = Some \<lparr>temp = [], hr = [], bpSys = [], bpDia = [], spo2 = []\<rparr>"
    using t [THEN conjunct1] t [THEN conjunct2, THEN conjunct1] by (simp only: v)
  have 2: "filter hasVitals (history (fst (handleAnalyze scripted ''2'' 2 (?st, ?w))))
                    = history (fst (handleAnalyze scripted ''2'' 2 (?st, ?w)))"
    using t [THEN conjunct2, THEN conjunct2, THEN conjunct2, THEN mp, OF p]
    by (rule conjunct1 [OF conjunct2])
  show ?thesis
    by (rule conjI [OF 1 2])
qed

section \<open>Properties of the local analysis\<close>

lemma heartRateCheck_append: "heartRateCheck v alerts = alerts @ heartRateCheck v []"
  by (simp add: heartRateCheck_def Let_def)

lemma bloodPressureCheck_append: "bloodPressureCheck v alerts = alerts @ bloodPressureCheck v []"
  by (simp add: bloodPressureCheck_def Let_def)

lemma spo2Check_append: "spo2Check v alerts = alerts @ spo2Check v []"
  by (simp add: spo2Check_def Let_def)

lemma localAnalysisOf_append:
  "localAnalysisOf v
   = feverCheck v [] @ heartRateCheck v [] @ bloodPressureCheck v [] @ spo2Check v []"
proof -
  have "localAnalysisOf v
        = bloodPressureCheck v (heartRateCheck v (feverCheck v [])) @ spo2Check v []"
    unfolding localAnalysisOf_def by (rule spo2Check_append)
  also have "bloodPressureCheck v (heartRateCheck v (feverCheck v []))
             = heartRateCheck v (feverCheck v []) @ bloodPressureCheck v []"
    by (rule bloodPressureCheck_append)
  also have "heartRateCheck v (feverCheck v []) = feverCheck v [] @ heartRateCheck v []"
    by (rule heartRateCheck_append)
  finally show ?thesis
    by simp
qed

lemma jgt_trans_Fin: "a \<ge> b \<Longrightarrow> jgt t (Fin a) \<Longrightarrow> jgt t (Fin b)"
  by (cases t) auto

lemma jlt_not_jgt_Fin: "a \<le> b \<Longrightarrow> jlt t (Fin a) \<Longrightarrow> \<not> jgt t (Fin b)"
  by (cases t) (auto simp: jlt_def)

text \<open>The double that the literal \<^verbatim>\<open>100.4\<close> denotes; it lies between 95 and 103.\<close>

lemma literal_100_4: "toDouble (1004 / 10) = Fin (3532510957718733 / 35184372088832)"
  by code_simp

lemma parseFloat_double: "parseFloat s = Fin r \<Longrightarrow> toDouble r = Fin r"
  by (auto simp: parseFloat_def Let_def split: if_splits dest: toDouble_idem)

lemma no_double_above_100_4:
  assumes "toDouble r = Fin r" and "1004 / 10 < r" and "r < 3532510957718733 / 35184372088832"
  shows False
proof -
  have pos: "0 < r"
    using assms(2) by simp
  have il: "ilog 2 r = 6"
    by (rule ilog_unique) (use assms(2,3) in simp_all)
  from pos obtain e n where e: "e = max (ilog 2 r) (- 1022)"
    and t: "toDouble r = (if 1023 < e \<or> (e = 1023 \<and> 2 ^ 53 \<le> n) then PInf
                       else Fin (of_int n * 2 powi (e - 52)))"
    by (rule toDouble_pos_parts)
  have e6: "e = 6"
    using e il by simp
  have "Fin r = Fin (of_int n * 2 powi (- 46))"
    using t assms(1) unfolding e6 by simp
  then have r: "r = of_int n / 70368744177664"
    by (simp add: power_int_minus field_simps)
  have "of_int 7065021915437465 < (of_int n :: rat)"
    using assms(2) unfolding r by simp
  then have lo: "7065021915437465 < n"
    by (simp only: of_int_less_iff)
  have "(of_int n :: rat) < of_int 7065021915437466"
    using assms(3) unfolding r by simp
  then have hi: "n < 7065021915437466"
    by (simp only: of_int_less_iff)
  from lo hi show False
    by simp
qed

text \<open>
  A double other than the one of the literal \<^verbatim>\<open>100.4\<close> is above that double iff it
  is above the decimal 100.4.
\<close>

lemma above_literal_100_4:
  assumes "toDouble r = Fin r" and "Fin r \<noteq> toDouble (1004 / 10)"
  shows "jgt (Fin r) (toDouble (1004 / 10)) \<longleftrightarrow> 1004 / 10 < r"
proof -
  have ne: "r \<noteq> 3532510957718733 / 35184372088832"
    using assms(2) unfolding literal_100_4 by simp
  show ?thesis
  proof
    assume "jgt (Fin r) (toDouble (1004 / 10))"
    then have "3532510957718733 / 35184372088832 < r"
      unfolding literal_100_4 by simp
    then show "1004 / 10 < r"
      by simp
  next
    assume a: "1004 / 10 < r"
    have "\<not> r < 3532510957718733 / 35184372088832"
      using no_double_above_100_4 [OF assms(1) a] by blast
    with ne have "3532510957718733 / 35184372088832 < r"
      by simp
    then show "jgt (Fin r) (toDouble (1004 / 10))"
      unfolding literal_100_4 by simp
  qed
qed

lemma feverCheck_cases:
  assumes "truthy (temp v)"
  obtains a where "feverCheck v [] = [a]"
    and "severity a = critical \<longleftrightarrow> jgt (parseFloat (temp v)) (Fin 103) \<or> jlt (parseFloat (temp v)) (Fin 95)"
    and "severity a = warning \<longleftrightarrow> jgt (parseFloat (temp v)) (toDouble (1004 / 10)) \<and> \<not> jgt (parseFloat (temp v)) (Fin 103)"
    and "severity a = normal \<longleftrightarrow> \<not> jgt (parseFloat (temp v)) (toDouble (1004 / 10)) \<and> \<not> jlt (parseFloat (temp v)) (Fin 95)"
    and "condition a \<in> {''High Fever'', ''Fever'', ''Hypothermia Risk'', ''Temperature''}"
proof -
  let ?t = "parseFloat (temp v)"
  let ?d = "toDouble (1004 / 10)"
  have up: "jgt ?t (Fin 103) \<Longrightarrow> jgt ?t ?d"
    unfolding literal_100_4
    by (rule jgt_trans_Fin [of "3532510957718733 / 35184372088832" 103]) simp_all
  have lo1: "jlt ?t (Fin 95) \<Longrightarrow> \<not> jgt ?t (Fin 103)"
    by (rule jlt_not_jgt_Fin [of 95 103]) simp_all
  have lo2: "jlt ?t (Fin 95) \<Longrightarrow> \<not> jgt ?t ?d"
    unfolding literal_100_4
    by (rule jlt_not_jgt_Fin [of 95 "3532510957718733 / 35184372088832"]) simp_all
  consider (hi) "jgt ?t (Fin 103)"
    | (mid) "\<not> jgt ?t (Fin 103)" "jgt ?t ?d"
    | (low) "\<not> jgt ?t (Fin 103)" "\<not> jgt ?t ?d" "jlt ?t (Fin 95)"
    | (ok) "\<not> jgt ?t (Fin 103)" "\<not> jgt ?t ?d" "\<not> jlt ?t (Fin 95)"
    by blast
  then show thesis
  proof cases
    case hi
    with assms up show thesis
      by (intro that [of "\<lparr>condition = ''High Fever'', severity = critical,
            LocalAnalysis.message = ''Medical attention recommended immediately.''\<rparr>"])
         (simp_all add: feverCheck_def Let_def)
  next
    case mid
    with assms lo2 show thesis
      by (intro that [of "\<lparr>condition = ''Fever'', severity = warning,
            LocalAnalysis.message = ''Monitor temperature closely.''\<rparr>"])
         (auto simp add: feverCheck_def Let_def)
  next
    case low
    with assms show thesis
      by (intro that [of "\<lparr>condition = ''Hypothermia Risk'', severity = critical,
            LocalAnalysis.message = ''Body temperature is dangerously low.''\<rparr>"])
         (simp_all add: feverCheck_def Let_def)
  next
    case ok
    with assms show thesis
      by (intro that [of "\<lparr>condition = ''Temperature'', severity = normal,
            LocalAnalysis.message = ''Within normal range.''\<rparr>"])
         (simp_all add: feverCheck_def Let_def)
  qed
qed

lemma feverCheck_empty: "\<not> truthy (temp v) \<Longrightarrow> feverCheck v [] = []"
  by (simp add: feverCheck_def)

lemma without_temp:
  "localAnalysisOf (v\<lparr>temp := []\<rparr>)
   = heartRateCheck v [] @ bloodPressureCheck v [] @ spo2Check v []"
  by (simp add: localAnalysisOf_append)
     (simp add: feverCheck_def heartRateCheck_def bloodPressureCheck_def spo2Check_def truthy_def)

lemma without_hr:
  "localAnalysisOf (v\<lparr>hr := []\<rparr>)
   = feverCheck v [] @ bloodPressureCheck v [] @ spo2Check v []"
  by (simp add: localAnalysisOf_append)
     (simp add: feverCheck_def heartRateCheck_def bloodPressureCheck_def spo2Check_def truthy_def)

text \<open>The one alert of the heart rate, by the number the field parses to.\<close>

lemma heartRateCheck_alert:
  assumes "truthy (hr v)"
  obtains a where "heartRateCheck v [] = [a]"
    and "condition a \<in> {''Tachycardia'', ''Elevated HR'', ''Bradycardia'', ''Heart Rate''}"
    and "\<forall>n. parseInt (hr v) = Fin n \<longrightarrow>
           severity a = (if n > 120 then critical else if n > 100 then warning
                         else if n < 50 then warning else normal)"
proof -
  let ?h = "parseInt (hr v)"
  consider (hi) "jgt ?h (Fin 120)"
    | (mid) "\<not> jgt ?h (Fin 120)" "jgt ?h (Fin 100)"
    | (low) "\<not> jgt ?h (Fin 120)" "\<not> jgt ?h (Fin 100)" "jlt ?h (Fin 50)"
    | (ok) "\<not> jgt ?h (Fin 120)" "\<not> jgt ?h (Fin 100)" "\<not> jlt ?h (Fin 50)"
    by blast
  then show thesis
  proof cases
    case hi
    with assms show thesis
      by (intro that [of "\<lparr>condition = ''Tachycardia'', severity = critical,
            LocalAnalysis.message = ''Heart rate is significantly high.''\<rparr>"])
         (auto simp add: heartRateCheck_def Let_def)
  next
    case mid
    with assms show thesis
      by (intro that [of "\<lparr>condition = ''Elevated HR'', severity = warning,
            LocalAnalysis.message = ''Heart rate is above normal.''\<rparr>"])
         (auto simp add: heartRateCheck_def Let_def)
  next
    case low
    with assms show thesis
      by (intro that [of "\<lparr>condition = ''Bradycardia'', severity = warning,
            LocalAnalysis.message = ''Heart rate is lower than normal.''\<rparr>"])
         (auto simp add: heartRateCheck_def Let_def jlt_def)
  next
    case ok
    with assms show thesis
      by (intro that [of "\<lparr>condition = ''Heart Rate'', severity = normal,
            LocalAnalysis.message = ''Normal resting heart rate.''\<rparr>"])
         (auto simp add: heartRateCheck_def Let_def jlt_def)
  qed
qed

lemma heartRateCheck_cases:
  "(truthy (hr v) \<longrightarrow> (\<exists>a. heartRateCheck v [] = [a]
       \<and> condition a \<in> {''Tachycardia'', ''Elevated HR'', ''Bradycardia'', ''Heart Rate''}))
   \<and> (\<not> truthy (hr v) \<longrightarrow> heartRateCheck v [] = [])"
  by (simp add: heartRateCheck_def Let_def)

lemma bloodPressureCheck_cases:
  "(truthy (bpSys v) \<and> truthy (bpDia v) \<longrightarrow> (\<exists>a. bloodPressureCheck v [] = [a]
       \<and> condition a \<in> {''Hypertensive Crisis'', ''High BP'', ''Elevated BP'', ''Blood Pressure''}))
   \<and> (\<not> (truthy (bpSys v) \<and> truthy (bpDia v)) \<longrightarrow> bloodPressureCheck v [] = [])"
  by (simp add: bloodPressureCheck_def Let_def)

lemma spo2Check_cases:
  "(truthy (spo2 v) \<longrightarrow> (\<exists>a. spo2Check v [] = [a]
       \<and> condition a \<in> {''Hypoxia Risk'', ''Low Oxygen'', ''Oxygen Level''}))
   \<and> (\<not> truthy (spo2 v) \<longrightarrow> spo2Check v [] = [])"
  by (simp add: spo2Check_def Let_def)

lemma feverCheck_names:
  "b \<in> set (feverCheck v []) \<Longrightarrow>
     condition b \<in> {''High Fever'', ''Fever'', ''Hypothermia Risk'', ''Temperature''}"
  by (auto simp: feverCheck_def Let_def split: if_splits)

lemma heartRateCheck_names:
  "b \<in> set (heartRateCheck v []) \<Longrightarrow>
     condition b \<in> {''Tachycardia'', ''Elevated HR'', ''Bradycardia'', ''Heart Rate''}"
  by (auto simp: heartRateCheck_def Let_def split: if_splits)

lemma bloodPressureCheck_names:
  "b \<in> set (bloodPressureCheck v []) \<Longrightarrow>
     condition b \<in> {''Hypertensive Crisis'', ''High BP'', ''Elevated BP'', ''Blood Pressure''}"
  by (auto simp: bloodPressureCheck_def Let_def split: if_splits)

lemma spo2Check_names:
  "b \<in> set (spo2Check v []) \<Longrightarrow>
     condition b \<in> {''Hypoxia Risk'', ''Low Oxygen'', ''Oxygen Level''}"
  by (auto simp: spo2Check_def Let_def split: if_splits)

lemma no_temperature_alert_without_temp:
  assumes "b \<in> set (localAnalysisOf (v\<lparr>temp := []\<rparr>))"
  shows "condition b \<notin> {''High Fever'', ''Fever'', ''Hypothermia Risk'', ''Temperature''}"
proof -
  from assms consider "b \<in> set (heartRateCheck v [])" | "b \<in> set (bloodPressureCheck v [])"
    | "b \<in> set (spo2Check v [])"
    by (auto simp: without_temp)
  then show ?thesis
  proof cases
    case 1
    then have "condition b \<in> {''Tachycardia'', ''Elevated HR'', ''Bradycardia'', ''Heart Rate''}"
      by (rule heartRateCheck_names)
    then show ?thesis by auto
  next
    case 2
    then have "condition b \<in> {''Hypertensive Crisis'', ''High BP'', ''Elevated BP'', ''Blood Pressure''}"
      by (rule bloodPressureCheck_names)
    then show ?thesis by auto
  next
    case 3
    then have "condition b \<in> {''Hypoxia Risk'', ''Low Oxygen'', ''Oxygen Level''}"
      by (rule spo2Check_names)
    then show ?thesis by auto
  qed
qed

lemma no_heart_rate_alert_without_hr:
  assumes "b \<in> set (localAnalysisOf (v\<lparr>hr := []\<rparr>))"
  shows "condition b \<notin> {''Tachycardia'', ''Elevated HR'', ''Bradycardia'', ''Heart Rate''}"
proof -
  from assms consider "b \<in> set (feverCheck v [])" | "b \<in> set (bloodPressureCheck v [])"
    | "b \<in> set (spo2Check v [])"
    by (auto simp: without_hr)
  then show ?thesis
  proof cases
    case 1
    then have "condition b \<in> {''High Fever'', ''Fever'', ''Hypothermia Risk'', ''Temperature''}"
      by (rule feverCheck_names)
    then show ?thesis by auto
  next
    case 2
    then have "condition b \<in> {''Hypertensive Crisis'', ''High BP'', ''Elevated BP'', ''Blood Pressure''}"
      by (rule bloodPressureCheck_names)
    then show ?thesis by auto
  next
    case 3
    then have "condition b \<in> {''Hypoxia Risk'', ''Low Oxygen'', ''Oxygen Level''}"
      by (rule spo2Check_names)
    then show ?thesis by auto
  qed
qed

text \<open>
  C6. For every reading: when a temperature is entered, the first alert of the
  classifier is the one temperature alert, and the rest is what the classifier gives
  without the temperature, which holds no temperature alert. With \<open>t\<close> the number the
  temperature parses to, the alert is critical iff \<open>t > 103\<close> or \<open>t < 95\<close>, a warning
  iff \<open>t > 100.4\<close> and not \<open>t > 103\<close>, and normal otherwise (so also when the text is no
  number); here \<open>100.4\<close> is the double that the literal denotes, so the temperature
  100.4 is normal, and 103 is a warning; for every temperature other than that double,
  to be above it is to be above the decimal 100.4. When a heart rate is entered, whatever the
  other fields hold, the classifier gives one heart rate alert, after the temperature
  alert if there is one, and the other alerts are those it gives without the heart
  rate; a heart rate that parses to 120 gives a warning, to 121 a critical alert, to 50
  a normal one and to 49 a warning.
\<close>

theorem temperature_and_heart_rate_severity:
  "(truthy (temp v) \<longrightarrow>
      (\<exists>a. localAnalysisOf v = a # localAnalysisOf (v\<lparr>temp := []\<rparr>)
           \<and> condition a \<in> {''High Fever'', ''Fever'', ''Hypothermia Risk'', ''Temperature''}
           \<and> (\<forall>b \<in> set (localAnalysisOf (v\<lparr>temp := []\<rparr>)).
                 condition b \<notin> {''High Fever'', ''Fever'', ''Hypothermia Risk'', ''Temperature''})
           \<and> (severity a = critical \<longleftrightarrow>
                 jgt (parseFloat (temp v)) (Fin 103) \<or> jlt (parseFloat (temp v)) (Fin 95))
           \<and> (severity a = warning \<longleftrightarrow>
                 jgt (parseFloat (temp v)) (toDouble (1004 / 10))
                 \<and> \<not> jgt (parseFloat (temp v)) (Fin 103))
           \<and> (severity a = normal \<longleftrightarrow>
                 \<not> jgt (parseFloat (temp v)) (toDouble (1004 / 10))
                 \<and> \<not> jlt (parseFloat (temp v)) (Fin 95))
           \<and> (\<forall>r. parseFloat (temp v) = Fin r \<longrightarrow>
                 severity a = (if r > 103 \<or> r < 95 then critical
                               else if jgt (Fin r) (toDouble (1004 / 10)) \<and> r \<le> 103 then warning
                               else normal))
           \<and> (\<forall>r. parseFloat (temp v) = Fin r \<and> Fin r \<noteq> toDouble (1004 / 10) \<longrightarrow>
                 severity a = (if r > 103 \<or> r < 95 then critical
                               else if 1004 / 10 < r \<and> r \<le> 103 then warning else normal))
           \<and> (parseFloat (temp v) = toDouble (1004 / 10) \<longrightarrow> severity a = normal)
           \<and> (parseFloat (temp v) = Fin 103 \<longrightarrow> severity a = warning)))
   \<and> (truthy (hr v) \<longrightarrow>
      (\<exists>pre a post. localAnalysisOf v = pre @ a # post
           \<and> pre @ post = localAnalysisOf (v\<lparr>hr := []\<rparr>)
           \<and> condition a \<in> {''Tachycardia'', ''Elevated HR'', ''Bradycardia'', ''Heart Rate''}
           \<and> (\<forall>b \<in> set (localAnalysisOf (v\<lparr>hr := []\<rparr>)).
                 condition b \<notin> {''Tachycardia'', ''Elevated HR'', ''Bradycardia'', ''Heart Rate''})
           \<and> (\<forall>n. parseInt (hr v) = Fin n \<longrightarrow>
                 severity a = (if n > 120 then critical else if n > 100 then warning
                               else if n < 50 then warning else normal))
           \<and> (parseInt (hr v) = Fin 120 \<longrightarrow> severity a = warning)
           \<and> (parseInt (hr v) = Fin 121 \<longrightarrow> severity a = critical)
           \<and> (parseInt (hr v) = Fin 50 \<longrightarrow> severity a = normal)
           \<and> (parseInt (hr v) = Fin 49 \<longrightarrow> severity a = warning)))"
proof -
  let ?names = "{''High Fever'', ''Fever'', ''Hypothermia Risk'', ''Temperature''}"
  let ?hnames = "{''Tachycardia'', ''Elevated HR'', ''Bradycardia'', ''Heart Rate''}"
  let ?t = "parseFloat (temp v)"
  let ?d = "toDouble (1004 / 10)"
  have temp: "\<exists>a. localAnalysisOf v = a # localAnalysisOf (v\<lparr>temp := []\<rparr>)
           \<and> condition a \<in> ?names
           \<and> (\<forall>b \<in> set (localAnalysisOf (v\<lparr>temp := []\<rparr>)). condition b \<notin> ?names)
           \<and> (severity a = critical \<longleftrightarrow> jgt ?t (Fin 103) \<or> jlt ?t (Fin 95))
           \<and> (severity a = warning \<longleftrightarrow> jgt ?t ?d \<and> \<not> jgt ?t (Fin 103))
           \<and> (severity a = normal \<longleftrightarrow> \<not> jgt ?t ?d \<and> \<not> jlt ?t (Fin 95))
           \<and> (\<forall>r. ?t = Fin r \<longrightarrow>
                 severity a = (if r > 103 \<or> r < 95 then critical
                               else if jgt (Fin r) ?d \<and> r \<le> 103 then warning else normal))
           \<and> (\<forall>r. ?t = Fin r \<and> Fin r \<noteq> ?d \<longrightarrow>
                 severity a = (if r > 103 \<or> r < 95 then critical
                               else if 1004 / 10 < r \<and> r \<le> 103 then warning else normal))
           \<and> (?t = ?d \<longrightarrow> severity a = normal)
           \<and> (?t = Fin 103 \<longrightarrow> severity a = warning)"
    if tr: "truthy (temp v)"
  proof -
    from tr obtain a where a: "feverCheck v [] = [a]"
      and c: "severity a = critical \<longleftrightarrow> jgt ?t (Fin 103) \<or> jlt ?t (Fin 95)"
      and w: "severity a = warning \<longleftrightarrow> jgt ?t ?d \<and> \<not> jgt ?t (Fin 103)"
      and n: "severity a = normal \<longleftrightarrow> \<not> jgt ?t ?d \<and> \<not> jlt ?t (Fin 95)"
      and k: "condition a \<in> ?names"
      by (rule feverCheck_cases)
    have l: "localAnalysisOf v = a # localAnalysisOf (v\<lparr>temp := []\<rparr>)"
      by (simp add: localAnalysisOf_append [of v] a without_temp)
    have o: "\<forall>b \<in> set (localAnalysisOf (v\<lparr>temp := []\<rparr>)). condition b \<notin> ?names"
      using no_temperature_alert_without_temp by blast
    have f: "severity a = (if r > 103 \<or> r < 95 then critical
                           else if jgt (Fin r) ?d \<and> r \<le> 103 then warning else normal)"
      if "?t = Fin r" for r
      using c w n that by (cases "severity a") (auto simp: jlt_def)
    have f2: "severity a = (if r > 103 \<or> r < 95 then critical
                           else if 1004 / 10 < r \<and> r \<le> 103 then warning else normal)"
      if h: "?t = Fin r \<and> Fin r \<noteq> ?d" for r
    proof -
      from h have p: "?t = Fin r" and q: "Fin r \<noteq> ?d"
        by simp_all
      have "jgt (Fin r) ?d \<longleftrightarrow> 1004 / 10 < r"
        by (rule above_literal_100_4 [OF parseFloat_double [OF p] q])
      with f [OF p] show ?thesis
        by (simp only:)
    qed
    have b1: "severity a = normal" if "?t = ?d"
      using n that unfolding literal_100_4 by (simp add: jlt_def)
    have b2: "severity a = warning" if "?t = Fin 103"
      using w that unfolding literal_100_4 by simp
    from l k o c w n f f2 b1 b2 show ?thesis
      by blast
  qed
  have rate: "\<exists>pre a post. localAnalysisOf v = pre @ a # post
           \<and> pre @ post = localAnalysisOf (v\<lparr>hr := []\<rparr>)
           \<and> condition a \<in> ?hnames
           \<and> (\<forall>b \<in> set (localAnalysisOf (v\<lparr>hr := []\<rparr>)). condition b \<notin> ?hnames)
           \<and> (\<forall>n. parseInt (hr v) = Fin n \<longrightarrow>
                 severity a = (if n > 120 then critical else if n > 100 then warning
                               else if n < 50 then warning else normal))
           \<and> (parseInt (hr v) = Fin 120 \<longrightarrow> severity a = warning)
           \<and> (parseInt (hr v) = Fin 121 \<longrightarrow> severity a = critical)
           \<and> (parseInt (hr v) = Fin 50 \<longrightarrow> severity a = normal)
           \<and> (parseInt (hr v) = Fin 49 \<longrightarrow> severity a = warning)"
    if tr: "truthy (hr v)"
  proof -
    from tr obtain a where a: "heartRateCheck v [] = [a]"
      and k: "condition a \<in> ?hnames"
      and g: "\<forall>n. parseInt (hr v) = Fin n \<longrightarrow>
           severity a = (if n > 120 then critical else if n > 100 then warning
                         else if n < 50 then warning else normal)"
      by (rule heartRateCheck_alert)
    have l: "localAnalysisOf v
             = feverCheck v [] @ a # (bloodPressureCheck v [] @ spo2Check v [])"
      by (simp add: localAnalysisOf_append [of v] a)
    have r: "feverCheck v [] @ (bloodPressureCheck v [] @ spo2Check v [])
             = localAnalysisOf (v\<lparr>hr := []\<rparr>)"
      by (simp add: without_hr)
    have o: "\<forall>b \<in> set (localAnalysisOf (v\<lparr>hr := []\<rparr>)). condition b \<notin> ?hnames"
      using no_heart_rate_alert_without_hr by blast
    have p: "parseInt (hr v) = Fin 120 \<longrightarrow> severity a = warning"
      "parseInt (hr v) = Fin 121 \<longrightarrow> severity a = critical"
      "parseInt (hr v) = Fin 50 \<longrightarrow> severity a = normal"
      "parseInt (hr v) = Fin 49 \<longrightarrow> severity a = warning"
      using g [THEN spec, of 120] g [THEN spec, of 121] g [THEN spec, of 50] g [THEN spec, of 49]
      by simp_all
    show ?thesis
      by (intro exI [of _ "feverCheck v []"] exI [of _ a]
                exI [of _ "bloodPressureCheck v [] @ spo2Check v []"] conjI)
         (rule l r k o g p)+
  qed
  show ?thesis
    using temp rate by blast
qed

theorem temperature_and_heart_rate_severity_witness:
  "map severity (localAnalysisOf \<lparr>temp = ''100.4'', hr = [], bpSys = [], bpDia = [], spo2 = []\<rparr>)
     = [normal]
   \<and> map severity (localAnalysisOf \<lparr>temp = ''103.0'', hr = [], bpSys = [], bpDia = [], spo2 = []\<rparr>)
     = [warning]
   \<and> map severity
        (filter (\<lambda>a. condition a \<in> {''Tachycardia'', ''Elevated HR'', ''Bradycardia'', ''Heart Rate''})
           (localAnalysisOf
              \<lparr>temp = ''98.6'', hr = ''120'', bpSys = ''118'', bpDia = ''76'', spo2 = ''97''\<rparr>))
     = [warning]
   \<and> map severity
        (filter (\<lambda>a. condition a \<in> {''Tachycardia'', ''Elevated HR'', ''Bradycardia'', ''Heart Rate''})
           (localAnalysisOf
              \<lparr>temp = ''98.6'', hr = ''121'', bpSys = ''118'', bpDia = ''76'', spo2 = ''97''\<rparr>))
     = [critical]
   \<and> map severity
        (filter (\<lambda>a. condition a \<in> {''Tachycardia'', ''Elevated HR'', ''Bradycardia'', ''Heart Rate''})
           (localAnalysisOf \<lparr>temp = ''104'', hr = ''50'', bpSys = [], bpDia = [], spo2 = ''88''\<rparr>))
     = [normal]
   \<and> map severity
        (filter (\<lambda>a. condition a \<in> {''Tachycardia'', ''Elevated HR'', ''Bradycardia'', ''Heart Rate''})
           (localAnalysisOf \<lparr>temp = [], hr = ''49'', bpSys = [], bpDia = [], spo2 = []\<rparr>))
     = [warning]"
proof -
  let ?v1 = "\<lparr>temp = ''100.4'', hr = [], bpSys = [], bpDia = [], spo2 = []\<rparr>"
  let ?v2 = "\<lparr>temp = ''103.0'', hr = [], bpSys = [], bpDia = [], spo2 = []\<rparr>"
  let ?v3 = "\<lparr>temp = ''98.6'', hr = ''120'', bpSys = ''118'', bpDia = ''76'', spo2 = ''97''\<rparr>"
  let ?v4 = "\<lparr>temp = ''98.6'', hr = ''121'', bpSys = ''118'', bpDia = ''76'', spo2 = ''97''\<rparr>"
  let ?v5 = "\<lparr>temp = ''104'', hr = ''50'', bpSys = [], bpDia = [], spo2 = ''88''\<rparr>"
  let ?v6 = "\<lparr>temp = [], hr = ''49'', bpSys = [], bpDia = [], spo2 = []\<rparr>"
  let ?P = "\<lambda>a. condition a \<in> {''Tachycardia'', ''Elevated HR'', ''Bradycardia'', ''Heart Rate''}"
  have 1: "map severity (localAnalysisOf ?v1) = [normal]"
  proof -
    have tr: "truthy (temp ?v1)"
      by code_simp
    have r: "localAnalysisOf (?v1\<lparr>temp := []\<rparr>) = []"
      by code_simp
    have e: "parseFloat (temp ?v1) = toDouble (1004 / 10)"
      by code_simp
    from temperature_and_heart_rate_severity [of ?v1, THEN conjunct1, THEN mp, OF tr]
    obtain a where "localAnalysisOf ?v1 = a # localAnalysisOf (?v1\<lparr>temp := []\<rparr>)"
      and "parseFloat (temp ?v1) = toDouble (1004 / 10) \<longrightarrow> severity a = normal"
      by blast
    with r e show ?thesis
      by simp
  qed
  have 2: "map severity (localAnalysisOf ?v2) = [warning]"
  proof -
    have tr: "truthy (temp ?v2)"
      by code_simp
    have r: "localAnalysisOf (?v2\<lparr>temp := []\<rparr>) = []"
      by code_simp
    have e: "parseFloat (temp ?v2) = Fin 103"
      by code_simp
    from temperature_and_heart_rate_severity [of ?v2, THEN conjunct1, THEN mp, OF tr]
    obtain a where "localAnalysisOf ?v2 = a # localAnalysisOf (?v2\<lparr>temp := []\<rparr>)"
      and "parseFloat (temp ?v2) = Fin 103 \<longrightarrow> severity a = warning"
      by blast
    with r e show ?thesis
      by simp
  qed
  have rate: "map severity (filter ?P (localAnalysisOf u)) = [s]"
    if tr: "truthy (hr u)" and p: "parseInt (hr u) = Fin n"
      and s: "s = (if n > 120 then critical else if n > 100 then warning
                   else if n < 50 then warning else normal)"
    for u n s
  proof -
    from temperature_and_heart_rate_severity [of u, THEN conjunct2, THEN mp, OF tr]
    obtain pre a post where l: "localAnalysisOf u = pre @ a # post"
      and m: "pre @ post = localAnalysisOf (u\<lparr>hr := []\<rparr>)"
      and c: "?P a"
      and o: "\<forall>b \<in> set (localAnalysisOf (u\<lparr>hr := []\<rparr>)). \<not> ?P b"
      and a: "\<forall>n. parseInt (hr u) = Fin n \<longrightarrow>
                 severity a = (if n > 120 then critical else if n > 100 then warning
                               else if n < 50 then warning else normal)"
      by blast
    have sa: "severity a = s"
      using a p s by simp
    have "\<forall>b \<in> set (pre @ post). \<not> ?P b"
      using o unfolding m .
    then have "filter ?P pre = []" and "filter ?P post = []"
      by (simp_all add: filter_empty_conv)
    then have "filter ?P (localAnalysisOf u) = [a]"
      using c by (simp add: l)
    with sa show ?thesis
      by simp
  qed
  have 3: "map severity (filter ?P (localAnalysisOf ?v3)) = [warning]"
  proof -
    have "truthy (hr ?v3)" "parseInt (hr ?v3) = Fin 120"
      by code_simp+
    from rate [OF this refl] show ?thesis
      by simp
  qed
  have 4: "map severity (filter ?P (localAnalysisOf ?v4)) = [critical]"
  proof -
    have "truthy (hr ?v4)" "parseInt (hr ?v4) = Fin 121"
      by code_simp+
    from rate [OF this refl] show ?thesis
      by simp
  qed
  have 5: "map severity (filter ?P (localAnalysisOf ?v5)) = [normal]"
  proof -
    have "truthy (hr ?v5)" "parseInt (hr ?v5) = Fin 50"
      by code_simp+
    from rate [OF this refl] show ?thesis
      by simp
  qed
  have 6: "map severity (filter ?P (localAnalysisOf ?v6)) = [warning]"
  proof -
    have "truthy (hr ?v6)" "parseInt (hr ?v6) = Fin 49"
      by code_simp+
    from rate [OF this refl] show ?thesis
      by simp
  qed
  show ?thesis
    by (rule conjI [OF 1 conjI [OF 2 conjI [OF 3 conjI [OF 4 conjI [OF 5 6]]]]])
qed

text \<open>
  C7. The conditions of the alerts are four runs, in the order temperature, heart
  rate, blood pressure and oxygen saturation; the run of a category whose field is
  entered is one of the names of that category, and the run of any other category is
  empty. The blood pressure counts as entered only when both its values are.
\<close>

theorem one_alert_per_populated_category:
  "\<exists>ts hs bs os.
      map condition (localAnalysisOf v) = ts @ hs @ bs @ os
    \<and> (if truthy (temp v)
        then \<exists>c \<in> {''High Fever'', ''Fever'', ''Hypothermia Risk'', ''Temperature''}. ts = [c]
        else ts = [])
    \<and> (if truthy (hr v)
        then \<exists>c \<in> {''Tachycardia'', ''Elevated HR'', ''Bradycardia'', ''Heart Rate''}. hs = [c]
        else hs = [])
    \<and> (if truthy (bpSys v) \<and> truthy (bpDia v)
        then \<exists>c \<in> {''Hypertensive Crisis'', ''High BP'', ''Elevated BP'', ''Blood Pressure''}. bs = [c]
        else bs = [])
    \<and> (if truthy (spo2 v)
        then \<exists>c \<in> {''Hypoxia Risk'', ''Low Oxygen'', ''Oxygen Level''}. os = [c]
        else os = [])"
proof -
  have t: "if truthy (temp v)
        then \<exists>c \<in> {''High Fever'', ''Fever'', ''Hypothermia Risk'', ''Temperature''}.
               map condition (feverCheck v []) = [c]
        else map condition (feverCheck v []) = []"
  proof (cases "truthy (temp v)")
    case True
    then obtain a where "feverCheck v [] = [a]"
      and "condition a \<in> {''High Fever'', ''Fever'', ''Hypothermia Risk'', ''Temperature''}"
      by (rule feverCheck_cases)
    with True show ?thesis
      by simp
  next
    case False
    then show ?thesis
      by (simp add: feverCheck_empty)
  qed
  have h: "if truthy (hr v)
        then \<exists>c \<in> {''Tachycardia'', ''Elevated HR'', ''Bradycardia'', ''Heart Rate''}.
               map condition (heartRateCheck v []) = [c]
        else map condition (heartRateCheck v []) = []"
    using heartRateCheck_cases [of v] by (cases "truthy (hr v)") auto
  have b: "if truthy (bpSys v) \<and> truthy (bpDia v)
        then \<exists>c \<in> {''Hypertensive Crisis'', ''High BP'', ''Elevated BP'', ''Blood Pressure''}.
               map condition (bloodPressureCheck v []) = [c]
        else map condition (bloodPressureCheck v []) = []"
    using bloodPressureCheck_cases [of v] by (cases "truthy (bpSys v) \<and> truthy (bpDia v)") auto
  have s: "if truthy (spo2 v)
        then \<exists>c \<in> {''Hypoxia Risk'', ''Low Oxygen'', ''Oxygen Level''}.
               map condition (spo2Check v []) = [c]
        else map condition (spo2Check v []) = []"
    using spo2Check_cases [of v] by (cases "truthy (spo2 v)") auto
  have "map condition (localAnalysisOf v)
        = map condition (feverCheck v []) @ map condition (heartRateCheck v [])
          @ map condition (bloodPressureCheck v []) @ map condition (spo2Check v [])"
    by (simp add: localAnalysisOf_append)
  with t h b s show ?thesis
    by blast
qed

theorem one_alert_per_populated_category_witness:
  "length (localAnalysisOf \<lparr>temp = ''98.6'', hr = [], bpSys = ''150'', bpDia = [], spo2 = ''97''\<rparr>) = 2
   \<and> hd (map condition (localAnalysisOf
           \<lparr>temp = ''98.6'', hr = [], bpSys = ''150'', bpDia = [], spo2 = ''97''\<rparr>))
       \<in> {''High Fever'', ''Fever'', ''Hypothermia Risk'', ''Temperature''}
   \<and> last (map condition (localAnalysisOf
           \<lparr>temp = ''98.6'', hr = [], bpSys = ''150'', bpDia = [], spo2 = ''97''\<rparr>))
       \<in> {''Hypoxia Risk'', ''Low Oxygen'', ''Oxygen Level''}"
proof -
  let ?v = "\<lparr>temp = ''98.6'', hr = [], bpSys = ''150'', bpDia = [], spo2 = ''97''\<rparr>"
  have p: "truthy (temp ?v)" "\<not> truthy (hr ?v)" "\<not> (truthy (bpSys ?v) \<and> truthy (bpDia ?v))"
    "truthy (spo2 ?v)"
    by code_simp+
  from one_alert_per_populated_category [of ?v]
  obtain ts hs bs os where m: "map condition (localAnalysisOf ?v) = ts @ hs @ bs @ os"
    and t: "if truthy (temp ?v)
        then \<exists>c \<in> {''High Fever'', ''Fever'', ''Hypothermia Risk'', ''Temperature''}. ts = [c]
        else ts = []"
    and h: "if truthy (hr ?v)
        then \<exists>c \<in> {''Tachycardia'', ''Elevated HR'', ''Bradycardia'', ''Heart Rate''}. hs = [c]
        else hs = []"
    and b: "if truthy (bpSys ?v) \<and> truthy (bpDia ?v)
        then \<exists>c \<in> {''Hypertensive Crisis'', ''High BP'', ''Elevated BP'', ''Blood Pressure''}. bs = [c]
        else bs = []"
    and s: "if truthy (spo2 ?v)
        then \<exists>c \<in> {''Hypoxia Risk'', ''Low Oxygen'', ''Oxygen Level''}. os = [c]
        else os = []"
    by blast
  from t p(1) obtain c where c: "c \<in> {''High Fever'', ''Fever'', ''Hypothermia Risk'', ''Temperature''}"
    and ts: "ts = [c]"
    by (simp only: if_True) blast
  from h p(2) have hs: "hs = []"
    by (simp only: if_False)
  from b p(3) have bs: "bs = []"
    by (simp only: if_False)
  from s p(4) obtain d where d: "d \<in> {''Hypoxia Risk'', ''Low Oxygen'', ''Oxygen Level''}"
    and os: "os = [d]"
    by (simp only: if_True) blast
  have e: "map condition (localAnalysisOf ?v) = [c, d]"
    using m by (simp only: ts hs bs os append.simps)
  then have "length (map condition (localAnalysisOf ?v)) = 2"
    by simp
  then have l: "length (localAnalysisOf ?v) = 2"
    by (simp only: length_map)
  have f: "hd (map condition (localAnalysisOf ?v)) = c" and g: "last (map condition (localAnalysisOf ?v)) = d"
    by (simp_all add: e)
  show ?thesis
    unfolding f g by (rule conjI [OF l conjI [OF c d]])
qed

section \<open>Properties of the service\<close>

lemma generateContent_fst: "fst (generateContent gen req w) = fst (gen req (outside w))"
  by (simp add: generateContent_def split: prod.split)

lemma generateContent_calls: "calls (snd (generateContent gen req w)) = calls w @ [req]"
  by (simp add: generateContent_def split: prod.split)

lemma split_not_Nil: "split d s \<noteq> []"
  by (induction s) (auto split: list.split)

lemma parseMetadata_Inr: "\<exists>c b. parseMetadata t = Inr (c, b)"
proof -
  obtain l0 ls where "split CHR 0x0A t = l0 # ls"
    using split_not_Nil [of "CHR 0x0A" t] by (cases "split CHR 0x0A t") auto
  then show ?thesis
    by (auto simp: parseMetadata_def Let_def split: option.split)
qed

lemma parseText_Inr: "\<exists>c b. parseText t = Inr (c, b)"
  unfolding parseText_def by (rule parseMetadata_Inr)

lemma parseMetadata_no_marker:
  assumes "\<not> strIncludes (trim (hd (split CHR 0x0A t))) ''CONFIDENCE_SCORE:''"
  shows "parseMetadata t = Inr (\<lparr>score = Fin 0, label = ''Low''\<rparr>, t)"
proof -
  obtain l0 ls where "split CHR 0x0A t = l0 # ls"
    using split_not_Nil [of "CHR 0x0A" t] by (cases "split CHR 0x0A t") auto
  with assms show ?thesis
    by (simp add: parseMetadata_def Let_def)
qed

lemma parseText_no_text:
  assumes "\<not> truthyField t"
  shows "parseText t = Inr (\<lparr>score = Fin 0, label = ''Low''\<rparr>, unableText)"
proof -
  from assms have "textOr t unableText = unableText"
    by (auto simp: truthyField_def textOr_def split: option.splits)
  moreover have "\<not> strIncludes (trim (hd (split CHR 0x0A unableText))) ''CONFIDENCE_SCORE:''"
    by code_simp
  ultimately show ?thesis
    by (simp add: parseText_def parseMetadata_no_marker)
qed

lemma analyzeSymptoms_throws:
  assumes "generateContent gen (analysisRequest s i v l) w = (Inl e, w')"
  shows "analyzeSymptoms gen s i v l w = (Inl analysisFailed, w')"
  using assms by (simp add: analyzeSymptoms_def)

lemma analyzeSymptoms_answers:
  assumes "generateContent gen (analysisRequest s i v l) w = (Inr resp, w')"
    and "parseText (responseText resp) = Inr (c, b)"
  shows "analyzeSymptoms gen s i v l w
         = (Inr \<lparr>AnalysisResult.content = b, confidence = c, language = l,
                 sources = webSources resp\<rparr>, w')"
  using assms by (simp add: analyzeSymptoms_def)

lemma analyzeSymptoms_calls:
  "calls (snd (analyzeSymptoms gen s i v l w)) = calls w @ [analysisRequest s i v l]"
proof (cases "generateContent gen (analysisRequest s i v l) w")
  case (Pair r w')
  then have c: "calls w' = calls w @ [analysisRequest s i v l]"
    using generateContent_calls [of gen "analysisRequest s i v l" w] by simp
  show ?thesis
  proof (cases r)
    case (Inl e)
    with Pair c show ?thesis
      by (simp add: analyzeSymptoms_throws)
  next
    case (Inr resp)
    obtain cf b where "parseText (responseText resp) = Inr (cf, b)"
      using parseText_Inr [of "responseText resp"] by blast
    with Pair Inr c show ?thesis
      by (simp add: analyzeSymptoms_answers)
  qed
qed

text \<open>
  C1, as stated, fails: when the call returns a response with no text, the operation
  returns a result whose content is the fixed fallback text.
\<close>

theorem analysis_no_text_counterexample:
  "fst (analyzeSymptoms scripted ''cough'' None None ''English'' (freshWorld [Inr noTextResponse]))
   = Inr \<lparr>AnalysisResult.content = ''Unable to generate analysis. Please try again.'',
          confidence = \<lparr>score = Fin 0, label = ''Low''\<rparr>, language = ''English'', sources = []\<rparr>"
  by code_simp

text \<open>
  C1, amended. The operation issues exactly one request to the remote model. It
  fails iff that call throws, and then with the one fixed error. When the call
  answers without a usable text, the operation returns a result: its content is the
  fixed fallback text and its confidence is 0 and Low.
\<close>

theorem analysis_fails_iff_call_throws:
  "(let req = analysisRequest s i v l;
        out = analyzeSymptoms gen s i v l w
    in calls (snd out) = calls w @ [req]
       \<and> ((\<exists>e. fst out = Inl e) \<longleftrightarrow> (\<exists>e. fst (gen req (outside w)) = Inl e))
       \<and> ((\<exists>e. fst (gen req (outside w)) = Inl e) \<longrightarrow> fst out = Inl analysisFailed)
       \<and> (\<forall>resp. fst (gen req (outside w)) = Inr resp \<and> \<not> truthyField (responseText resp) \<longrightarrow>
             (\<exists>r. fst out = Inr r \<and> AnalysisResult.content r = unableText
                  \<and> confidence r = \<lparr>score = Fin 0, label = ''Low''\<rparr>)))"
proof -
  let ?req = "analysisRequest s i v l"
  let ?out = "analyzeSymptoms gen s i v l w"
  obtain r w' where g: "generateContent gen ?req w = (r, w')"
    by (cases "generateContent gen ?req w")
  then have f: "fst (gen ?req (outside w)) = r"
    using generateContent_fst [of gen ?req w] by simp
  have thr: "fst ?out = Inl analysisFailed" if "r = Inl e" for e
    using g that by (simp add: analyzeSymptoms_throws)
  have ans: "\<exists>x. fst ?out = Inr x" if "r = Inr resp" for resp
  proof -
    obtain cf b where "parseText (responseText resp) = Inr (cf, b)"
      using parseText_Inr [of "responseText resp"] by blast
    with g that show ?thesis
      by (simp add: analyzeSymptoms_answers)
  qed
  have iff: "(\<exists>e. fst ?out = Inl e) \<longleftrightarrow> (\<exists>e. fst (gen ?req (outside w)) = Inl e)"
  proof (cases r)
    case (Inl e)
    with thr f show ?thesis by auto
  next
    case (Inr resp)
    with ans f show ?thesis by auto
  qed
  have fail: "(\<exists>e. fst (gen ?req (outside w)) = Inl e) \<longrightarrow> fst ?out = Inl analysisFailed"
    using thr f by auto
  have notext: "\<exists>x. fst ?out = Inr x \<and> AnalysisResult.content x = unableText
                  \<and> confidence x = \<lparr>score = Fin 0, label = ''Low''\<rparr>"
    if "fst (gen ?req (outside w)) = Inr resp" and "\<not> truthyField (responseText resp)" for resp
  proof -
    from that f have "r = Inr resp"
      by simp
    with g parseText_no_text [OF that(2)] show ?thesis
      by (simp add: analyzeSymptoms_answers)
  qed
  show ?thesis
    unfolding Let_def using analyzeSymptoms_calls [of gen s i v l w] iff fail notext by blast
qed

theorem analysis_fails_iff_call_throws_witness:
  "fst (analyzeSymptoms scripted ''cough'' None None ''English'' (freshWorld [])) = Inl analysisFailed
   \<and> length (calls (snd (analyzeSymptoms scripted ''cough'' None None ''English'' (freshWorld []))))
       = 1
   \<and> (\<exists>r. fst (analyzeSymptoms scripted ''cough'' None None ''English''
                  (freshWorld [Inr noTextResponse])) = Inr r
           \<and> AnalysisResult.content r = unableText)"
proof -
  let ?req = "analysisRequest ''cough'' None None ''English''"
  let ?w0 = "freshWorld [] :: (jsError + GenerateContentResponse) list world"
  let ?w1 = "freshWorld [Inr noTextResponse]"
  note t0 = analysis_fails_iff_call_throws [where gen = scripted and s = "''cough''" and i = None
      and v = None and l = "''English''" and w = ?w0, unfolded Let_def]
  note t1 = analysis_fails_iff_call_throws [where gen = scripted and s = "''cough''" and i = None
      and v = None and l = "''English''" and w = ?w1, unfolded Let_def]
  have e: "\<exists>e. fst (scripted ?req (outside ?w0)) = Inl e"
    by (simp add: freshWorld_def)
  have c: "calls ?w0 = []"
    by (simp add: freshWorld_def)
  have n: "fst (scripted ?req (outside ?w1)) = Inr noTextResponse
           \<and> \<not> truthyField (responseText noTextResponse)"
    by (simp add: freshWorld_def noTextResponse_def truthyField_def)
  have 1: "fst (analyzeSymptoms scripted ''cough'' None None ''English'' ?w0) = Inl analysisFailed"
    using t0 [THEN conjunct2, THEN conjunct2, THEN conjunct1, THEN mp, OF e] .
  have 2: "length (calls (snd (analyzeSymptoms scripted ''cough'' None None ''English'' ?w0))) = 1"
    using t0 [THEN conjunct1] c by simp
  have 3: "\<exists>r. fst (analyzeSymptoms scripted ''cough'' None None ''English'' ?w1) = Inr r
           \<and> AnalysisResult.content r = unableText"
    using t1 [THEN conjunct2, THEN conjunct2, THEN conjunct2, THEN spec, THEN mp, OF n] by blast
  show ?thesis
    by (rule conjI [OF 1 conjI [OF 2 3]])
qed

lemma generateContent_pair:
  "generateContent gen req w = (fst (generateContent gen req w), snd (generateContent gen req w))"
  by simp

lemma attempt2_result:
  "attempt2 gen mc lat lng lang w
   = ((case fst (generateContent gen (fallbackRequest mc lat lng lang) w) of
         Inl e \<Rightarrow> Inl lookupFailed
       | Inr response \<Rightarrow> Inr (processResponse response ''Search Results'')),
      snd (generateContent gen (fallbackRequest mc lat lng lang) w))"
  by (cases "generateContent gen (fallbackRequest mc lat lng lang) w")
     (simp add: attempt2_def split: sum.split)

lemma findNearbyDoctors_hit:
  assumes "fst (generateContent gen (mapsRequest mc lat lng lang) w) = Inr resp"
    and "mapSources (processResponse resp ''Maps Search Results'') \<noteq> []"
  shows "findNearbyDoctors gen mc lat lng lang w
         = (Inr (processResponse resp ''Maps Search Results''),
            snd (generateContent gen (mapsRequest mc lat lng lang) w))"
  using assms
  by (cases "generateContent gen (mapsRequest mc lat lng lang) w")
     (simp add: findNearbyDoctors_def Let_def)

lemma findNearbyDoctors_miss:
  assumes "(\<exists>e. fst (generateContent gen (mapsRequest mc lat lng lang) w) = Inl e)
           \<or> (\<exists>resp. fst (generateContent gen (mapsRequest mc lat lng lang) w) = Inr resp
                 \<and> mapSources (processResponse resp ''Maps Search Results'') = [])"
  shows "findNearbyDoctors gen mc lat lng lang w
         = attempt2 gen mc lat lng lang (snd (generateContent gen (mapsRequest mc lat lng lang) w))"
  using assms
  by (cases "generateContent gen (mapsRequest mc lat lng lang) w")
     (auto simp add: findNearbyDoctors_def Let_def)

text \<open>
  C2. Let the first call be the maps-grounded request, and call it a hit when it
  answers and the answer yields at least one map source. On a hit the operation
  returns the result of that answer, and the only request issued is the first. When
  the first call throws or yields no map source, the fallback request is issued as
  the second and last call, in the world the first call left; when it answers, its
  result is returned, whatever its map sources, and when it throws, the operation
  fails with the one fixed error. So the operation fails iff the fallback call was
  issued and threw.
\<close>

theorem doctor_lookup_fallback:
  "(let req1 = mapsRequest mc lat lng lang;
        req2 = fallbackRequest mc lat lng lang;
        r1 = generateContent gen req1 w;
        r2 = generateContent gen req2 (snd r1);
        out = findNearbyDoctors gen mc lat lng lang w;
        hit = (\<exists>resp. fst r1 = Inr resp
                 \<and> mapSources (processResponse resp ''Maps Search Results'') \<noteq> []);
        miss = ((\<exists>e. fst r1 = Inl e)
                \<or> (\<exists>resp. fst r1 = Inr resp
                      \<and> mapSources (processResponse resp ''Maps Search Results'') = []))
    in (hit \<longleftrightarrow> \<not> miss)
       \<and> (hit \<longrightarrow>
             (\<exists>resp. fst r1 = Inr resp
                 \<and> out = (Inr (processResponse resp ''Maps Search Results''), snd r1))
             \<and> calls (snd out) = calls w @ [req1])
       \<and> (miss \<longrightarrow>
             calls (snd out) = calls w @ [req1, req2]
             \<and> snd out = snd r2
             \<and> (\<forall>resp. fst r2 = Inr resp \<longrightarrow>
                   fst out = Inr (processResponse resp ''Search Results''))
             \<and> (\<forall>e. fst r2 = Inl e \<longrightarrow> fst out = Inl lookupFailed))
       \<and> ((\<exists>e. fst out = Inl e) \<longleftrightarrow> miss \<and> (\<exists>e. fst r2 = Inl e)))"
proof -
  let ?req1 = "mapsRequest mc lat lng lang"
  let ?req2 = "fallbackRequest mc lat lng lang"
  let ?r1 = "generateContent gen ?req1 w"
  let ?r2 = "generateContent gen ?req2 (snd ?r1)"
  let ?out = "findNearbyDoctors gen mc lat lng lang w"
  let ?hit = "\<exists>resp. fst ?r1 = Inr resp
                 \<and> mapSources (processResponse resp ''Maps Search Results'') \<noteq> []"
  let ?miss = "(\<exists>e. fst ?r1 = Inl e)
                \<or> (\<exists>resp. fst ?r1 = Inr resp
                      \<and> mapSources (processResponse resp ''Maps Search Results'') = [])"
  have excl: "?hit \<longleftrightarrow> \<not> ?miss"
    by (cases "fst ?r1") auto
  have hit: "(\<exists>resp. fst ?r1 = Inr resp
                 \<and> ?out = (Inr (processResponse resp ''Maps Search Results''), snd ?r1))
             \<and> calls (snd ?out) = calls w @ [?req1]"
    if ?hit
  proof -
    from that obtain resp where r: "fst ?r1 = Inr resp"
      and m: "mapSources (processResponse resp ''Maps Search Results'') \<noteq> []"
      by blast
    have o: "?out = (Inr (processResponse resp ''Maps Search Results''), snd ?r1)"
      by (rule findNearbyDoctors_hit [OF r m])
    then have "calls (snd ?out) = calls w @ [?req1]"
      by (simp add: generateContent_calls)
    with r o show ?thesis
      by blast
  qed
  have o2: "?out = ((case fst ?r2 of
                       Inl e \<Rightarrow> Inl lookupFailed
                     | Inr response \<Rightarrow> Inr (processResponse response ''Search Results'')),
                    snd ?r2)"
    if ?miss
    using findNearbyDoctors_miss [OF that] by (simp only: attempt2_result)
  have miss: "calls (snd ?out) = calls w @ [?req1, ?req2]
             \<and> snd ?out = snd ?r2
             \<and> (\<forall>resp. fst ?r2 = Inr resp \<longrightarrow>
                   fst ?out = Inr (processResponse resp ''Search Results''))
             \<and> (\<forall>e. fst ?r2 = Inl e \<longrightarrow> fst ?out = Inl lookupFailed)"
    if ?miss
    using o2 [OF that] by (simp add: generateContent_calls)
  have err: "(\<exists>e. fst ?out = Inl e) \<longleftrightarrow> ?miss \<and> (\<exists>e. fst ?r2 = Inl e)"
  proof (cases ?hit)
    case True
    with hit excl show ?thesis
      by auto
  next
    case False
    with excl have m: ?miss
      by blast
    show ?thesis
      using m o2 [OF m] by (cases "fst ?r2") auto
  qed
  show ?thesis
    unfolding Let_def using excl hit miss err by blast
qed

theorem doctor_lookup_fallback_witness:
  "findNearbyDoctors scripted ''cough'' (Fin 52) (Fin 13) ''English''
      (freshWorld [Inl (Error ''quota''), Inr (textResponse ''Try the city hospital.'')])
     = (Inr \<lparr>DoctorSearchResult.content = ''Try the city hospital.'', mapSources = []\<rparr>,
        \<lparr>calls = [mapsRequest ''cough'' (Fin 52) (Fin 13) ''English'',
                  fallbackRequest ''cough'' (Fin 52) (Fin 13) ''English''],
         outside = []\<rparr>)
   \<and> calls (snd (findNearbyDoctors scripted ''cough'' (Fin 52) (Fin 13) ''English''
        (freshWorld [Inr mapsResponse, Inr (textResponse ''Try the city hospital.'')])))
     = [mapsRequest ''cough'' (Fin 52) (Fin 13) ''English'']
   \<and> fst (findNearbyDoctors scripted ''cough'' (Fin 52) (Fin 13) ''English''
        (freshWorld [Inl (Error ''quota''), Inl (Error ''quota'')]))
     = Inl lookupFailed"
proof -
  let ?req1 = "mapsRequest ''cough'' (Fin 52) (Fin 13) ''English''"
  let ?req2 = "fallbackRequest ''cough'' (Fin 52) (Fin 13) ''English''"
  let ?wa = "freshWorld [Inl (Error ''quota''), Inr (textResponse ''Try the city hospital.'')]"
  let ?wb = "freshWorld [Inr mapsResponse, Inr (textResponse ''Try the city hospital.'')]"
  let ?wc = "freshWorld [Inl (Error ''quota''), Inl (Error ''quota'') :: jsError + GenerateContentResponse]"
  note ta = doctor_lookup_fallback [where gen = scripted and mc = "''cough''" and lat = "Fin 52"
      and lng = "Fin 13" and lang = "''English''" and w = ?wa, unfolded Let_def]
  note tb = doctor_lookup_fallback [where gen = scripted and mc = "''cough''" and lat = "Fin 52"
      and lng = "Fin 13" and lang = "''English''" and w = ?wb, unfolded Let_def]
  note tc = doctor_lookup_fallback [where gen = scripted and mc = "''cough''" and lat = "Fin 52"
      and lng = "Fin 13" and lang = "''English''" and w = ?wc, unfolded Let_def]
  have ma: "(\<exists>e. fst (generateContent scripted ?req1 ?wa) = Inl e)
            \<or> (\<exists>resp. fst (generateContent scripted ?req1 ?wa) = Inr resp
                  \<and> mapSources (processResponse resp ''Maps Search Results'') = [])"
    by (simp add: generateContent_def freshWorld_def)
  have ra: "fst (generateContent scripted ?req2 (snd (generateContent scripted ?req1 ?wa)))
            = Inr (textResponse ''Try the city hospital.'')"
    by (simp add: generateContent_def freshWorld_def)
  have sa: "snd (generateContent scripted ?req2 (snd (generateContent scripted ?req1 ?wa)))
            = \<lparr>calls = [?req1, ?req2], outside = []\<rparr>"
    by (simp add: generateContent_def freshWorld_def)
  have pa: "processResponse (textResponse ''Try the city hospital.'') ''Search Results''
            = \<lparr>DoctorSearchResult.content = ''Try the city hospital.'', mapSources = []\<rparr>"
    by code_simp
  note ma' = ta [THEN conjunct2, THEN conjunct2, THEN conjunct1, THEN mp, OF ma]
  have 1: "findNearbyDoctors scripted ''cough'' (Fin 52) (Fin 13) ''English'' ?wa
           = (Inr \<lparr>DoctorSearchResult.content = ''Try the city hospital.'', mapSources = []\<rparr>,
              \<lparr>calls = [?req1, ?req2], outside = []\<rparr>)"
    using ma' [THEN conjunct2, THEN conjunct1]
      ma' [THEN conjunct2, THEN conjunct2, THEN conjunct1, THEN spec, THEN mp, OF ra]
    by (simp only: sa pa prod_eq_iff fst_conv snd_conv)
  have hb: "\<exists>resp. fst (generateContent scripted ?req1 ?wb) = Inr resp
                 \<and> mapSources (processResponse resp ''Maps Search Results'') \<noteq> []"
  proof -
    have "fst (generateContent scripted ?req1 ?wb) = Inr mapsResponse"
      by (simp add: generateContent_def freshWorld_def)
    moreover have "mapSources (processResponse mapsResponse ''Maps Search Results'') \<noteq> []"
      by code_simp
    ultimately show ?thesis
      by blast
  qed
  have cb: "calls ?wb = []"
    by (simp add: freshWorld_def)
  have 2: "calls (snd (findNearbyDoctors scripted ''cough'' (Fin 52) (Fin 13) ''English'' ?wb))
           = [?req1]"
    using tb [THEN conjunct2, THEN conjunct1, THEN mp, OF hb, THEN conjunct2]
    by (simp only: cb append_Nil)
  have mc: "(\<exists>e. fst (generateContent scripted ?req1 ?wc) = Inl e)
            \<or> (\<exists>resp. fst (generateContent scripted ?req1 ?wc) = Inr resp
                  \<and> mapSources (processResponse resp ''Maps Search Results'') = [])"
    by (simp add: generateContent_def freshWorld_def)
  have rc: "fst (generateContent scripted ?req2 (snd (generateContent scripted ?req1 ?wc)))
            = Inl (Error ''quota'')"
    by (simp add: generateContent_def freshWorld_def)
  note mc' = tc [THEN conjunct2, THEN conjunct2, THEN conjunct1, THEN mp, OF mc]
  have 3: "fst (findNearbyDoctors scripted ''cough'' (Fin 52) (Fin 13) ''English'' ?wc)
           = Inl lookupFailed"
    using mc' [THEN conjunct2, THEN conjunct2, THEN conjunct2, THEN spec, THEN mp, OF rc] .
  show ?thesis
    by (rule conjI [OF 1 conjI [OF 2 3]])
qed

section \<open>Properties of the parsing of the response\<close>

lemma split_Cons_eq:
  "split d (c # cs) = (if c = d then [] # split d cs
                       else (c # hd (split d cs)) # tl (split d cs))"
  using split_not_Nil [of d cs] by (cases "split d cs") auto

lemma hd_split: "hd (split d s) = takeWhile (\<lambda>c. c \<noteq> d) s"
  by (induction s) (simp_all add: split_Cons_eq del: split.simps(2))

lemma join_Cons_Cons: "join sep ((c # l) # ls) = c # join sep (l # ls)"
  by (cases ls) simp_all

lemma join_split: "join [d] (split d s) = s"
proof (induction s)
  case Nil
  show ?case by simp
next
  case (Cons c cs)
  obtain l ls where s: "split d cs = l # ls"
    using split_not_Nil [of d cs] by (cases "split d cs") auto
  with Cons show ?case
    by (auto simp: join_Cons_Cons)
qed

lemma split_append: "d \<notin> set l \<Longrightarrow> split d (l @ d # r) = l # split d r"
  by (induction l) auto

lemma tl_split:
  "join [d] (tl (split d s)) = tl (dropWhile (\<lambda>c. c \<noteq> d) s)"
proof (cases "d \<in> set s")
  case True
  then obtain l r where s: "s = l @ d # r" and l: "d \<notin> set l"
    by (meson split_list_first)
  have "dropWhile (\<lambda>c. c \<noteq> d) (l @ d # r) = d # r"
    using l by (induction l) auto
  with s l show ?thesis
    by (simp add: split_append join_split)
next
  case False
  then have dr: "dropWhile (\<lambda>c. c \<noteq> d) s = []"
    by auto
  have sp: "split d s = [s]"
    using False by (induction s) auto
  show ?thesis
    unfolding dr sp by simp
qed

lemma parseMetadata_eq:
  "parseMetadata fullText =
     (let firstLine = trim (takeWhile (\<lambda>c. c \<noteq> CHR 0x0A) fullText);
          rest = tl (dropWhile (\<lambda>c. c \<noteq> CHR 0x0A) fullText)
      in if strIncludes firstLine ''CONFIDENCE_SCORE:'' then
           (case (scoreMatch firstLine, labelMatch firstLine) of
              (Some s, Some l) \<Rightarrow>
                 Inr (\<lparr>score = parseIntRadix (Some 10) s, label = l\<rparr>, trim rest)
            | _ \<Rightarrow> Inr (\<lparr>score = Fin 0, label = ''Low''\<rparr>, fullText))
         else Inr (\<lparr>score = Fin 0, label = ''Low''\<rparr>, fullText))"
proof -
  obtain l0 ls where s: "split CHR 0x0A fullText = l0 # ls"
    using split_not_Nil [of "CHR 0x0A" fullText] by (cases "split CHR 0x0A fullText") auto
  have h: "l0 = takeWhile (\<lambda>c. c \<noteq> CHR 0x0A) fullText"
    using hd_split [of "CHR 0x0A" fullText] s by simp
  have t: "join ''\<newline>'' ls = tl (dropWhile (\<lambda>c. c \<noteq> CHR 0x0A) fullText)"
    using tl_split [of "CHR 0x0A" fullText] s by simp
  show ?thesis
    by (simp add: parseMetadata_def s Let_def h [symmetric] t [symmetric] split: option.split)
qed

text \<open>What a match captures: a non-empty run of characters of the class.\<close>

lemma matchHere_Some:
  "matchHere lit cls s = Some g \<Longrightarrow> g \<noteq> [] \<and> (\<forall>c \<in> set g. cls c)"
  by (auto simp: matchHere_def Let_def split: if_splits dest: set_takeWhileD)

lemma matchFirst_Some:
  "matchFirst lit cls s = Some g \<Longrightarrow> g \<noteq> [] \<and> (\<forall>c \<in> set g. cls c)"
proof (induction s)
  case Nil
  then show ?case
    using matchHere_Some [of lit cls "[]" g] by simp
next
  case (Cons c cs)
  show ?case
  proof (cases "matchHere lit cls (c # cs)")
    case None
    with Cons show ?thesis by simp
  next
    case (Some g')
    with Cons.prems have "g' = g" by simp
    with Some show ?thesis
      using matchHere_Some [of lit cls "c # cs" g] by simp
  qed
qed

lemma isDigit_props:
  assumes "isDigit c"
  shows "\<not> isWhiteSpace c" and "c \<noteq> CHR ''-''" and "c \<noteq> CHR ''+''" and "isRadixDigit 10 c"
    and "c \<noteq> CHR 0x0A" and "c \<noteq> CHR ''C''"
  using assms
  by (auto simp: isDigit_def isWhiteSpace_def charCode_def isRadixDigit_def digitValue_def Let_def)

lemma parseInt10_digits:
  assumes "g \<noteq> []" and "\<forall>c \<in> set g. isDigit c"
  shows "parseIntRadix (Some 10) g = toDouble (of_nat (digitsValue 10 0 g))"
proof -
  obtain c cs where g: "g = c # cs"
    using assms(1) by (cases g) auto
  with assms(2) have c: "isDigit c"
    by simp
  have d: "dropWhile isWhiteSpace g = g"
    using g isDigit_props(1) [OF c] by simp
  have t: "takeWhile (isRadixDigit 10) g = g"
    using assms(2) isDigit_props(4) by (simp add: takeWhile_eq_all_conv)
  have p: "\<not> prefix ''-'' g" "\<not> prefix ''+'' g"
    using g isDigit_props(2,3) [OF c] by simp_all
  show ?thesis
    using assms(1) by (simp add: parseIntRadix_def d t p Let_def)
qed

lemma strIncludes_iff: "strIncludes s sub \<longleftrightarrow> (\<exists>pre post. s = pre @ sub @ post)"
proof (induction s)
  case Nil
  show ?case by auto
next
  case (Cons c cs)
  show ?case
  proof
    assume "strIncludes (c # cs) sub"
    then consider "prefix sub (c # cs)" | "strIncludes cs sub"
      by auto
    then show "\<exists>pre post. c # cs = pre @ sub @ post"
    proof cases
      case 1
      then obtain post where "c # cs = sub @ post"
        by (auto elim: prefixE)
      then have "c # cs = [] @ sub @ post"
        by simp
      then show ?thesis
        by blast
    next
      case 2
      with Cons obtain pre post where "cs = pre @ sub @ post"
        by blast
      then have "c # cs = (c # pre) @ sub @ post"
        by simp
      then show ?thesis
        by blast
    qed
  next
    assume "\<exists>pre post. c # cs = pre @ sub @ post"
    then obtain pre post where e: "c # cs = pre @ sub @ post"
      by blast
    show "strIncludes (c # cs) sub"
    proof (cases pre)
      case Nil
      with e have "prefix sub (c # cs)"
        by (simp add: prefix_def)
      then show ?thesis
        by simp
    next
      case (Cons p ps)
      with e have "cs = ps @ sub @ post"
        by simp
      with Cons.IH show ?thesis
        by auto
    qed
  qed
qed

lemma strIncludes_rev: "strIncludes (rev s) (rev sub) = strIncludes s sub"
proof -
  have "(\<exists>pre post. rev s = pre @ rev sub @ post) \<longleftrightarrow> (\<exists>pre post. s = pre @ sub @ post)"
  proof
    assume "\<exists>pre post. rev s = pre @ rev sub @ post"
    then obtain pre post where "rev s = pre @ rev sub @ post"
      by blast
    then have "rev (rev s) = rev (pre @ rev sub @ post)"
      by simp
    then have "s = rev post @ sub @ rev pre"
      by simp
    then show "\<exists>pre post. s = pre @ sub @ post"
      by blast
  next
    assume "\<exists>pre post. s = pre @ sub @ post"
    then obtain pre post where "s = pre @ sub @ post"
      by blast
    then have "rev s = rev post @ rev sub @ rev pre"
      by simp
    then show "\<exists>pre post. rev s = pre @ rev sub @ post"
      by blast
  qed
  then show ?thesis
    by (simp only: strIncludes_iff)
qed

lemma strIncludes_dropWhile:
  assumes "sub \<noteq> []" and "\<not> isWhiteSpace (hd sub)"
  shows "strIncludes (dropWhile isWhiteSpace s) sub = strIncludes s sub"
proof (induction s)
  case Nil
  show ?case by simp
next
  case (Cons c cs)
  show ?case
  proof (cases "isWhiteSpace c")
    case True
    obtain x xs where "sub = x # xs"
      using assms(1) by (cases sub) auto
    with assms(2) True have "\<not> prefix sub (c # cs)"
      by auto
    with True Cons show ?thesis
      by simp
  next
    case False
    then show ?thesis
      by simp
  qed
qed

text \<open>Trimming a line neither adds nor removes an occurrence of the marker.\<close>

lemma strIncludes_trim:
  assumes "sub \<noteq> []" and "\<not> isWhiteSpace (hd sub)" and "\<not> isWhiteSpace (last sub)"
  shows "strIncludes (trim s) sub = strIncludes s sub"
proof -
  have r: "rev sub \<noteq> []" "\<not> isWhiteSpace (hd (rev sub))"
    using assms by (simp_all add: hd_rev)
  have "strIncludes (trim s) sub
        = strIncludes (dropWhile isWhiteSpace (rev (dropWhile isWhiteSpace s))) (rev sub)"
    unfolding trim_def using strIncludes_rev [of "dropWhile isWhiteSpace (rev (dropWhile isWhiteSpace s))" "rev sub"]
    by simp
  also have "\<dots> = strIncludes (rev (dropWhile isWhiteSpace s)) (rev sub)"
    by (rule strIncludes_dropWhile [OF r])
  also have "\<dots> = strIncludes (dropWhile isWhiteSpace s) sub"
    by (rule strIncludes_rev)
  also have "\<dots> = strIncludes s sub"
    by (rule strIncludes_dropWhile [OF assms(1,2)])
  finally show ?thesis .
qed

lemma marker_trim:
  "strIncludes (trim s) ''CONFIDENCE_SCORE:'' = strIncludes s ''CONFIDENCE_SCORE:''"
  by (rule strIncludes_trim) (simp_all add: isWhiteSpace_def)

lemma scoreMatch_value:
  assumes "scoreMatch line = Some s"
  shows "parseIntRadix (Some 10) s = toDouble (of_nat (digitsValue 10 0 s))"
  using assms matchFirst_Some [of "''CONFIDENCE_SCORE:''" isDigit line s]
  by (simp add: scoreMatch_def parseInt10_digits)

lemma parseText_parsed:
  assumes "strIncludes (takeWhile (\<lambda>c. c \<noteq> CHR 0x0A) (textOr t unableText)) ''CONFIDENCE_SCORE:''"
    and "scoreMatch (trim (takeWhile (\<lambda>c. c \<noteq> CHR 0x0A) (textOr t unableText))) = Some s"
    and "labelMatch (trim (takeWhile (\<lambda>c. c \<noteq> CHR 0x0A) (textOr t unableText))) = Some l"
  shows "parseText t = Inr (\<lparr>score = toDouble (of_nat (digitsValue 10 0 s)), label = l\<rparr>,
                            trim (tl (dropWhile (\<lambda>c. c \<noteq> CHR 0x0A) (textOr t unableText))))"
  using assms parseMetadata_eq [of "textOr t unableText", unfolded Let_def marker_trim]
    scoreMatch_value [OF assms(2)]
  by (simp add: parseText_def)

lemma parseText_fallback:
  assumes "\<not> strIncludes (takeWhile (\<lambda>c. c \<noteq> CHR 0x0A) (textOr t unableText)) ''CONFIDENCE_SCORE:''
           \<or> scoreMatch (trim (takeWhile (\<lambda>c. c \<noteq> CHR 0x0A) (textOr t unableText))) = None
           \<or> labelMatch (trim (takeWhile (\<lambda>c. c \<noteq> CHR 0x0A) (textOr t unableText))) = None"
  shows "parseText t = Inr (\<lparr>score = Fin 0, label = ''Low''\<rparr>, textOr t unableText)"
  using assms parseMetadata_eq [of "textOr t unableText", unfolded Let_def marker_trim]
  by (auto simp: parseText_def split: option.splits)

text \<open>
  C3, as stated, fails: for the empty response text the content is the fixed fallback
  text and not the input.
\<close>

theorem parse_empty_text_counterexample:
  "parseText (Some [])
   = Inr (\<lparr>score = Fin 0, label = ''Low''\<rparr>, ''Unable to generate analysis. Please try again.'')"
  by code_simp

text \<open>
  C3, amended. Let the full text be the response text, or the fixed fallback text
  when the response text is absent or empty; let the first line be the full text up
  to its first line feed, and the rest the full text after that line feed. The
  parsing never throws. When the first line contains the marker and both patterns
  match in the trimmed first line, the score is the decimal value of the digits the
  first pattern captures, as a number (the double nearest that value, which is the
  value itself up to 2 to the power 53), the label is the word the second captures,
  and the content is the rest, trimmed. Otherwise the score is 0, the label is Low and
  the content is the full text.
\<close>

theorem parse_response_text:
  "(let fullText = textOr t unableText;
        line1 = takeWhile (\<lambda>c. c \<noteq> CHR 0x0A) fullText;
        rest = tl (dropWhile (\<lambda>c. c \<noteq> CHR 0x0A) fullText)
    in (\<exists>c b. parseText t = Inr (c, b))
       \<and> (\<forall>s l. strIncludes line1 ''CONFIDENCE_SCORE:'' \<and> scoreMatch (trim line1) = Some s
                 \<and> labelMatch (trim line1) = Some l \<longrightarrow>
               parseText t = Inr (\<lparr>score = toDouble (of_nat (digitsValue 10 0 s)), label = l\<rparr>,
                                  trim rest)
               \<and> (digitsValue 10 0 s \<le> 2 ^ 53 \<longrightarrow>
                     parseText t = Inr (\<lparr>score = Fin (of_nat (digitsValue 10 0 s)), label = l\<rparr>,
                                        trim rest)))
       \<and> (\<not> strIncludes line1 ''CONFIDENCE_SCORE:'' \<or> scoreMatch (trim line1) = None
            \<or> labelMatch (trim line1) = None \<longrightarrow>
               parseText t = Inr (\<lparr>score = Fin 0, label = ''Low''\<rparr>, fullText))
       \<and> (\<forall>x. t = Some x \<and> x \<noteq> [] \<longrightarrow> fullText = x)
       \<and> (t = None \<or> t = Some [] \<longrightarrow>
             parseText t = Inr (\<lparr>score = Fin 0, label = ''Low''\<rparr>, unableText)))"
proof -
  let ?full = "textOr t unableText"
  let ?line1 = "takeWhile (\<lambda>c. c \<noteq> CHR 0x0A) ?full"
  let ?rest = "tl (dropWhile (\<lambda>c. c \<noteq> CHR 0x0A) ?full)"
  have ok: "parseText t = Inr (\<lparr>score = toDouble (of_nat (digitsValue 10 0 s)), label = l\<rparr>,
                               trim ?rest)
            \<and> (digitsValue 10 0 s \<le> 2 ^ 53 \<longrightarrow>
                  parseText t = Inr (\<lparr>score = Fin (of_nat (digitsValue 10 0 s)), label = l\<rparr>,
                                     trim ?rest))"
    if "strIncludes ?line1 ''CONFIDENCE_SCORE:''" and "scoreMatch (trim ?line1) = Some s"
      and "labelMatch (trim ?line1) = Some l" for s l
    using parseText_parsed [OF that] by (simp add: toDouble_of_nat)
  have fb: "parseText t = Inr (\<lparr>score = Fin 0, label = ''Low''\<rparr>, ?full)"
    if "\<not> strIncludes ?line1 ''CONFIDENCE_SCORE:'' \<or> scoreMatch (trim ?line1) = None
        \<or> labelMatch (trim ?line1) = None"
    using that by (rule parseText_fallback)
  have tx: "?full = x" if "t = Some x \<and> x \<noteq> []" for x
    using that by (simp add: textOr_def truthy_def)
  have no: "parseText t = Inr (\<lparr>score = Fin 0, label = ''Low''\<rparr>, unableText)"
    if "t = None \<or> t = Some []"
    using that by (intro parseText_no_text) (auto simp: truthyField_def truthy_def)
  show ?thesis
    unfolding Let_def using parseText_Inr [of t] ok fb tx no by blast
qed

theorem parse_response_text_witness:
  "parseText (Some ''CONFIDENCE_SCORE: 72 | CONFIDENCE_LABEL: Medium\<newline>Body text'')
     = Inr (\<lparr>score = Fin 72, label = ''Medium''\<rparr>, ''Body text'')
   \<and> parseText (Some ''I am not sure.\<newline>CONFIDENCE_SCORE: 72 | CONFIDENCE_LABEL: Medium'')
     = Inr (\<lparr>score = Fin 0, label = ''Low''\<rparr>,
            ''I am not sure.\<newline>CONFIDENCE_SCORE: 72 | CONFIDENCE_LABEL: Medium'')
   \<and> parseText None = Inr (\<lparr>score = Fin 0, label = ''Low''\<rparr>, unableText)"
proof -
  let ?a = "''CONFIDENCE_SCORE: 72 | CONFIDENCE_LABEL: Medium\<newline>Body text''"
  let ?b = "''I am not sure.\<newline>CONFIDENCE_SCORE: 72 | CONFIDENCE_LABEL: Medium''"
  let ?la = "takeWhile (\<lambda>c. c \<noteq> CHR 0x0A) (textOr (Some ?a) unableText)"
  let ?lb = "takeWhile (\<lambda>c. c \<noteq> CHR 0x0A) (textOr (Some ?b) unableText)"
  note ta = parse_response_text [of "Some ?a", unfolded Let_def]
  note tb = parse_response_text [of "Some ?b", unfolded Let_def]
  note tn = parse_response_text [of None, unfolded Let_def]
  have ha: "strIncludes ?la ''CONFIDENCE_SCORE:'' \<and> scoreMatch (trim ?la) = Some ''72''
            \<and> labelMatch (trim ?la) = Some ''Medium''"
    by code_simp
  have va: "toDouble (of_nat (digitsValue 10 0 ''72'')) = Fin 72"
    by code_simp
  have ra: "trim (tl (dropWhile (\<lambda>c. c \<noteq> CHR 0x0A) (textOr (Some ?a) unableText))) = ''Body text''"
    by code_simp
  have 1: "parseText (Some ?a) = Inr (\<lparr>score = Fin 72, label = ''Medium''\<rparr>, ''Body text'')"
    using ta [THEN conjunct2, THEN conjunct1, THEN spec, THEN spec, THEN mp, OF ha, THEN conjunct1]
    by (simp only: va ra)
  have hb: "\<not> strIncludes ?lb ''CONFIDENCE_SCORE:'' \<or> scoreMatch (trim ?lb) = None
            \<or> labelMatch (trim ?lb) = None"
    by code_simp
  have fb: "textOr (Some ?b) unableText = ?b"
    by code_simp
  have 2: "parseText (Some ?b) = Inr (\<lparr>score = Fin 0, label = ''Low''\<rparr>, ?b)"
    using tb [THEN conjunct2, THEN conjunct2, THEN conjunct1, THEN mp, OF hb]
    by (simp only: fb)
  have 3: "parseText None = Inr (\<lparr>score = Fin 0, label = ''Low''\<rparr>, unableText)"
    using tn [THEN conjunct2, THEN conjunct2, THEN conjunct2, THEN conjunct2] by simp
  show ?thesis
    by (rule conjI [OF 1 conjI [OF 2 3]])
qed

section \<open>The metadata line, parsed\<close>

lemma matchFirst_here: "matchHere lit cls s = Some g \<Longrightarrow> matchFirst lit cls s = Some g"
  by (cases s) simp_all

lemma matchHere_run:
  assumes "\<forall>c \<in> set ws. isWhiteSpace c" and "g \<noteq> []" and "\<forall>c \<in> set g. cls c \<and> \<not> isWhiteSpace c"
    and "rest = [] \<or> \<not> cls (hd rest)"
  shows "matchHere lit cls (lit @ ws @ g @ rest) = Some g"
proof -
  obtain x xs where g: "g = x # xs"
    using assms(2) by (cases g) auto
  have "dropWhile isWhiteSpace (ws @ g @ rest) = dropWhile isWhiteSpace (g @ rest)"
    using assms(1) by (simp add: dropWhile_append2)
  also have "\<dots> = g @ rest"
    using assms(3) g by simp
  finally have d: "dropWhile isWhiteSpace (ws @ g @ rest) = g @ rest" .
  have "takeWhile cls rest = []"
    using assms(4) by (cases rest) auto
  then have t: "takeWhile cls (g @ rest) = g"
    using assms(3) by (simp add: takeWhile_append2)
  show ?thesis
    using assms(2) by (simp add: matchHere_def d t)
qed

lemma isWordChar_props:
  assumes "isWordChar c"
  shows "\<not> isWhiteSpace c" and "c \<noteq> CHR 0x0A"
  using assms
  by (auto simp: isWordChar_def isDigit_def isWhiteSpace_def charCode_def)

lemma scoreMatch_metadataLine:
  assumes "ds \<noteq> []" and "\<forall>c \<in> set ds. isDigit c"
  shows "scoreMatch (metadataLine ds word) = Some ds"
proof -
  have w: "\<forall>c \<in> set ds. isDigit c \<and> \<not> isWhiteSpace c"
    using assms(2) isDigit_props(1) by blast
  have s: "\<forall>c \<in> set '' ''. isWhiteSpace c"
    by (simp add: isWhiteSpace_def)
  have "matchHere ''CONFIDENCE_SCORE:'' isDigit
          (''CONFIDENCE_SCORE:'' @ '' '' @ ds @ ('' | CONFIDENCE_LABEL: '' @ word)) = Some ds"
    by (rule matchHere_run [OF s assms(1) w]) (simp add: isDigit_def charCode_def)
  then have "matchFirst ''CONFIDENCE_SCORE:'' isDigit
          (''CONFIDENCE_SCORE:'' @ '' '' @ ds @ ('' | CONFIDENCE_LABEL: '' @ word)) = Some ds"
    by (rule matchFirst_here)
  then show ?thesis
    by (simp add: scoreMatch_def metadataLine_def)
qed

lemma labelMatch_skip: "c \<noteq> CHR ''C'' \<Longrightarrow> labelMatch (c # s) = labelMatch s"
  by (simp add: labelMatch_def matchHere_def)

lemma labelMatch_skip_digits: "\<forall>c \<in> set ds. isDigit c \<Longrightarrow> labelMatch (ds @ s) = labelMatch s"
  by (induction ds) (simp_all add: labelMatch_skip isDigit_props(6))

lemma labelMatch_skip_score: "labelMatch (''CONFIDENCE_SCORE: '' @ s) = labelMatch s"
  by (simp add: labelMatch_def matchHere_def)

lemma labelMatch_metadataLine:
  assumes "\<forall>c \<in> set ds. isDigit c" and "word \<noteq> []" and "\<forall>c \<in> set word. isWordChar c"
  shows "labelMatch (metadataLine ds word) = Some word"
proof -
  have w: "\<forall>c \<in> set word. isWordChar c \<and> \<not> isWhiteSpace c"
    using assms(3) isWordChar_props(1) by blast
  have s: "\<forall>c \<in> set '' ''. isWhiteSpace c"
    by (simp add: isWhiteSpace_def)
  have "matchHere ''CONFIDENCE_LABEL:'' isWordChar (''CONFIDENCE_LABEL:'' @ '' '' @ word @ []) = Some word"
    by (rule matchHere_run [OF s assms(2) w]) simp
  then have "matchFirst ''CONFIDENCE_LABEL:'' isWordChar (''CONFIDENCE_LABEL:'' @ '' '' @ word @ []) = Some word"
    by (rule matchFirst_here)
  then have e: "labelMatch (''CONFIDENCE_LABEL: '' @ word) = Some word"
    by (simp add: labelMatch_def)
  have "labelMatch (metadataLine ds word) = labelMatch (ds @ ('' | CONFIDENCE_LABEL: '' @ word))"
    unfolding metadataLine_def by (rule labelMatch_skip_score)
  also have "\<dots> = labelMatch ('' | CONFIDENCE_LABEL: '' @ word)"
    by (rule labelMatch_skip_digits [OF assms(1)])
  also have "\<dots> = labelMatch (''CONFIDENCE_LABEL: '' @ word)"
    by (simp add: labelMatch_skip)
  finally show ?thesis
    using e by simp
qed

lemma dropWhile_hd: "xs \<noteq> [] \<Longrightarrow> \<not> P (hd xs) \<Longrightarrow> dropWhile P xs = xs"
  by (cases xs) simp_all

lemma trim_id:
  assumes "s \<noteq> []" and "\<not> isWhiteSpace (hd s)" and "\<not> isWhiteSpace (last s)"
  shows "trim s = s"
proof -
  have d: "dropWhile isWhiteSpace s = s"
    using assms(1,2) by (rule dropWhile_hd [where P = isWhiteSpace])
  have "rev s \<noteq> []" and "\<not> isWhiteSpace (hd (rev s))"
    using assms by (simp_all add: hd_rev)
  then have "dropWhile isWhiteSpace (rev s) = rev s"
    by (rule dropWhile_hd [where P = isWhiteSpace])
  with d show ?thesis
    by (simp add: trim_def)
qed

lemma trim_metadataLine:
  assumes "word \<noteq> []" and "\<forall>c \<in> set word. isWordChar c"
  shows "trim (metadataLine ds word) = metadataLine ds word"
proof (rule trim_id)
  show "metadataLine ds word \<noteq> []"
    by (simp add: metadataLine_def)
  show "\<not> isWhiteSpace (hd (metadataLine ds word))"
    by (simp add: metadataLine_def isWhiteSpace_def)
  have "last (metadataLine ds word) = last word"
    using assms(1) by (simp add: metadataLine_def)
  then show "\<not> isWhiteSpace (last (metadataLine ds word))"
    using assms isWordChar_props(1) by simp
qed

lemma newline_notin_metadataLine:
  assumes "\<forall>c \<in> set ds. isDigit c" and "\<forall>c \<in> set word. isWordChar c"
  shows "CHR 0x0A \<notin> set (metadataLine ds word)"
  using assms isDigit_props(5) isWordChar_props(2) by (auto simp: metadataLine_def)

lemma takeWhile_until: "d \<notin> set l \<Longrightarrow> takeWhile (\<lambda>c. c \<noteq> d) (l @ d # r) = l"
  by (induction l) auto

lemma dropWhile_until: "d \<notin> set l \<Longrightarrow> dropWhile (\<lambda>c. c \<noteq> d) (l @ d # r) = d # r"
  by (induction l) auto

lemma parseMetadata_metadataLine:
  assumes "ds \<noteq> []" and "\<forall>c \<in> set ds. isDigit c" and "word \<noteq> []" and "\<forall>c \<in> set word. isWordChar c"
  shows "parseMetadata (metadataLine ds word @ CHR 0x0A # body)
         = Inr (\<lparr>score = toDouble (of_nat (digitsValue 10 0 ds)), label = word\<rparr>, trim body)"
proof -
  let ?h = "metadataLine ds word"
  have n: "CHR 0x0A \<notin> set ?h"
    by (rule newline_notin_metadataLine [OF assms(2,4)])
  have t: "takeWhile (\<lambda>c. c \<noteq> CHR 0x0A) (?h @ CHR 0x0A # body) = ?h"
    by (rule takeWhile_until [OF n])
  have d: "tl (dropWhile (\<lambda>c. c \<noteq> CHR 0x0A) (?h @ CHR 0x0A # body)) = body"
    by (simp add: dropWhile_until [OF n])
  have m: "strIncludes ?h ''CONFIDENCE_SCORE:''"
    by (simp add: strIncludes_iff metadataLine_def) (metis append_Nil)
  show ?thesis
    unfolding parseMetadata_eq [of "?h @ CHR 0x0A # body"] Let_def t d
      trim_metadataLine [OF assms(3,4)] scoreMatch_metadataLine [OF assms(1,2)]
      labelMatch_metadataLine [OF assms(2,3,4)]
    using m by (simp add: parseInt10_digits [OF assms(1,2)])
qed

lemma analyzeSymptoms_Inr:
  assumes "analyzeSymptoms gen s i v l w = (Inr r, w')"
  shows "\<exists>resp. fst (gen (analysisRequest s i v l) (outside w)) = Inr resp
           \<and> parseText (responseText resp) = Inr (confidence r, AnalysisResult.content r)"
proof -
  obtain x w1 where g: "generateContent gen (analysisRequest s i v l) w = (x, w1)"
    by (cases "generateContent gen (analysisRequest s i v l) w")
  then have f: "fst (gen (analysisRequest s i v l) (outside w)) = x"
    using generateContent_fst [of gen "analysisRequest s i v l" w] by simp
  show ?thesis
  proof (cases x)
    case (Inl e)
    with g assms show ?thesis
      by (simp add: analyzeSymptoms_throws)
  next
    case (Inr resp)
    obtain cf b where p: "parseText (responseText resp) = Inr (cf, b)"
      using parseText_Inr [of "responseText resp"] by blast
    with g Inr assms have "r = \<lparr>AnalysisResult.content = b, confidence = cf, language = l,
                                 sources = webSources resp\<rparr>"
      by (simp add: analyzeSymptoms_answers)
    with p f Inr show ?thesis
      by auto
  qed
qed

lemma spec_bucketsAgree_fallback: "spec_bucketsAgree \<lparr>score = Fin 0, label = ''Low''\<rparr>"
  by (simp add: spec_bucketsAgree_def)

text \<open>
  The score that a run of digits parses to is within a bucket iff the decimal value of
  the digits is: up to 2 to the power 53 the score is that value, and above it the
  score is no smaller than that power.
\<close>

lemma spec_bucketsAgree_nat:
  "spec_bucketsAgree \<lparr>score = toDouble (of_nat n), label = word\<rparr>
   \<longleftrightarrow> (word = ''High'' \<and> 80 \<le> n \<and> n \<le> 100) \<or> (word = ''Medium'' \<and> 50 \<le> n \<and> n \<le> 79)
       \<or> (word = ''Low'' \<and> n \<le> 49)"
proof (cases "n \<le> 2 ^ 53")
  case True
  have "(80 :: rat) \<le> of_nat n \<longleftrightarrow> 80 \<le> n" "(of_nat n :: rat) \<le> 100 \<longleftrightarrow> n \<le> 100"
    "(50 :: rat) \<le> of_nat n \<longleftrightarrow> 50 \<le> n" "(of_nat n :: rat) \<le> 79 \<longleftrightarrow> n \<le> 79"
    "(of_nat n :: rat) \<le> 49 \<longleftrightarrow> n \<le> 49"
    using of_nat_le_iff [where ?'a = rat] by (metis of_nat_numeral)+
  then show ?thesis
    by (simp add: spec_bucketsAgree_def toDouble_of_nat [OF True])
next
  case False
  then have big: "2 ^ 53 \<le> n"
    by simp
  then have n100: "100 < n"
    by (rule less_le_trans [rotated]) simp
  have "(of_nat (2 ^ 53) :: rat) \<le> of_nat n"
    using big by (simp only: of_nat_le_iff)
  then have "(2 :: rat) powi 53 \<le> of_nat n"
    by simp
  from toDouble_ge_pow [OF this]
  have "toDouble (of_nat n) = PInf \<or> (\<exists>y. toDouble (of_nat n) = Fin y \<and> 2 powi 53 \<le> y)"
    by simp
  then have "\<not> spec_bucketsAgree \<lparr>score = toDouble (of_nat n), label = word\<rparr>"
    by (auto simp: spec_bucketsAgree_def)
  with n100 show ?thesis
    by simp
qed

text \<open>
  C5, as stated, fails: a response whose metadata line pairs the score 95 with the
  label Low gives a result with that pair, which the bucket thresholds exclude; and a
  response whose metadata line does not parse gives a result whose content still
  holds that line.
\<close>

theorem confidence_buckets_counterexample:
  "fst (analyzeSymptoms scripted ''cough'' None None ''English''
         (freshWorld [Inr (textResponse ''CONFIDENCE_SCORE: 95 | CONFIDENCE_LABEL: Low\<newline>Rest.'')]))
     = Inr \<lparr>AnalysisResult.content = ''Rest.'', confidence = \<lparr>score = Fin 95, label = ''Low''\<rparr>,
            language = ''English'', sources = []\<rparr>
   \<and> \<not> spec_bucketsAgree \<lparr>score = Fin 95, label = ''Low''\<rparr>
   \<and> fst (analyzeSymptoms scripted ''cough'' None None ''English''
         (freshWorld [Inr (textResponse ''CONFIDENCE_SCORE: high | CONFIDENCE_LABEL: High\<newline>Rest.'')]))
     = Inr \<lparr>AnalysisResult.content = ''CONFIDENCE_SCORE: high | CONFIDENCE_LABEL: High\<newline>Rest.'',
            confidence = \<lparr>score = Fin 0, label = ''Low''\<rparr>, language = ''English'', sources = []\<rparr>"
  by code_simp

text \<open>
  C5, amended. Every result of the analysis comes from an answer of the remote model,
  and its confidence is what the first line of the answer states, unchecked. Let the
  full text be the text of the answer, or the fixed fallback text when the answer has
  none. When the metadata line is parsed, that is, when the first line holds the
  marker and both patterns match in it, the score is the number that the captured
  digits denote, the label is the captured word, and the content is the text after the
  first line, trimmed: the result agrees with the bucket thresholds iff the digits and
  the word that the remote model wrote do. In particular this is so when the full text
  is a metadata line of digits and a word in the format asked for, a line feed and a
  body. When the metadata line is not parsed, the confidence is 0 and Low, which
  agrees with the thresholds, and the content is the full text, the first line
  included.
\<close>

theorem confidence_copied_from_metadata_line:
  assumes "analyzeSymptoms gen s i v l w = (Inr r, w')"
  shows "\<exists>resp. fst (gen (analysisRequest s i v l) (outside w)) = Inr resp
     \<and> (let fullText = textOr (responseText resp) unableText;
            line1 = takeWhile (\<lambda>c. c \<noteq> CHR 0x0A) fullText;
            rest = tl (dropWhile (\<lambda>c. c \<noteq> CHR 0x0A) fullText);
            parsed = (strIncludes line1 ''CONFIDENCE_SCORE:'' \<and> scoreMatch (trim line1) \<noteq> None
                      \<and> labelMatch (trim line1) \<noteq> None)
        in (\<forall>ds word.
              strIncludes line1 ''CONFIDENCE_SCORE:'' \<and> scoreMatch (trim line1) = Some ds
              \<and> labelMatch (trim line1) = Some word \<longrightarrow>
                confidence r = \<lparr>score = toDouble (of_nat (digitsValue 10 0 ds)), label = word\<rparr>
                \<and> (digitsValue 10 0 ds \<le> 2 ^ 53 \<longrightarrow>
                      confidence r = \<lparr>score = Fin (of_nat (digitsValue 10 0 ds)), label = word\<rparr>)
                \<and> AnalysisResult.content r = trim rest
                \<and> (spec_bucketsAgree (confidence r) \<longleftrightarrow>
                      (word = ''High'' \<and> 80 \<le> digitsValue 10 0 ds \<and> digitsValue 10 0 ds \<le> 100)
                      \<or> (word = ''Medium'' \<and> 50 \<le> digitsValue 10 0 ds \<and> digitsValue 10 0 ds \<le> 79)
                      \<or> (word = ''Low'' \<and> digitsValue 10 0 ds \<le> 49)))
           \<and> (\<forall>ds word body.
              fullText = metadataLine ds word @ CHR 0x0A # body
              \<and> ds \<noteq> [] \<and> (\<forall>c \<in> set ds. isDigit c)
              \<and> word \<noteq> [] \<and> (\<forall>c \<in> set word. isWordChar c) \<longrightarrow>
                parsed
                \<and> confidence r = \<lparr>score = toDouble (of_nat (digitsValue 10 0 ds)), label = word\<rparr>
                \<and> AnalysisResult.content r = trim body)
           \<and> (\<not> parsed \<longrightarrow>
                 confidence r = \<lparr>score = Fin 0, label = ''Low''\<rparr>
                 \<and> spec_bucketsAgree (confidence r)
                 \<and> AnalysisResult.content r = fullText))"
proof -
  from analyzeSymptoms_Inr [OF assms] obtain resp
    where g: "fst (gen (analysisRequest s i v l) (outside w)) = Inr resp"
      and p: "parseText (responseText resp) = Inr (confidence r, AnalysisResult.content r)"
    by blast
  let ?full = "textOr (responseText resp) unableText"
  let ?line1 = "takeWhile (\<lambda>c. c \<noteq> CHR 0x0A) ?full"
  let ?rest = "tl (dropWhile (\<lambda>c. c \<noteq> CHR 0x0A) ?full)"
  let ?parsed = "strIncludes ?line1 ''CONFIDENCE_SCORE:'' \<and> scoreMatch (trim ?line1) \<noteq> None
                      \<and> labelMatch (trim ?line1) \<noteq> None"
  have par: "confidence r = \<lparr>score = toDouble (of_nat (digitsValue 10 0 ds)), label = word\<rparr>
             \<and> (digitsValue 10 0 ds \<le> 2 ^ 53 \<longrightarrow>
                   confidence r = \<lparr>score = Fin (of_nat (digitsValue 10 0 ds)), label = word\<rparr>)
             \<and> AnalysisResult.content r = trim ?rest
             \<and> (spec_bucketsAgree (confidence r) \<longleftrightarrow>
                   (word = ''High'' \<and> 80 \<le> digitsValue 10 0 ds \<and> digitsValue 10 0 ds \<le> 100)
                   \<or> (word = ''Medium'' \<and> 50 \<le> digitsValue 10 0 ds \<and> digitsValue 10 0 ds \<le> 79)
                   \<or> (word = ''Low'' \<and> digitsValue 10 0 ds \<le> 49))"
    if h: "strIncludes ?line1 ''CONFIDENCE_SCORE:'' \<and> scoreMatch (trim ?line1) = Some ds
        \<and> labelMatch (trim ?line1) = Some word"
    for ds word
  proof -
    from h have h1: "strIncludes ?line1 ''CONFIDENCE_SCORE:''"
      and h2: "scoreMatch (trim ?line1) = Some ds" and h3: "labelMatch (trim ?line1) = Some word"
      by simp_all
    from parseText_parsed [OF h1 h2 h3] p
    have c: "confidence r = \<lparr>score = toDouble (of_nat (digitsValue 10 0 ds)), label = word\<rparr>"
      and b: "AnalysisResult.content r = trim ?rest"
      by simp_all
    have e: "digitsValue 10 0 ds \<le> 2 ^ 53 \<longrightarrow>
          confidence r = \<lparr>score = Fin (of_nat (digitsValue 10 0 ds)), label = word\<rparr>"
      using c by (simp add: toDouble_of_nat)
    have a: "spec_bucketsAgree (confidence r) \<longleftrightarrow>
                   (word = ''High'' \<and> 80 \<le> digitsValue 10 0 ds \<and> digitsValue 10 0 ds \<le> 100)
                   \<or> (word = ''Medium'' \<and> 50 \<le> digitsValue 10 0 ds \<and> digitsValue 10 0 ds \<le> 79)
                   \<or> (word = ''Low'' \<and> digitsValue 10 0 ds \<le> 49)"
      unfolding c by (rule spec_bucketsAgree_nat)
    show ?thesis
      by (rule conjI [OF c conjI [OF e conjI [OF b a]]])
  qed
  have fmt: "?parsed
             \<and> confidence r = \<lparr>score = toDouble (of_nat (digitsValue 10 0 ds)), label = word\<rparr>
             \<and> AnalysisResult.content r = trim body"
    if h: "?full = metadataLine ds word @ CHR 0x0A # body
        \<and> ds \<noteq> [] \<and> (\<forall>c \<in> set ds. isDigit c) \<and> word \<noteq> [] \<and> (\<forall>c \<in> set word. isWordChar c)"
    for ds word body
  proof -
    from h have f: "?full = metadataLine ds word @ CHR 0x0A # body"
      and d: "ds \<noteq> []" "\<forall>c \<in> set ds. isDigit c" and wd: "word \<noteq> []" "\<forall>c \<in> set word. isWordChar c"
      by simp_all
    have n: "CHR 0x0A \<notin> set (metadataLine ds word)"
      by (rule newline_notin_metadataLine [OF d(2) wd(2)])
    have l1: "?line1 = metadataLine ds word"
      unfolding f by (rule takeWhile_until [OF n])
    have t: "trim ?line1 = metadataLine ds word"
      unfolding l1 by (rule trim_metadataLine [OF wd])
    have m: "strIncludes ?line1 ''CONFIDENCE_SCORE:''"
      unfolding l1 by (simp add: strIncludes_iff metadataLine_def) (metis append_Nil)
    have sm: "scoreMatch (trim ?line1) = Some ds"
      unfolding t by (rule scoreMatch_metadataLine [OF d])
    have lm: "labelMatch (trim ?line1) = Some word"
      unfolding t by (rule labelMatch_metadataLine [OF d(2) wd])
    have pd: ?parsed
      using m sm lm by simp
    from f have "parseMetadata ?full
          = Inr (\<lparr>score = toDouble (of_nat (digitsValue 10 0 ds)), label = word\<rparr>, trim body)"
      by (simp add: parseMetadata_metadataLine [OF d wd])
    with p have c: "confidence r = \<lparr>score = toDouble (of_nat (digitsValue 10 0 ds)), label = word\<rparr>"
      and b: "AnalysisResult.content r = trim body"
      by (simp_all add: parseText_def)
    show ?thesis
      by (rule conjI [OF pd conjI [OF c b]])
  qed
  have fb: "confidence r = \<lparr>score = Fin 0, label = ''Low''\<rparr>
            \<and> spec_bucketsAgree (confidence r) \<and> AnalysisResult.content r = ?full"
    if "\<not> ?parsed"
  proof -
    from that have "\<not> strIncludes ?line1 ''CONFIDENCE_SCORE:'' \<or> scoreMatch (trim ?line1) = None
           \<or> labelMatch (trim ?line1) = None"
      by blast
    from parseText_fallback [OF this] p
    have "confidence r = \<lparr>score = Fin 0, label = ''Low''\<rparr>" and "AnalysisResult.content r = ?full"
      by simp_all
    then show ?thesis
      using spec_bucketsAgree_fallback by simp
  qed
  have all: "(\<forall>ds word.
              strIncludes ?line1 ''CONFIDENCE_SCORE:'' \<and> scoreMatch (trim ?line1) = Some ds
              \<and> labelMatch (trim ?line1) = Some word \<longrightarrow>
                confidence r = \<lparr>score = toDouble (of_nat (digitsValue 10 0 ds)), label = word\<rparr>
                \<and> (digitsValue 10 0 ds \<le> 2 ^ 53 \<longrightarrow>
                      confidence r = \<lparr>score = Fin (of_nat (digitsValue 10 0 ds)), label = word\<rparr>)
                \<and> AnalysisResult.content r = trim ?rest
                \<and> (spec_bucketsAgree (confidence r) \<longleftrightarrow>
                      (word = ''High'' \<and> 80 \<le> digitsValue 10 0 ds \<and> digitsValue 10 0 ds \<le> 100)
                      \<or> (word = ''Medium'' \<and> 50 \<le> digitsValue 10 0 ds \<and> digitsValue 10 0 ds \<le> 79)
                      \<or> (word = ''Low'' \<and> digitsValue 10 0 ds \<le> 49)))
           \<and> (\<forall>ds word body.
              ?full = metadataLine ds word @ CHR 0x0A # body
              \<and> ds \<noteq> [] \<and> (\<forall>c \<in> set ds. isDigit c)
              \<and> word \<noteq> [] \<and> (\<forall>c \<in> set word. isWordChar c) \<longrightarrow>
                ?parsed
                \<and> confidence r = \<lparr>score = toDouble (of_nat (digitsValue 10 0 ds)), label = word\<rparr>
                \<and> AnalysisResult.content r = trim body)
           \<and> (\<not> ?parsed \<longrightarrow>
                 confidence r = \<lparr>score = Fin 0, label = ''Low''\<rparr>
                 \<and> spec_bucketsAgree (confidence r)
                 \<and> AnalysisResult.content r = ?full)"
    using par fmt fb by (intro conjI allI impI) blast+
  show ?thesis
    unfolding Let_def by (rule exI [of _ resp]) (rule conjI [OF g all])
qed

theorem confidence_copied_from_metadata_line_witness:
  "fst (analyzeSymptoms scripted ''cough'' None None ''English'' (freshWorld mediumAnswer))
     = Inr \<lparr>AnalysisResult.content = ''Rest.'', confidence = \<lparr>score = Fin 72, label = ''Medium''\<rparr>,
            language = ''English'', sources = []\<rparr>
   \<and> spec_bucketsAgree \<lparr>score = Fin 72, label = ''Medium''\<rparr>"
proof -
  let ?w = "freshWorld mediumAnswer"
  let ?req = "analysisRequest ''cough'' None None ''English''"
  let ?out = "analyzeSymptoms scripted ''cough'' None None ''English'' ?w"
  let ?resp = "textResponse ''CONFIDENCE_SCORE: 72 | CONFIDENCE_LABEL: Medium\<newline>Rest.''"
  have "(case fst ?out of Inl e \<Rightarrow> False | Inr x \<Rightarrow> language x = ''English'' \<and> sources x = [])"
    by code_simp
  then obtain r where fr: "fst ?out = Inr r" and ls: "language r = ''English''" "sources r = []"
    by (cases "fst ?out") auto
  from fr have a: "?out = (Inr r, snd ?out)"
    by (metis prod.collapse)
  have g: "fst (scripted ?req (outside ?w)) = Inr ?resp"
    by (simp add: freshWorld_def mediumAnswer_def)
  from confidence_copied_from_metadata_line [OF a, unfolded Let_def g]
  obtain resp where e0: "Inr ?resp = (Inr resp :: jsError + GenerateContentResponse)"
    and f: "\<forall>ds word.
              strIncludes (takeWhile (\<lambda>c. c \<noteq> CHR 0x0A) (textOr (responseText resp) unableText))
                 ''CONFIDENCE_SCORE:''
              \<and> scoreMatch (trim (takeWhile (\<lambda>c. c \<noteq> CHR 0x0A) (textOr (responseText resp) unableText)))
                  = Some ds
              \<and> labelMatch (trim (takeWhile (\<lambda>c. c \<noteq> CHR 0x0A) (textOr (responseText resp) unableText)))
                  = Some word \<longrightarrow>
                confidence r = \<lparr>score = toDouble (of_nat (digitsValue 10 0 ds)), label = word\<rparr>
                \<and> (digitsValue 10 0 ds \<le> 2 ^ 53 \<longrightarrow>
                      confidence r = \<lparr>score = Fin (of_nat (digitsValue 10 0 ds)), label = word\<rparr>)
                \<and> AnalysisResult.content r
                    = trim (tl (dropWhile (\<lambda>c. c \<noteq> CHR 0x0A) (textOr (responseText resp) unableText)))
                \<and> (spec_bucketsAgree (confidence r) \<longleftrightarrow>
                      (word = ''High'' \<and> 80 \<le> digitsValue 10 0 ds \<and> digitsValue 10 0 ds \<le> 100)
                      \<or> (word = ''Medium'' \<and> 50 \<le> digitsValue 10 0 ds \<and> digitsValue 10 0 ds \<le> 79)
                      \<or> (word = ''Low'' \<and> digitsValue 10 0 ds \<le> 49))"
    by blast
  from e0 have e: "resp = ?resp"
    by simp
  have h: "strIncludes (takeWhile (\<lambda>c. c \<noteq> CHR 0x0A) (textOr (responseText ?resp) unableText))
                 ''CONFIDENCE_SCORE:''
              \<and> scoreMatch (trim (takeWhile (\<lambda>c. c \<noteq> CHR 0x0A) (textOr (responseText ?resp) unableText)))
                  = Some ''72''
              \<and> labelMatch (trim (takeWhile (\<lambda>c. c \<noteq> CHR 0x0A) (textOr (responseText ?resp) unableText)))
                  = Some ''Medium''"
    by code_simp
  note k = f [unfolded e, THEN spec, THEN spec, THEN mp, OF h]
  have n: "digitsValue 10 0 ''72'' = 72"
    by code_simp
  have t: "trim (tl (dropWhile (\<lambda>c. c \<noteq> CHR 0x0A) (textOr (responseText ?resp) unableText))) = ''Rest.''"
    by code_simp
  have 1: "confidence r = \<lparr>score = Fin 72, label = ''Medium''\<rparr>"
    using k [THEN conjunct2, THEN conjunct1] unfolding n by simp
  have 2: "AnalysisResult.content r = ''Rest.''"
    using k [THEN conjunct2, THEN conjunct2, THEN conjunct1] by (simp only: t)
  have 3: "spec_bucketsAgree (confidence r)"
    using k [THEN conjunct2, THEN conjunct2, THEN conjunct2] unfolding n by simp
  have r: "r = \<lparr>AnalysisResult.content = ''Rest.'', confidence = \<lparr>score = Fin 72, label = ''Medium''\<rparr>,
            language = ''English'', sources = []\<rparr>"
    using 1 2 ls by (cases r) simp
  have o: "fst ?out = Inr \<lparr>AnalysisResult.content = ''Rest.'',
            confidence = \<lparr>score = Fin 72, label = ''Medium''\<rparr>, language = ''English'', sources = []\<rparr>"
    using fr unfolding r .
  have b: "spec_bucketsAgree \<lparr>score = Fin 72, label = ''Medium''\<rparr>"
    using 3 unfolding 1 .
  show ?thesis
    by (rule conjI [OF o b])
qed

section \<open>Properties of the trend analysis\<close>

lemma parseInt_zero: "parseInt ''0'' = Fin 0"
  by code_simp

lemma spec_recent_eq: "spec_recent hist = take 5 (filter hasVitals hist)"
  by (simp add: spec_recent_def hasVitals_def [abs_def])

text \<open>
  An item without the field adds 0 to the sum, and adding 0 to a sum changes nothing,
  since every sum is a double; so the items without the field are out of the sum, as
  they are out of the divisor.
\<close>

lemma hrOf_missing: "\<not> hasHr h \<Longrightarrow> hrOf h = Fin 0"
  by (cases "vitals h") (simp_all add: hrOf_def hasHr_def parseInt_zero orZero_def)

lemma spec_heartRates_Cons:
  "spec_heartRates (h # items) = (if hasHr h then [hrOf h] else []) @ spec_heartRates items"
  by (cases "vitals h") (simp_all add: spec_heartRates_def hasHr_def hrOf_def truthy_def)

lemma jadd_zero: "(\<And>a. acc = Fin a \<Longrightarrow> toDouble a = Fin a) \<Longrightarrow> jadd acc (Fin 0) = acc"
  by (cases acc) simp_all

lemma jadd_double: "jadd x y = Fin a \<Longrightarrow> toDouble a = Fin a"
  by (cases x; cases y) (auto dest: toDouble_idem)

lemma foldl_hrOf:
  assumes "\<And>a. acc = Fin a \<Longrightarrow> toDouble a = Fin a"
  shows "foldl (\<lambda>acc h. jadd acc (hrOf h)) acc items = foldl jadd acc (spec_heartRates items)"
  using assms
proof (induction items arbitrary: acc)
  case Nil
  show ?case
    by (simp add: spec_heartRates_def)
next
  case (Cons h items)
  show ?case
  proof (cases "hasHr h")
    case True
    have "foldl (\<lambda>acc h. jadd acc (hrOf h)) (jadd acc (hrOf h)) items
          = foldl jadd (jadd acc (hrOf h)) (spec_heartRates items)"
      by (rule Cons.IH) (rule jadd_double)
    with True show ?thesis
      by (simp add: spec_heartRates_Cons)
  next
    case False
    have z: "jadd acc (hrOf h) = acc"
      unfolding hrOf_missing [OF False] by (rule jadd_zero) (rule Cons.prems)
    have "foldl (\<lambda>acc h. jadd acc (hrOf h)) acc items = foldl jadd acc (spec_heartRates items)"
      by (rule Cons.IH) (rule Cons.prems)
    with False z show ?thesis
      by (simp add: spec_heartRates_Cons)
  qed
qed

lemma count_hasHr: "length (filter hasHr items) = length (spec_heartRates items)"
proof (induction items)
  case Nil
  show ?case
    by (simp add: spec_heartRates_def)
next
  case (Cons h items)
  then show ?case
    by (simp add: spec_heartRates_Cons)
qed

lemma avgHROf_eq: "avgHROf items = spec_mean (spec_heartRates items)"
proof -
  have "foldl (\<lambda>acc h. jadd acc (hrOf h)) (Fin 0) items = foldl jadd (Fin 0) (spec_heartRates items)"
    by (rule foldl_hrOf) simp
  then show ?thesis
    by (simp add: avgHROf_def spec_mean_def count_hasHr)
qed

text \<open>
  A sum of natural numbers that stays within 2 to the power 53 is exact, so the mean of
  such heart rates is their exact arithmetic mean, rounded once.
\<close>

lemma foldl_jadd_exact:
  assumes "\<forall>k \<in> set ks. 0 \<le> k" and "0 \<le> a" and "a + sum_list ks \<le> 2 ^ 53"
  shows "foldl jadd (Fin (of_int a)) (map (\<lambda>k. Fin (of_int k)) ks) = Fin (of_int (a + sum_list ks))"
  using assms
proof (induction ks arbitrary: a)
  case Nil
  show ?case
    by simp
next
  case (Cons k ks)
  from Cons.prems have k: "0 \<le> k" and rest: "\<forall>x \<in> set ks. 0 \<le> x"
    by simp_all
  have s: "0 \<le> sum_list ks"
    using rest by (intro sum_list_nonneg) simp
  have small: "\<bar>a + k\<bar> \<le> 2 ^ 53"
    using Cons.prems(2,3) k s by simp
  have "jadd (Fin (of_int a)) (Fin (of_int k)) = toDouble (of_int (a + k))"
    by simp
  also have "\<dots> = Fin (of_int (a + k))"
    by (rule toDouble_of_int [OF small])
  finally have j: "jadd (Fin (of_int a)) (Fin (of_int k)) = Fin (of_int (a + k))" .
  have i: "foldl jadd (Fin (of_int (a + k))) (map (\<lambda>k. Fin (of_int k)) ks)
        = Fin (of_int (a + k + sum_list ks))"
    by (rule Cons.IH [OF rest]) (use Cons.prems(2,3) k in simp_all)
  have "foldl jadd (Fin (of_int a)) (map (\<lambda>k. Fin (of_int k)) (k # ks))
        = foldl jadd (jadd (Fin (of_int a)) (Fin (of_int k))) (map (\<lambda>k. Fin (of_int k)) ks)"
    by (simp only: list.map foldl_Cons)
  also have "\<dots> = Fin (of_int (a + k + sum_list ks))"
    unfolding j by (rule i)
  also have "a + k + sum_list ks = a + sum_list (k # ks)"
    by simp
  finally show ?case .
qed

lemma spec_mean_exact:
  assumes "ks \<noteq> []" and "\<forall>k \<in> set ks. 0 \<le> k" and "sum_list ks \<le> 2 ^ 53"
  shows "spec_mean (map (\<lambda>k. Fin (of_int k)) ks)
         = toDouble (of_int (sum_list ks) / of_nat (length ks))"
proof -
  have "foldl jadd (Fin (of_int 0)) (map (\<lambda>k. Fin (of_int k)) ks) = Fin (of_int (0 + sum_list ks))"
    by (rule foldl_jadd_exact [OF assms(2)]) (use assms(3) in simp_all)
  then have "foldl jadd (Fin 0) (map (\<lambda>k. Fin (of_int k)) ks) = Fin (of_int (sum_list ks))"
    by simp
  then show ?thesis
    using assms(1) by (simp add: spec_mean_def)
qed

text \<open>
  The rounding keeps the sign: the rounding of a number that is not positive is not
  positive, and likewise the difference, the quotient by a positive number and the
  product by 100.
\<close>

lemma toDouble_nonpos: "x \<le> 0 \<Longrightarrow> \<not> jgt (toDouble x) (Fin 0)"
  using toDouble_cases [of x] by auto

lemma toDouble_nonneg: "0 \<le> x \<Longrightarrow> \<not> jgt (Fin 0) (toDouble x)"
  using toDouble_cases [of x] by auto

lemma jsub_nonpos: "\<not> jgt c m \<Longrightarrow> \<not> jgt (jsub c m) (Fin 0)"
  by (cases c; cases m) (simp_all add: jsub_def toDouble_nonpos)

lemma jsub_nonneg: "\<not> jgt m c \<Longrightarrow> \<not> jgt (Fin 0) (jsub c m)"
  by (cases c; cases m) (simp_all add: jsub_def toDouble_nonneg)

lemma jdiv_nonpos: "\<not> jgt d (Fin 0) \<Longrightarrow> jgt m (Fin 0) \<Longrightarrow> \<not> jgt (jdiv d m) (Fin 0)"
  by (cases d; cases m)
     (simp_all add: toDouble_nonpos divide_nonpos_pos infOfSign_def)

lemma jdiv_nonneg: "\<not> jgt (Fin 0) d \<Longrightarrow> jgt m (Fin 0) \<Longrightarrow> \<not> jgt (Fin 0) (jdiv d m)"
  by (cases d; cases m)
     (simp_all add: toDouble_nonneg infOfSign_def)

lemma jmul_nonpos: "\<not> jgt q (Fin 0) \<Longrightarrow> \<not> jgt (jmul q (Fin 100)) (Fin 0)"
  by (cases q) (simp_all add: toDouble_nonpos mult_nonpos_nonneg infOfSign_def)

lemma jmul_nonneg: "\<not> jgt (Fin 0) q \<Longrightarrow> \<not> jgt (Fin 0) (jmul q (Fin 100))"
  by (cases q) (simp_all add: toDouble_nonneg infOfSign_def)

lemma jgt_asym: "jgt a b \<Longrightarrow> \<not> jgt b a"
  by (cases a; cases b) simp_all

lemma percent_direction:
  assumes "jgt m (Fin 0)" and "jgt (jabs (spec_percent c m)) (Fin 10)"
  shows "jgt (spec_percent c m) (Fin 0) \<longleftrightarrow> jgt c m"
proof
  assume pos: "jgt (spec_percent c m) (Fin 0)"
  show "jgt c m"
  proof (rule ccontr)
    assume "\<not> jgt c m"
    then have "\<not> jgt (jsub c m) (Fin 0)"
      by (rule jsub_nonpos)
    then have "\<not> jgt (jdiv (jsub c m) m) (Fin 0)"
      using assms(1) by (rule jdiv_nonpos)
    then have "\<not> jgt (spec_percent c m) (Fin 0)"
      unfolding spec_percent_def by (rule jmul_nonpos)
    with pos show False
      by simp
  qed
next
  assume "jgt c m"
  then have "\<not> jgt m c"
    by (rule jgt_asym)
  then have "\<not> jgt (Fin 0) (jsub c m)"
    by (rule jsub_nonneg)
  then have "\<not> jgt (Fin 0) (jdiv (jsub c m) m)"
    using assms(1) by (rule jdiv_nonneg)
  then have "\<not> jgt (Fin 0) (spec_percent c m)"
    unfolding spec_percent_def by (rule jmul_nonneg)
  with assms(2) show "jgt (spec_percent c m) (Fin 0)"
    by (cases "spec_percent c m") auto
qed

text \<open>
  Rounding and then dropping the sign is dropping the sign and then rounding, except
  at a negative number halfway between two integers.
\<close>

lemma abs_round:
  assumes "\<not> negativeTie x"
  shows "jabs (jround x) = jround (jabs x)"
proof (cases x)
  case (Fin a)
  define f where "f = \<lfloor>a + 1 / 2\<rfloor>"
  have lo: "of_int f \<le> a + 1 / 2" and hi: "a + 1 / 2 < of_int f + 1"
    unfolding f_def by linarith+
  have "\<bar>of_int f :: rat\<bar> = of_int \<lfloor>\<bar>a\<bar> + 1 / 2\<rfloor>"
  proof (cases "0 \<le> a")
    case True
    then have "0 \<le> f"
      unfolding f_def by simp
    with True show ?thesis
      by (simp add: f_def)
  next
    case False
    then have neg: "a < 0"
      by simp
    with assms Fin have "of_int f \<noteq> a + 1 / 2"
      by (simp add: negativeTie_def f_def)
    with lo have lt: "of_int f < a + 1 / 2"
      by simp
    have "f \<le> 0"
    proof -
      have "a + 1 / 2 < 1"
        using neg by simp
      then have "\<lfloor>a + 1 / 2\<rfloor> < 1"
        by (simp only: floor_less_iff of_int_1)
      then show ?thesis
        by (simp add: f_def)
    qed
    then have l: "\<bar>of_int f :: rat\<bar> = of_int (- f)"
      by simp
    have "\<lfloor>- a + 1 / 2\<rfloor> = - f"
      by (rule floor_unique) (use lt hi in simp_all)
    with neg l show ?thesis
      by simp
  qed
  with Fin show ?thesis
    by (simp add: f_def)
qed simp_all

text \<open>The block of the heart rate, with the mean and the percent change named.\<close>

lemma heartRateTrend_eq:
  "heartRateTrend cv items [] =
     (if hr cv \<noteq> [] \<and> jgt (spec_mean (spec_heartRates items)) (Fin 0)
         \<and> jgt (jabs (spec_percent (parseInt (hr cv)) (spec_mean (spec_heartRates items)))) (Fin 10)
      then [\<lparr>metric = ''Heart Rate'',
             change = numToString (jabs (jround
                        (spec_percent (parseInt (hr cv)) (spec_mean (spec_heartRates items))))) @ ''%'',
             direction =
               (if jgt (spec_percent (parseInt (hr cv)) (spec_mean (spec_heartRates items))) (Fin 0)
                then up else down),
             message =
               (if jgt (spec_percent (parseInt (hr cv)) (spec_mean (spec_heartRates items))) (Fin 0)
                then ''Significant increase compared to your recent average. Monitor for fatigue.''
                else ''Lower than your recent average.'')\<rparr>]
      else [])"
  by (simp add: heartRateTrend_def avgHROf_eq spec_percent_def Let_def truthy_def)

lemma calculateTrends_eq:
  "calculateTrends cv hist = heartRateTrend cv (spec_recent hist) []"
proof (cases "spec_recent hist = []")
  case True
  then have "spec_mean (spec_heartRates (spec_recent hist)) = NaN"
    by (simp add: spec_heartRates_def spec_mean_def)
  with True show ?thesis
    by (simp add: calculateTrends_def spec_recent_eq [symmetric] heartRateTrend_eq)
next
  case False
  then show ?thesis
    by (simp add: calculateTrends_def spec_recent_eq [symmetric])
qed

text \<open>
  C4, as stated, fails, in two ways. With the recent heart rates 67, 67 and 66 the mean
  is 200/3, and the current value 60 differs from it by exactly 10 percent, which is
  not more than 10 percent; yet an insight is given, because the mean, the quotient and
  the percent are each rounded to a double, and the percent so computed is above 10.
  And with the mean 80, the current values 90 and 70 differ from the mean by the same
  absolute percent, 12.5, which the doubles hold exactly, and the changes reported are
  13% and 12%: the code rounds the signed percent, a tie upwards, and drops the sign
  afterwards.
\<close>

theorem trend_rounding_counterexample:
  "calculateTrends (hrOnly ''60'') [sampleItem 1 ''67'', sampleItem 2 ''67'', sampleItem 3 ''66'']
     = [\<lparr>metric = ''Heart Rate'', change = ''10%'', direction = down,
         message = ''Lower than your recent average.''\<rparr>]
   \<and> \<bar>(60 - (67 + 67 + 66) / 3) / ((67 + 67 + 66) / 3) * 100 :: rat\<bar> = 10
   \<and> calculateTrends (hrOnly ''90'') [sampleItem 1 ''80'']
     = [\<lparr>metric = ''Heart Rate'', change = ''13%'', direction = up,
         message = ''Significant increase compared to your recent average. Monitor for fatigue.''\<rparr>]
   \<and> calculateTrends (hrOnly ''70'') [sampleItem 1 ''80'']
     = [\<lparr>metric = ''Heart Rate'', change = ''12%'', direction = down,
         message = ''Lower than your recent average.''\<rparr>]
   \<and> \<bar>(90 - 80) / 80 * 100 :: rat\<bar> = \<bar>(70 - 80) / 80 * 100\<bar>"
  by code_simp

text \<open>
  C4, amended. The trend analysis reads at most five items, the first five of the
  history that carry vitals, and nothing else of the history; it gives at most one
  insight, and none when no item carries vitals. Let \<open>c\<close> be the number the current
  heart rate parses to, \<open>m\<close> the mean of the heart rates of the recent items that have
  one (an item without the field is out of the sum and out of the divisor), and \<open>pc\<close>
  the percent change of \<open>c\<close> against \<open>m\<close>, all three as the double arithmetic of the
  program computes them; when the heart rates are natural numbers whose sum stays
  within 2 to the power 53, \<open>m\<close> is their exact arithmetic mean, rounded to a double.
  There is an insight iff a current heart rate is entered, \<open>m\<close>
  is positive and \<open>pc\<close> is above 10 in magnitude. Its direction is up iff \<open>c > m\<close>, and
  down otherwise. Its change is the magnitude of \<open>pc\<close> rounded to the nearest integer,
  a tie upwards; this is stated for every \<open>pc\<close> except a negative one that lies halfway
  between two integers.
\<close>

theorem trend_analysis_in_double_arithmetic:
  "length (spec_recent hist) \<le> 5
   \<and> calculateTrends cv hist = calculateTrends cv (spec_recent hist)
   \<and> length (calculateTrends cv hist) \<le> 1
   \<and> ((\<forall>h \<in> set hist. vitals h = None) \<longrightarrow> calculateTrends cv hist = [])
   \<and> (\<forall>ks. ks \<noteq> [] \<and> (\<forall>k \<in> set ks. 0 \<le> k) \<and> sum_list ks \<le> 2 ^ 53
            \<and> spec_heartRates (spec_recent hist) = map (\<lambda>k. Fin (of_int k)) ks \<longrightarrow>
          spec_mean (spec_heartRates (spec_recent hist))
          = toDouble (of_int (sum_list ks) / of_nat (length ks)))
   \<and> (let c = parseInt (hr cv);
           m = spec_mean (spec_heartRates (spec_recent hist));
           pc = spec_percent c m
       in (calculateTrends cv hist \<noteq> [] \<longleftrightarrow>
             hr cv \<noteq> [] \<and> jgt m (Fin 0) \<and> jgt (jabs pc) (Fin 10))
          \<and> (\<forall>t \<in> set (calculateTrends cv hist).
                metric t = ''Heart Rate''
                \<and> (direction t = up \<longleftrightarrow> jgt c m)
                \<and> (direction t = down \<longleftrightarrow> \<not> jgt c m)
                \<and> (\<not> negativeTie pc \<longrightarrow> change t = numToString (jround (jabs pc)) @ ''%'')))"
proof -
  define c where "c = parseInt (hr cv)"
  define m where "m = spec_mean (spec_heartRates (spec_recent hist))"
  define pc where "pc = spec_percent c m"
  define cond where "cond \<longleftrightarrow> hr cv \<noteq> [] \<and> jgt m (Fin 0) \<and> jgt (jabs pc) (Fin 10)"
  have e: "calculateTrends cv hist =
     (if cond
      then [\<lparr>metric = ''Heart Rate'',
             change = numToString (jabs (jround pc)) @ ''%'',
             direction = (if jgt pc (Fin 0) then up else down),
             message =
               (if jgt pc (Fin 0)
                then ''Significant increase compared to your recent average. Monitor for fatigue.''
                else ''Lower than your recent average.'')\<rparr>]
      else [])"
    unfolding calculateTrends_eq heartRateTrend_eq cond_def pc_def m_def c_def by (rule refl)
  have 1: "length (spec_recent hist) \<le> 5"
    by (simp add: spec_recent_def)
  have 2: "calculateTrends cv hist = calculateTrends cv (spec_recent hist)"
    unfolding spec_recent_eq by (rule calculateTrends_recent)
  have 3: "length (calculateTrends cv hist) \<le> 1"
    unfolding e by simp
  have 4: "(\<forall>h \<in> set hist. vitals h = None) \<longrightarrow> calculateTrends cv hist = []"
  proof
    assume "\<forall>h \<in> set hist. vitals h = None"
    then have "filter hasVitals hist = []"
      by (simp add: hasVitals_def filter_empty_conv)
    then show "calculateTrends cv hist = []"
      by (simp add: calculateTrends_def)
  qed
  have 0: "\<forall>ks. ks \<noteq> [] \<and> (\<forall>k \<in> set ks. 0 \<le> k) \<and> sum_list ks \<le> 2 ^ 53
            \<and> spec_heartRates (spec_recent hist) = map (\<lambda>k. Fin (of_int k)) ks \<longrightarrow>
          spec_mean (spec_heartRates (spec_recent hist))
          = toDouble (of_int (sum_list ks) / of_nat (length ks))"
  proof (intro allI impI)
    fix ks :: "int list"
    assume h: "ks \<noteq> [] \<and> (\<forall>k \<in> set ks. 0 \<le> k) \<and> sum_list ks \<le> 2 ^ 53
            \<and> spec_heartRates (spec_recent hist) = map (\<lambda>k. Fin (of_int k)) ks"
    then have a: "ks \<noteq> []" and b: "\<forall>k \<in> set ks. 0 \<le> k" and c: "sum_list ks \<le> 2 ^ 53"
      and d: "spec_heartRates (spec_recent hist) = map (\<lambda>k. Fin (of_int k)) ks"
      by simp_all
    show "spec_mean (spec_heartRates (spec_recent hist))
          = toDouble (of_int (sum_list ks) / of_nat (length ks))"
      unfolding d by (rule spec_mean_exact [OF a b c])
  qed
  have 5: "calculateTrends cv hist \<noteq> [] \<longleftrightarrow> cond"
    unfolding e by simp
  have 6: "metric t = ''Heart Rate''
           \<and> (direction t = up \<longleftrightarrow> jgt c m)
           \<and> (direction t = down \<longleftrightarrow> \<not> jgt c m)
           \<and> (\<not> negativeTie pc \<longrightarrow> change t = numToString (jround (jabs pc)) @ ''%'')"
    if t: "t \<in> set (calculateTrends cv hist)" for t
  proof -
    from t have cd: cond
      unfolding e by (simp split: if_splits)
    then have d: "jgt pc (Fin 0) \<longleftrightarrow> jgt c m"
      unfolding cond_def pc_def by (intro percent_direction) simp_all
    from t cd have tt: "t = \<lparr>metric = ''Heart Rate'',
             change = numToString (jabs (jround pc)) @ ''%'',
             direction = (if jgt pc (Fin 0) then up else down),
             message =
               (if jgt pc (Fin 0)
                then ''Significant increase compared to your recent average. Monitor for fatigue.''
                else ''Lower than your recent average.'')\<rparr>"
      unfolding e by simp
    have a: "metric t = ''Heart Rate''"
      by (simp add: tt)
    have b: "direction t = up \<longleftrightarrow> jgt c m" "direction t = down \<longleftrightarrow> \<not> jgt c m"
      using d by (simp_all add: tt)
    have r: "\<not> negativeTie pc \<longrightarrow> change t = numToString (jround (jabs pc)) @ ''%''"
      by (simp add: tt abs_round)
    show ?thesis
      by (rule conjI [OF a conjI [OF b(1) conjI [OF b(2) r]]])
  qed
  have 7: "(calculateTrends cv hist \<noteq> [] \<longleftrightarrow>
             hr cv \<noteq> [] \<and> jgt m (Fin 0) \<and> jgt (jabs pc) (Fin 10))
          \<and> (\<forall>t \<in> set (calculateTrends cv hist).
                metric t = ''Heart Rate''
                \<and> (direction t = up \<longleftrightarrow> jgt c m)
                \<and> (direction t = down \<longleftrightarrow> \<not> jgt c m)
                \<and> (\<not> negativeTie pc \<longrightarrow> change t = numToString (jround (jabs pc)) @ ''%''))"
    using 5 6 unfolding cond_def by blast
  note 8 = 7 [unfolded pc_def m_def c_def]
  show ?thesis
    unfolding Let_def by (rule conjI [OF 1 conjI [OF 2 conjI [OF 3 conjI [OF 4 conjI [OF 0 8]]]]])
qed

theorem trend_analysis_in_double_arithmetic_witness:
  "map direction (calculateTrends (hrOnly ''85'') fiveItems) = [up]
   \<and> map change (calculateTrends (hrOnly ''85'') fiveItems) = [''21%'']
   \<and> map metric (calculateTrends (hrOnly ''85'') fiveItems) = [''Heart Rate'']
   \<and> calculateTrends (hrOnly ''85'') [(sampleItem 1 ''70'')\<lparr>vitals := None\<rparr>] = []
   \<and> spec_mean (spec_heartRates (spec_recent fiveItems)) = Fin 70"
proof -
  let ?cv = "hrOnly ''85''"
  let ?c = "parseInt (hr ?cv)"
  let ?m = "spec_mean (spec_heartRates (spec_recent fiveItems))"
  let ?pc = "spec_percent ?c ?m"
  note t = trend_analysis_in_double_arithmetic [of fiveItems ?cv, unfolded Let_def]
  note u = trend_analysis_in_double_arithmetic
             [of "[(sampleItem 1 ''70'')\<lparr>vitals := None\<rparr>]" ?cv]
  have m: "?m = Fin 70"
  proof -
    have h: "[70, 70, 70, 70, 70] \<noteq> [] \<and> (\<forall>k \<in> set [70, 70, 70, 70, 70]. 0 \<le> (k :: int))
             \<and> sum_list [70, 70, 70, 70, 70 :: int] \<le> 2 ^ 53
             \<and> spec_heartRates (spec_recent fiveItems)
                 = map (\<lambda>k. Fin (of_int k)) [70, 70, 70, 70, 70]"
      by code_simp
    have v: "toDouble (of_int (sum_list [70, 70, 70, 70, 70]) / of_nat (length [70, 70, 70, 70, 70 :: int]))
             = Fin 70"
      by code_simp
    from t [THEN conjunct2, THEN conjunct2, THEN conjunct2, THEN conjunct2, THEN conjunct1,
            THEN spec, THEN mp, OF h]
    show ?thesis
      by (simp only: v)
  qed
  have c: "?c = Fin 85"
    by code_simp
  have pc: "?pc = Fin (6031606643799771 / 281474976710656)"
    unfolding m c by code_simp
  have cond: "hr ?cv \<noteq> [] \<and> jgt ?m (Fin 0) \<and> jgt (jabs ?pc) (Fin 10)"
    unfolding pc m by code_simp
  have gt: "jgt ?c ?m"
    unfolding m c by simp
  have nt: "\<not> negativeTie ?pc"
    unfolding pc by (simp add: negativeTie_def)
  have s: "numToString (jround (jabs ?pc)) @ ''%'' = ''21%''"
    unfolding pc by code_simp
  have ne: "calculateTrends ?cv fiveItems \<noteq> []"
    using t [THEN conjunct2, THEN conjunct2, THEN conjunct2, THEN conjunct2, THEN conjunct2,
             THEN conjunct1] cond
    by (simp only: simp_thms)
  have le: "length (calculateTrends ?cv fiveItems) \<le> 1"
    using t [THEN conjunct2, THEN conjunct2, THEN conjunct1] .
  from ne le obtain x where x: "calculateTrends ?cv fiveItems = [x]"
    by (cases "calculateTrends ?cv fiveItems") auto
  have "x \<in> set (calculateTrends ?cv fiveItems)"
    by (simp add: x)
  from t [THEN conjunct2, THEN conjunct2, THEN conjunct2, THEN conjunct2, THEN conjunct2,
          THEN conjunct2, THEN bspec, OF this]
  have p: "metric x = ''Heart Rate''" "direction x = up \<longleftrightarrow> jgt ?c ?m"
    "\<not> negativeTie ?pc \<longrightarrow> change x = numToString (jround (jabs ?pc)) @ ''%''"
    by simp_all
  have 1: "map direction (calculateTrends ?cv fiveItems) = [up]"
    using p(2) gt by (simp only: x list.map simp_thms)
  have 2: "map change (calculateTrends ?cv fiveItems) = [''21%'']"
    using p(3) nt s by (simp only: x list.map simp_thms)
  have 3: "map metric (calculateTrends ?cv fiveItems) = [''Heart Rate'']"
    using p(1) by (simp only: x list.map)
  have n: "\<forall>h \<in> set [(sampleItem 1 ''70'')\<lparr>vitals := None\<rparr>]. vitals h = None"
    by simp
  have 4: "calculateTrends ?cv [(sampleItem 1 ''70'')\<lparr>vitals := None\<rparr>] = []"
    using u [THEN conjunct2, THEN conjunct2, THEN conjunct2, THEN conjunct1, THEN mp, OF n] .
  show ?thesis
    by (rule conjI [OF 1 conjI [OF 2 conjI [OF 3 conjI [OF 4 m]]]])
qed

end
